(* ===== verification/Go_Strings.thy ===== *)
theory Go_Strings
  imports Main "HOL-Library.Sublist" "HOL-Library.Char_ord" "HOL-Library.List_Lexorder"
begin

text \<open>
  The part of Go's standard library that the repository's string handling rests on: a Go
  string is a byte string, so \<^typ>\<open>string\<close> is used for it with one \<^typ>\<open>char\<close> per byte.
  The functions of the packages \<open>strings\<close>, \<open>strconv\<close> and \<open>path\<close> keep Go's names.
  \<open>TrimSpace\<close> knows the UTF-8 encodings of every Unicode space; \<open>ToUpper\<close>,
  \<open>ToLower\<close> and \<open>EqualFold\<close> know every rune whose case mapping is an ASCII letter and
  leave the other non-ASCII runes as they are, which is exact for every use the repository makes
  of them (comparison with, or search for, ASCII text).
\<close>

named_theorems go_defs \<open>definitions of the Go library functions that a proof may unfold\<close>

section \<open>Searching and trimming\<close>

abbreviation nl :: char where "nl \<equiv> CHR 0x0A"
abbreviation cr :: char where "cr \<equiv> CHR 0x0D"
abbreviation tab :: char where "tab \<equiv> CHR 0x09"
abbreviation quote :: char where "quote \<equiv> CHR 0x22"

definition HasPrefix :: "string \<Rightarrow> string \<Rightarrow> bool" where
  [go_defs]: "HasPrefix s p = prefix p s"

definition HasSuffix :: "string \<Rightarrow> string \<Rightarrow> bool" where
  [go_defs]: "HasSuffix s p = suffix p s"

definition Contains :: "string \<Rightarrow> string \<Rightarrow> bool" where
  [go_defs]: "Contains s sub = sublist sub s"

definition TrimPrefix :: "string \<Rightarrow> string \<Rightarrow> string" where
  [go_defs]: "TrimPrefix s p = (if prefix p s then drop (length p) s else s)"

definition TrimSuffix :: "string \<Rightarrow> string \<Rightarrow> string" where
  [go_defs]: "TrimSuffix s p = (if suffix p s then take (length s - length p) s else s)"

text \<open>\<open>strings.TrimLeft\<close>, \<open>TrimRight\<close> and \<open>Trim\<close> with a cutset of ASCII bytes.\<close>

definition TrimLeft :: "string \<Rightarrow> string \<Rightarrow> string" where
  [go_defs]: "TrimLeft s cutset = dropWhile (\<lambda>c. c \<in> set cutset) s"

definition Trim :: "string \<Rightarrow> string \<Rightarrow> string" where
  [go_defs]: "Trim s cutset = rev (TrimLeft (rev (TrimLeft s cutset)) cutset)"

text \<open>The UTF-8 encodings of the runes \<open>unicode.IsSpace\<close> accepts.\<close>

definition space_seqs :: "string list" where
  "space_seqs =
    [[CHR 0x20], [CHR 0x09], [CHR 0x0A], [CHR 0x0D], [CHR 0x0B], [CHR 0x0C],
     [CHR 0xC2, CHR 0x85], [CHR 0xC2, CHR 0xA0], [CHR 0xE1, CHR 0x9A, CHR 0x80],
     [CHR 0xE2, CHR 0x80, CHR 0x80], [CHR 0xE2, CHR 0x80, CHR 0x81],
     [CHR 0xE2, CHR 0x80, CHR 0x82], [CHR 0xE2, CHR 0x80, CHR 0x83],
     [CHR 0xE2, CHR 0x80, CHR 0x84], [CHR 0xE2, CHR 0x80, CHR 0x85],
     [CHR 0xE2, CHR 0x80, CHR 0x86], [CHR 0xE2, CHR 0x80, CHR 0x87],
     [CHR 0xE2, CHR 0x80, CHR 0x88], [CHR 0xE2, CHR 0x80, CHR 0x89],
     [CHR 0xE2, CHR 0x80, CHR 0x8A], [CHR 0xE2, CHR 0x80, CHR 0xA8],
     [CHR 0xE2, CHR 0x80, CHR 0xA9], [CHR 0xE2, CHR 0x80, CHR 0xAF],
     [CHR 0xE2, CHR 0x81, CHR 0x9F], [CHR 0xE3, CHR 0x80, CHR 0x80]]"

definition starts_with_any :: "string list \<Rightarrow> string \<Rightarrow> string option" where
  "starts_with_any ps s = find (\<lambda>p. p \<noteq> [] \<and> prefix p s) ps"

function trim_seqs :: "string list \<Rightarrow> string \<Rightarrow> string" where
  "trim_seqs ps s =
    (case starts_with_any ps s of None \<Rightarrow> s | Some p \<Rightarrow> trim_seqs ps (drop (length p) s))"
  by pat_completeness auto
termination
proof (relation "measure (\<lambda>(ps, s). length s)", simp)
  fix ps s p assume "starts_with_any ps s = Some p"
  then have "p \<noteq> []" and "prefix p s"
    by (auto simp: starts_with_any_def find_Some_iff)
  then show "((ps, drop (length p) s), ps, s) \<in> measure (\<lambda>(ps, s). length s)"
    by (auto simp: prefix_def)
qed

declare trim_seqs.simps [simp del]

definition TrimSpace :: "string \<Rightarrow> string" where
  "TrimSpace s = rev (trim_seqs (map rev space_seqs) (rev (trim_seqs space_seqs s)))"

lemma starts_with_any_None:
  "starts_with_any ps s = None \<longleftrightarrow> (\<forall>p \<in> set ps. p \<noteq> [] \<longrightarrow> \<not> prefix p s)"
  by (auto simp: starts_with_any_def find_None_iff)

lemma trim_seqs_suffix: "suffix (trim_seqs ps s) s"
proof (induction ps s rule: trim_seqs.induct)
  case (1 ps s)
  show ?case
  proof (cases "starts_with_any ps s")
    case None
    then show ?thesis by (simp add: trim_seqs.simps [of ps s])
  next
    case (Some p)
    with 1 have "suffix (trim_seqs ps (drop (length p) s)) (drop (length p) s)" by simp
    then have "suffix (trim_seqs ps (drop (length p) s)) s"
      by (rule suffix_order.trans) (rule suffix_drop)
    with Some show ?thesis by (simp add: trim_seqs.simps [of ps s])
  qed
qed

lemma trim_seqs_stops: "starts_with_any ps (trim_seqs ps s) = None"
proof (induction ps s rule: trim_seqs.induct)
  case (1 ps s)
  then show ?case by (cases "starts_with_any ps s") (simp_all add: trim_seqs.simps [of ps s])
qed

lemma trim_seqs_id: "starts_with_any ps s = None \<Longrightarrow> trim_seqs ps s = s"
  by (simp add: trim_seqs.simps)

lemma starts_with_any_prefix_None:
  "starts_with_any ps s = None \<Longrightarrow> prefix t s \<Longrightarrow> starts_with_any ps t = None"
  by (auto simp: starts_with_any_None dest: prefix_order.trans)

text \<open>\<open>TrimSpace\<close> returns a part of its argument that neither starts nor ends with a space.\<close>

lemma TrimSpace_sublist: "sublist (TrimSpace s) s"
proof -
  let ?l = "trim_seqs space_seqs s"
  have "suffix (trim_seqs (map rev space_seqs) (rev ?l)) (rev ?l)" by (rule trim_seqs_suffix)
  then have "prefix (TrimSpace s) ?l" by (simp add: TrimSpace_def suffix_to_prefix)
  then have "sublist (TrimSpace s) ?l" by (rule prefix_imp_sublist)
  moreover have "sublist ?l s" by (rule suffix_imp_sublist) (rule trim_seqs_suffix)
  ultimately show ?thesis by (rule sublist_order.order.trans)
qed

lemma TrimSpace_no_leading: "starts_with_any space_seqs (TrimSpace s) = None"
proof -
  let ?l = "trim_seqs space_seqs s"
  have "suffix (trim_seqs (map rev space_seqs) (rev ?l)) (rev ?l)" by (rule trim_seqs_suffix)
  then have "prefix (TrimSpace s) ?l" by (simp add: TrimSpace_def suffix_to_prefix)
  with trim_seqs_stops show ?thesis by (rule starts_with_any_prefix_None)
qed

lemma TrimSpace_no_trailing: "starts_with_any (map rev space_seqs) (rev (TrimSpace s)) = None"
  by (simp add: TrimSpace_def trim_seqs_stops)

lemma TrimSpace_id:
  assumes "starts_with_any space_seqs s = None"
    and "starts_with_any (map rev space_seqs) (rev s) = None"
  shows "TrimSpace s = s"
  using assms by (simp add: TrimSpace_def trim_seqs_id)

lemma TrimSpace_idem [simp]: "TrimSpace (TrimSpace s) = TrimSpace s"
  by (rule TrimSpace_id) (rule TrimSpace_no_leading, rule TrimSpace_no_trailing)

lemma TrimSpace_blank [simp]: "TrimSpace (CHR '' '' # s) = TrimSpace s"
proof -
  have "starts_with_any space_seqs (CHR '' '' # s) = Some '' ''"
    by (simp add: starts_with_any_def space_seqs_def)
  then show ?thesis by (simp add: TrimSpace_def trim_seqs.simps [of space_seqs "CHR '' '' # s"])
qed

text \<open>A trimmed text with a word in front of it, ended by a character that is no part of a space.\<close>

lemma TrimSpace_prefixed:
  assumes "TrimSpace v = v" and "starts_with_any space_seqs (k @ c # v) = None"
    and "c \<notin> set (concat space_seqs)"
  shows "TrimSpace (k @ c # v) = k @ c # v"
proof (rule TrimSpace_id [OF assms(2)])
  have v: "starts_with_any (map rev space_seqs) (rev v) = None"
    using TrimSpace_no_trailing [of v] assms(1) by simp
  have "\<not> prefix q (rev v @ c # rev k)" if q: "q \<in> set (map rev space_seqs)" "q \<noteq> []" for q
  proof
    assume p: "prefix q (rev v @ c # rev k)"
    from v q have np: "\<not> prefix q (rev v)" by (auto simp: starts_with_any_None)
    with p have "c \<in> set q"
      by (auto simp: prefix_append prefix_Cons)
    with q(1) assms(3) show False by auto
  qed
  then show "starts_with_any (map rev space_seqs) (rev (k @ c # v)) = None"
    by (auto simp: starts_with_any_None)
qed

section \<open>Splitting, joining and replacing\<close>

fun Split :: "string \<Rightarrow> char \<Rightarrow> string list" where
  "Split [] c = [[]]"
| "Split (x # xs) c =
    (if x = c then [] # Split xs c
     else (case Split xs c of [] \<Rightarrow> [[x]] | y # ys \<Rightarrow> (x # y) # ys))"

fun Join :: "string list \<Rightarrow> string \<Rightarrow> string" where
  "Join [] sep = []"
| "Join [x] sep = x"
| "Join (x # y # zs) sep = x @ sep @ Join (y # zs) sep"

lemma Split_not_Nil [simp]: "Split s c \<noteq> []"
  by (cases s) (auto split: list.split)

lemma Split_length [simp]: "0 < length (Split s c)"
  by simp

lemma Join_Cons: "xs \<noteq> [] \<Longrightarrow> Join (x # xs) sep = x @ sep @ Join xs sep"
  by (cases xs) auto

lemma Join_Split [simp]: "Join (Split s c) [c] = s"
proof (induction s)
  case Nil
  then show ?case by simp
next
  case (Cons x xs)
  obtain y ys where yys: "Split xs c = y # ys" by (cases "Split xs c") auto
  with Cons show ?case by (cases ys) auto
qed

lemma Split_parts_no_sep: "p \<in> set (Split s c) \<Longrightarrow> c \<notin> set p"
proof (induction s arbitrary: p)
  case Nil
  then show ?case by simp
next
  case (Cons x xs)
  obtain y ys where yys: "Split xs c = y # ys" by (cases "Split xs c") auto
  with Cons show ?case by (auto split: if_splits)
qed

lemma Split_no_sep: "c \<notin> set s \<Longrightarrow> Split s c = [s]"
  by (induction s) auto

lemma Split_append: "c \<notin> set s \<Longrightarrow> Split (s @ c # t) c = s # Split t c"
  by (induction s) auto

lemma Split_Join:
  "xs \<noteq> [] \<Longrightarrow> \<forall>x \<in> set xs. c \<notin> set x \<Longrightarrow> Split (Join xs [c]) c = xs"
proof (induction xs)
  case Nil
  then show ?case by simp
next
  case (Cons x xs)
  then show ?case by (cases xs) (auto simp: Split_no_sep Split_append)
qed

text \<open>\<open>strings.ReplaceAll\<close> for a non-empty pattern, and \<open>strings.Replace\<close> with \<open>n = 1\<close>.\<close>

function ReplaceAll :: "string \<Rightarrow> string \<Rightarrow> string \<Rightarrow> string" where
  "ReplaceAll [] old new = []"
| "ReplaceAll (x # xs) old new =
    (if old \<noteq> [] \<and> prefix old (x # xs)
     then new @ ReplaceAll (drop (length old) (x # xs)) old new
     else x # ReplaceAll xs old new)"
  by pat_completeness auto
termination
  by (relation "measure (\<lambda>(s, old, new). length s)") (auto simp: neq_Nil_conv)

fun Replace1 :: "string \<Rightarrow> string \<Rightarrow> string \<Rightarrow> string" where
  "Replace1 [] old new = []"
| "Replace1 (x # xs) old new =
    (if prefix old (x # xs) then new @ drop (length old) (x # xs)
     else x # Replace1 xs old new)"

lemma ReplaceAll_char: "ReplaceAll s [c] new = concat (map (\<lambda>x. if x = c then new else [x]) s)"
  by (induction s) auto

lemma ReplaceAll_char_char: "ReplaceAll s [c] [d] = map (\<lambda>x. if x = c then d else x) s"
  by (induction s) auto

text \<open>\<open>strings.Count\<close> for a one-byte pattern.\<close>

definition CountByte :: "string \<Rightarrow> char \<Rightarrow> nat" where
  [go_defs]: "CountByte s c = count_list s c"

text \<open>\<open>strings.Fields\<close>: the maximal space-free parts.\<close>

definition is_ascii_space :: "char \<Rightarrow> bool" where
  [go_defs]: "is_ascii_space c \<longleftrightarrow> c \<in> {CHR 0x20, tab, nl, cr, CHR 0x0B, CHR 0x0C}"

function fields_acc :: "string \<Rightarrow> string \<Rightarrow> string list" where
  "fields_acc acc [] = (if acc = [] then [] else [rev acc])"
| "fields_acc acc (x # xs) =
    (case starts_with_any space_seqs (x # xs) of
       None \<Rightarrow> fields_acc (x # acc) xs
     | Some p \<Rightarrow> (if acc = [] then [] else [rev acc]) @ fields_acc [] (drop (length p) (x # xs)))"
  by pat_completeness auto
termination
proof (relation "measure (\<lambda>(acc, s). length s)", simp, simp)
  fix acc :: string and x xs p assume "starts_with_any space_seqs (x # xs) = Some p"
  then have "p \<noteq> []" by (auto simp: starts_with_any_def find_Some_iff)
  then show "(([], drop (length p) (x # xs)), acc, x # xs) \<in> measure (\<lambda>(acc, s). length s)"
    by (cases p) auto
qed

definition Fields :: "string \<Rightarrow> string list" where
  "Fields s = fields_acc [] s"

section \<open>Case mapping\<close>

definition upper_byte :: "char \<Rightarrow> char" where
  "upper_byte c = (if CHR ''a'' \<le> c \<and> c \<le> CHR ''z'' then char_of (of_char c - 32 :: nat) else c)"

definition lower_byte :: "char \<Rightarrow> char" where
  "lower_byte c = (if CHR ''A'' \<le> c \<and> c \<le> CHR ''Z'' then char_of (of_char c + 32 :: nat) else c)"

text \<open>
  Two non-ASCII runes have an ASCII upper case (U+0131 and U+017F), two an ASCII lower case
  (U+0130 and U+212A), and two fold to ASCII letters (U+017F and U+212A).
\<close>

fun ToUpper :: "string \<Rightarrow> string" where
  "ToUpper [] = []"
| "ToUpper (a # s) =
    (if a = CHR 0xC4 \<and> s \<noteq> [] \<and> hd s = CHR 0xB1 then CHR ''I'' # ToUpper (tl s)
     else if a = CHR 0xC5 \<and> s \<noteq> [] \<and> hd s = CHR 0xBF then CHR ''S'' # ToUpper (tl s)
     else upper_byte a # ToUpper s)"

fun ToLower :: "string \<Rightarrow> string" where
  "ToLower [] = []"
| "ToLower (a # s) =
    (if a = CHR 0xC4 \<and> s \<noteq> [] \<and> hd s = CHR 0xB0 then CHR ''i'' # ToLower (tl s)
     else if prefix [CHR 0xE2, CHR 0x84, CHR 0xAA] (a # s) then CHR ''k'' # ToLower (tl (tl s))
     else lower_byte a # ToLower s)"

fun fold_case :: "string \<Rightarrow> string" where
  "fold_case [] = []"
| "fold_case (a # s) =
    (if a = CHR 0xC5 \<and> s \<noteq> [] \<and> hd s = CHR 0xBF then CHR ''s'' # fold_case (tl s)
     else if prefix [CHR 0xE2, CHR 0x84, CHR 0xAA] (a # s) then CHR ''k'' # fold_case (tl (tl s))
     else lower_byte a # fold_case s)"

definition EqualFold :: "string \<Rightarrow> string \<Rightarrow> bool" where
  [go_defs]: "EqualFold s t \<longleftrightarrow> fold_case s = fold_case t"

section \<open>Decimal numbers\<close>

definition is_digit :: "char \<Rightarrow> bool" where
  [go_defs]: "is_digit c \<longleftrightarrow> CHR ''0'' \<le> c \<and> c \<le> CHR ''9''"

definition digit_val :: "char \<Rightarrow> nat" where
  "digit_val c = of_char c - 48"

definition digits_val :: "string \<Rightarrow> nat" where
  "digits_val s = foldl (\<lambda>n c. 10 * n + digit_val c) 0 s"

definition minInt64 :: int where "minInt64 = - (2 ^ 63)"
definition maxInt64 :: int where "maxInt64 = 2 ^ 63 - 1"

text \<open>
  \<open>strconv.Atoi\<close> on a 64-bit platform, which is \<open>strconv.ParseInt(s, 10, 64)\<close>: an optional
  sign and at least one digit, the value within 64 bits; everything else is an error.
\<close>

definition Atoi :: "string \<Rightarrow> int option" where
  "Atoi s =
    (let neg = prefix ''-'' s;
         ds = (if prefix ''-'' s \<or> prefix ''+'' s then tl s else s);
         v = (if neg then - int (digits_val ds) else int (digits_val ds))
     in if ds \<noteq> [] \<and> list_all is_digit ds \<and> minInt64 \<le> v \<and> v \<le> maxInt64
        then Some v else None)"

fun nat_digits :: "nat \<Rightarrow> string" where
  "nat_digits n = (if n < 10 then [char_of (48 + n)] else nat_digits (n div 10) @ [char_of (48 + n mod 10)])"

declare nat_digits.simps [simp del]

definition Itoa :: "int \<Rightarrow> string" where
  "Itoa v = (if v < 0 then CHR ''-'' # nat_digits (nat (- v)) else nat_digits (nat v))"

lemma digit_char_bounds: "n < 10 \<Longrightarrow> is_digit (char_of (48 + n :: nat))"
  by (simp add: is_digit_def less_eq_char_def)

lemma digit_val_char: "n < 10 \<Longrightarrow> digit_val (char_of (48 + n :: nat)) = n"
  by (simp add: digit_val_def)

lemma digits_val_snoc [simp]: "digits_val (s @ [c]) = 10 * digits_val s + digit_val c"
  by (simp add: digits_val_def)

lemma nat_digits_correct:
  "nat_digits n \<noteq> [] \<and> list_all is_digit (nat_digits n) \<and> digits_val (nat_digits n) = n"
proof (induction n rule: nat_digits.induct)
  case (1 n)
  show ?case
  proof (cases "n < 10")
    case True
    then show ?thesis
      by (simp add: nat_digits.simps [of n] digit_char_bounds digits_val_def digit_val_char)
  next
    case False
    with 1 show ?thesis
      by (simp add: nat_digits.simps [of n] digit_char_bounds digit_val_char)
  qed
qed

lemma nat_digits_not_sign: "\<not> prefix ''-'' (nat_digits n) \<and> \<not> prefix ''+'' (nat_digits n)"
proof (cases "nat_digits n")
  case Nil
  then show ?thesis by simp
next
  case (Cons c cs)
  with nat_digits_correct [of n] have "is_digit c" by simp
  with Cons show ?thesis by (auto simp: is_digit_def less_eq_char_def)
qed

text \<open>Printing and parsing a 64-bit integer are inverse.\<close>

lemma Atoi_Itoa:
  assumes "minInt64 \<le> v" "v \<le> maxInt64"
  shows "Atoi (Itoa v) = Some v"
proof (cases "v < 0")
  case True
  with assms show ?thesis
    using nat_digits_correct [of "nat (- v)"] by (auto simp: Atoi_def Itoa_def Let_def)
next
  case False
  with assms show ?thesis
    using nat_digits_correct [of "nat v"] nat_digits_not_sign [of "nat v"]
    by (auto simp: Atoi_def Itoa_def Let_def)
qed

lemma Atoi_range: "Atoi s = Some v \<Longrightarrow> minInt64 \<le> v \<and> v \<le> maxInt64"
  by (auto simp: Atoi_def Let_def split: if_splits)

end
