(* ===== verification/Go_UTF8.thy ===== *)
theory Go_UTF8
  imports Go_Strings
begin

text \<open>
  UTF-8 as Go reads it: a string is a sequence of bytes, and reading runes from it replaces every
  byte that starts no valid encoding by U+FFFD.
\<close>

section \<open>Runes\<close>

type_synonym rune = string
type_synonym reader = "rune list"

definition cont_byte :: "char \<Rightarrow> bool" where
  "cont_byte c \<longleftrightarrow> CHR 0x80 \<le> c \<and> c \<le> CHR 0xBF"

definition cont_bytes :: "nat \<Rightarrow> string \<Rightarrow> bool" where
  "cont_bytes n s \<longleftrightarrow> n \<le> length s \<and> list_all cont_byte (take n s)"

definition second_byte :: "char \<Rightarrow> char \<Rightarrow> string \<Rightarrow> bool" where
  "second_byte lo hi s \<longleftrightarrow> s \<noteq> [] \<and> lo \<le> hd s \<and> hd s \<le> hi"

text \<open>The length of the valid encoding at the start of a string; 0 if there is none.\<close>

fun rune_len :: "string \<Rightarrow> nat" where
  "rune_len [] = 0"
| "rune_len (b # s) =
    (if b < CHR 0x80 then 1
     else if CHR 0xC2 \<le> b \<and> b \<le> CHR 0xDF then (if cont_bytes 1 s then 2 else 0)
     else if b = CHR 0xE0 then (if cont_bytes 2 s \<and> second_byte (CHR 0xA0) (CHR 0xBF) s then 3 else 0)
     else if b = CHR 0xED then (if cont_bytes 2 s \<and> second_byte (CHR 0x80) (CHR 0x9F) s then 3 else 0)
     else if CHR 0xE1 \<le> b \<and> b \<le> CHR 0xEF then (if cont_bytes 2 s then 3 else 0)
     else if b = CHR 0xF0 then (if cont_bytes 3 s \<and> second_byte (CHR 0x90) (CHR 0xBF) s then 4 else 0)
     else if CHR 0xF1 \<le> b \<and> b \<le> CHR 0xF3 then (if cont_bytes 3 s then 4 else 0)
     else if b = CHR 0xF4 then (if cont_bytes 3 s \<and> second_byte (CHR 0x80) (CHR 0x8F) s then 4 else 0)
     else 0)"

definition rune_error :: rune where
  "rune_error = [CHR 0xEF, CHR 0xBF, CHR 0xBD]"

function runes :: "string \<Rightarrow> reader" where
  "runes [] = []"
| "runes (b # s) =
    (if rune_len (b # s) = 0 then rune_error # runes s
     else take (rune_len (b # s)) (b # s) # runes (drop (rune_len (b # s)) (b # s)))"
  by pat_completeness auto
termination
  by (relation "measure length") (simp_all del: rune_len.simps)

function ValidString :: "string \<Rightarrow> bool" where
  "ValidString [] = True"
| "ValidString (b # s) =
    (if rune_len (b # s) = 0 then False else ValidString (drop (rune_len (b # s)) (b # s)))"
  by pat_completeness auto
termination
  by (relation "measure length") (simp_all del: rune_len.simps)

declare rune_len.simps [simp del]

lemma rune_len_le: "rune_len s \<le> length s"
  by (cases s) (auto simp: rune_len.simps cont_bytes_def)

lemma rune_len_ascii [simp]: "b < CHR 0x80 \<Longrightarrow> rune_len (b # s) = 1"
  by (simp add: rune_len.simps)

lemma rune_len_high: "\<not> b < CHR 0x80 \<Longrightarrow> rune_len (b # s) \<noteq> 1"
  by (simp add: rune_len.simps)

lemma runes_concat: "ValidString s \<Longrightarrow> concat (runes s) = s"
  by (induction s rule: ValidString.induct) (simp_all split: if_splits)

text \<open>The bytes of a valid encoding longer than one byte are all above the ASCII range.\<close>

lemma rune_bytes_high:
  assumes "\<not> b < CHR 0x80" "c \<in> set (take (rune_len (b # s)) (b # s))"
  shows "\<not> c < CHR 0x80"
proof (cases "c = b")
  case True
  with assms show ?thesis by simp
next
  case False
  with assms(2) have "c \<in> set (take (rune_len (b # s) - 1) s)"
    by (cases "rune_len (b # s)") auto
  moreover have "rune_len (b # s) = 0 \<or> cont_bytes (rune_len (b # s) - 1) s"
    using assms(1) by (simp add: rune_len.simps)
  ultimately have "cont_byte c"
    by (auto simp: cont_bytes_def list_all_iff)
  then show ?thesis by (auto simp: cont_byte_def)
qed

end
