(* ===== verification/MQSC_Redact.thy ===== *)
theory MQSC_Redact
  imports Go_UTF8
begin

text \<open>
  Model of \<open>internal/mqscredact/mqscredact.go\<close>, the scanner that hides the values of the
  sensitive MQSC parameters before MQSC text is logged. A \<open>bufio.Reader\<close> over the text is
  the list of the runes still to be read, each rune held as its UTF-8 encoding, which is what
  \<open>string(char)\<close> yields; \<open>ReadRune\<close> replaces an invalid byte by U+FFFD. The five flags and
  three buffers of \<open>Redact\<close> are the record \<open>redact_state\<close>. Reading from a string fails at its
  end only, so the branches for other read errors cannot be taken and \<open>Redact\<close> returns its text.
\<close>

section \<open>The scanner\<close>

definition sensitiveParameters :: "string list" where
  "sensitiveParameters = [''LDAPPWD'', ''PASSWORD'', ''SSLCRYP'']"

definition redactionString :: string where
  "redactionString = ''(*********)''"

text \<open>The regular expression \<open>[^:0-9\s]\<close>, matched against one rune.\<close>

definition startOutput :: "rune \<Rightarrow> bool" where
  "startOutput r \<longleftrightarrow>
    r \<notin> set ([CHR '':''] # map (\<lambda>c. [c]) ''0123456789'') \<and>
    r \<notin> {[tab], [nl], [CHR 0x0C], [cr], '' ''}"

text \<open>Reads to the end of a comment line; the flag says that the input ended first.\<close>

fun CommentLoop :: "reader \<Rightarrow> string \<times> reader \<times> bool" where
  "CommentLoop [] = ([], [], True)"
| "CommentLoop (c # cs) =
    (if c = [nl] then (c, cs, False)
     else (case CommentLoop cs of (t, rest, eof) \<Rightarrow> (c @ t, rest, eof)))"

lemma CommentLoop_length: "CommentLoop r = (t, rest, eof) \<Longrightarrow> length rest \<le> length r"
  by (induction r arbitrary: t rest eof) (auto split: if_splits prod.splits intro: le_SucI)

text \<open>
  \<open>NewLineLoop\<close> of \<open>findEndOfParamterString\<close>: skips the start of a line and any comment
  lines; the flag says that the input ended, so that the caller returns.
\<close>

function NewLineLoop :: "reader \<Rightarrow> string \<times> reader \<times> bool" where
  "NewLineLoop [] = ([], [], True)"
| "NewLineLoop (c # cs) =
    (if startOutput c then
       (if c = ''*'' then
          (case CommentLoop cs of (t, rest, eof) \<Rightarrow>
             if eof then (c @ t, rest, True)
             else (case NewLineLoop rest of (t', rest', eof') \<Rightarrow> (c @ t @ t', rest', eof')))
        else ([], c # cs, False))
     else (case NewLineLoop cs of (t, rest, eof) \<Rightarrow> (c @ t, rest, eof)))"
  by pat_completeness auto
termination
  by (relation "measure length") (auto dest!: CommentLoop_length [OF sym] simp: less_Suc_eq_le)

lemma NewLineLoop_length: "NewLineLoop r = (t, rest, eof) \<Longrightarrow> length rest \<le> length r"
proof (induction r arbitrary: t rest eof rule: NewLineLoop.induct)
  case 1
  then show ?case by simp
next
  case (2 c cs)
  then show ?case
    by (fastforce split: if_splits prod.splits dest: CommentLoop_length)
qed

function findEndOfParamterString :: "rune \<Rightarrow> reader \<Rightarrow> string \<times> reader" where
  "findEndOfParamterString d [] = ([], [])"
| "findEndOfParamterString d (c # cs) =
    (if c = d then (c, cs)
     else if c = [nl] then
       (case NewLineLoop cs of (t, rest, eof) \<Rightarrow>
          if eof then (c @ t, rest)
          else (case findEndOfParamterString d rest of (t', rest') \<Rightarrow> (c @ t @ t', rest')))
     else (case findEndOfParamterString d cs of (t, rest) \<Rightarrow> (c @ t, rest)))"
  by pat_completeness auto
termination
  by (relation "measure (\<lambda>(d, r). length r)") (auto dest!: NewLineLoop_length [OF sym] simp: less_Suc_eq_le)

lemma findEnd_length: "findEndOfParamterString d r = (t, rest) \<Longrightarrow> length rest \<le> length r"
proof (induction d r arbitrary: t rest rule: findEndOfParamterString.induct)
  case (1 d)
  then show ?case by simp
next
  case (2 d c cs)
  then show ?case
    by (fastforce split: if_splits prod.splits dest: NewLineLoop_length)
qed

text \<open>The loop of \<open>getParameterString\<close>, and the function itself.\<close>

function parameterLoop :: "reader \<Rightarrow> string \<times> reader" where
  "parameterLoop [] = ([], [])"
| "parameterLoop (c # cs) =
    (if c = '')'' then (c, cs)
     else if c = [CHR 0x27] \<or> c = [quote] then
       (case findEndOfParamterString c cs of (t, rest) \<Rightarrow>
          (case parameterLoop rest of (t', rest') \<Rightarrow> (c @ t @ t', rest')))
     else (case parameterLoop cs of (t, rest) \<Rightarrow> (c @ t, rest)))"
  by pat_completeness auto
termination
  by (relation "measure length") (auto dest!: findEnd_length [OF sym] simp: less_Suc_eq_le)

definition getParameterString :: "reader \<Rightarrow> string \<times> reader" where
  "getParameterString r = (case parameterLoop r of (t, rest) \<Rightarrow> (''('' @ t, rest))"

record redact_state =
  returnStr :: string
  currentVerb :: string
  originalString :: string
  lineContinuation :: bool
  foundGap :: bool
  parameterNext :: bool
  redacting :: bool
  checkComment :: bool
  newline :: bool

definition resetAllParameters :: "redact_state \<Rightarrow> redact_state" where
  "resetAllParameters st = st\<lparr>currentVerb := [], originalString := [], lineContinuation := False,
     foundGap := False, parameterNext := False, redacting := False, checkComment := True\<rparr>"

definition isSensitiveCommand :: "string \<Rightarrow> bool" where
  "isSensitiveCommand command \<longleftrightarrow> list_ex (\<lambda>v. Contains command v) sensitiveParameters"

definition redact_init :: redact_state where
  "redact_init = resetAllParameters \<lparr>returnStr = [], currentVerb = [], originalString = [],
     lineContinuation = False, foundGap = False, parameterNext = False, redacting = False,
     checkComment = False, newline = True\<rparr>"

text \<open>The head of \<open>MainLoop\<close>: copy or replace the parameter value that comes next.\<close>

definition parameterBlock :: "redact_state \<Rightarrow> reader \<Rightarrow> redact_state \<times> reader" where
  "parameterBlock st r =
    (if parameterNext st then
       (case getParameterString r of (parameterStr, rest) \<Rightarrow>
          (resetAllParameters
             (st\<lparr>returnStr := returnStr st @ (if \<not> redacting st then parameterStr else redactionString)\<rparr>),
           rest))
     else (st, r))"

text \<open>The part of \<open>MainLoop\<close> after the \<open>switch\<close>.\<close>

definition afterSwitch :: "redact_state \<Rightarrow> rune \<Rightarrow> redact_state" where
  "afterSwitch st c =
    (let st = st\<lparr>checkComment := False, lineContinuation := False\<rparr>;
         st = (if foundGap st \<or> parameterNext st
               then st\<lparr>redacting := redacting st \<or> isSensitiveCommand (ToUpper (currentVerb st)),
                       returnStr := returnStr st @ originalString st,
                       originalString := [], currentVerb := [],
                       foundGap := False, lineContinuation := False\<rparr>
               else st)
     in st\<lparr>originalString := originalString st @ c, currentVerb := currentVerb st @ c\<rparr>)"

text \<open>
  The body of \<open>MainLoop\<close> for the rune just read: \<open>Inl\<close> is the text returned when the
  input ends inside a comment, \<open>Inr\<close> the state and the reader of the next round.
\<close>

definition processRune :: "redact_state \<Rightarrow> rune \<Rightarrow> reader \<Rightarrow> string + (redact_state \<times> reader)" where
  "processRune st c cs =
    (if newline st \<and> \<not> startOutput c
     then Inr (st\<lparr>originalString := originalString st @ c\<rparr>, cs)
     else
       let st = st\<lparr>newline := False\<rparr> in
       if c = ''+'' \<or> c = ''-''
       then Inr (st\<lparr>lineContinuation := True, foundGap := False,
                    originalString := originalString st @ c\<rparr>, cs)
       else if c \<in> {[nl], [tab], [cr], '' ''}
       then Inr (st\<lparr>checkComment := checkComment st \<or> c = [nl], newline := (c = [nl]),
                    foundGap := foundGap st \<or> \<not> lineContinuation st,
                    originalString := originalString st @ c\<rparr>, cs)
       else if c = ''*'' \<and> checkComment st
       then (case CommentLoop cs of (t, rest, eof) \<Rightarrow>
               if eof then Inl (returnStr st @ originalString st @ c @ t)
               else Inr (st\<lparr>originalString := originalString st @ c @ t,
                            checkComment := True, newline := True\<rparr>, rest))
       else Inr (afterSwitch (st\<lparr>parameterNext := parameterNext st \<or> c = ''(''\<rparr>) c, cs))"

text \<open>One round of \<open>MainLoop\<close>.\<close>

definition mainRound :: "redact_state \<Rightarrow> reader \<Rightarrow> string + (redact_state \<times> reader)" where
  "mainRound st r =
    (case parameterBlock st r of (st, r) \<Rightarrow>
       (case r of [] \<Rightarrow> Inl (returnStr st @ originalString st)
        | c # cs \<Rightarrow> processRune st c cs))"

lemma parameterLoop_length: "parameterLoop r = (t, rest) \<Longrightarrow> length rest \<le> length r"
proof (induction r arbitrary: t rest rule: parameterLoop.induct)
  case 1
  then show ?case by simp
next
  case (2 c cs)
  then show ?case
    by (fastforce split: if_splits prod.splits dest: findEnd_length)
qed

lemma parameterBlock_length: "parameterBlock st r = (st', r') \<Longrightarrow> length r' \<le> length r"
  by (auto simp: parameterBlock_def getParameterString_def split: if_splits prod.splits
           dest: parameterLoop_length)

lemma processRune_length: "processRune st c cs = Inr (st', r') \<Longrightarrow> length r' \<le> length cs"
  by (auto simp: processRune_def Let_def split: if_splits prod.splits dest: CommentLoop_length)

lemma mainRound_length: "mainRound st r = Inr (st', r') \<Longrightarrow> length r' < length r"
  by (force simp: mainRound_def split: prod.splits list.splits
            dest: parameterBlock_length processRune_length)

function redactLoop :: "redact_state \<Rightarrow> reader \<Rightarrow> string" where
  "redactLoop st r =
    (case mainRound st r of Inl out \<Rightarrow> out | Inr (st', r') \<Rightarrow> redactLoop st' r')"
  by pat_completeness auto
termination
  by (relation "measure (\<lambda>(st, r). length r)") (auto dest: mainRound_length)

declare redactLoop.simps [simp del]

definition Redact :: "string \<Rightarrow> string" where
  "Redact out = redactLoop redact_init (runes (TrimSpace out))"

section \<open>What the reading functions consume\<close>

text \<open>Each reading function returns exactly the runes it took from the front of the reader.\<close>

lemma CommentLoop_reads:
  "CommentLoop r = (t, rest, eof) \<Longrightarrow> \<exists>us. r = us @ rest \<and> t = concat us"
proof (induction r arbitrary: t rest eof)
  case Nil
  then show ?case by simp
next
  case (Cons c cs)
  show ?case
  proof (cases "c = [nl]")
    case True
    with Cons.prems show ?thesis by (intro exI [of _ "[c]"]) auto
  next
    case False
    obtain t' rest' eof' where l: "CommentLoop cs = (t', rest', eof')" by (cases "CommentLoop cs")
    with Cons.IH obtain us where "cs = us @ rest'" "t' = concat us" by blast
    with False l Cons.prems show ?thesis by (intro exI [of _ "c # us"]) auto
  qed
qed

lemma NewLineLoop_reads:
  "NewLineLoop r = (t, rest, eof) \<Longrightarrow> \<exists>us. r = us @ rest \<and> t = concat us"
proof (induction r arbitrary: t rest eof rule: NewLineLoop.induct)
  case 1
  then show ?case by simp
next
  case (2 c cs)
  consider (stop) "startOutput c" "c \<noteq> ''*''" | (comment) "startOutput c" "c = ''*''"
    | (skip) "\<not> startOutput c" by blast
  then show ?case
  proof cases
    case stop
    with "2.prems" show ?thesis by (intro exI [of _ "[]"]) auto
  next
    case comment
    obtain t' rest' eof' where l: "CommentLoop cs = (t', rest', eof')" by (cases "CommentLoop cs")
    then obtain us where us: "cs = us @ rest'" "t' = concat us" using CommentLoop_reads by blast
    show ?thesis
    proof (cases eof')
      case True
      with "2.prems" comment l us show ?thesis by (intro exI [of _ "c # us"]) auto
    next
      case False
      obtain t2 rest2 eof2 where l2: "NewLineLoop rest' = (t2, rest2, eof2)"
        by (cases "NewLineLoop rest'")
      with "2.IH"(1) comment l False obtain vs where "rest' = vs @ rest2" "t2 = concat vs"
        by fastforce
      with "2.prems" comment l l2 us False show ?thesis by (intro exI [of _ "c # us @ vs"]) auto
    qed
  next
    case skip
    obtain t' rest' eof' where l: "NewLineLoop cs = (t', rest', eof')" by (cases "NewLineLoop cs")
    with "2.IH"(2) skip obtain us where "cs = us @ rest'" "t' = concat us" by blast
    with "2.prems" skip l show ?thesis by (intro exI [of _ "c # us"]) auto
  qed
qed

lemma findEnd_reads:
  "findEndOfParamterString d r = (t, rest) \<Longrightarrow> \<exists>us. r = us @ rest \<and> t = concat us"
proof (induction d r arbitrary: t rest rule: findEndOfParamterString.induct)
  case (1 d)
  then show ?case by simp
next
  case (2 d c cs)
  consider (stop) "c = d" | (line) "c \<noteq> d" "c = [nl]" | (other) "c \<noteq> d" "c \<noteq> [nl]" by blast
  then show ?case
  proof cases
    case stop
    with "2.prems" show ?thesis by (intro exI [of _ "[c]"]) auto
  next
    case line
    obtain t' rest' eof' where l: "NewLineLoop cs = (t', rest', eof')" by (cases "NewLineLoop cs")
    then obtain us where us: "cs = us @ rest'" "t' = concat us" using NewLineLoop_reads by blast
    show ?thesis
    proof (cases eof')
      case True
      with "2.prems" line l us show ?thesis by (intro exI [of _ "c # us"]) auto
    next
      case False
      obtain t2 rest2 where l2: "findEndOfParamterString d rest' = (t2, rest2)"
        by (cases "findEndOfParamterString d rest'")
      with "2.IH"(1) line l False obtain vs where "rest' = vs @ rest2" "t2 = concat vs"
        by fastforce
      with "2.prems" line l l2 us False show ?thesis by (intro exI [of _ "c # us @ vs"]) auto
    qed
  next
    case other
    obtain t' rest' where l: "findEndOfParamterString d cs = (t', rest')"
      by (cases "findEndOfParamterString d cs")
    with "2.IH"(2) other obtain us where "cs = us @ rest'" "t' = concat us" by blast
    with "2.prems" other l show ?thesis by (intro exI [of _ "c # us"]) auto
  qed
qed

lemma parameterLoop_reads:
  "parameterLoop r = (t, rest) \<Longrightarrow> \<exists>us. r = us @ rest \<and> t = concat us"
proof (induction r arbitrary: t rest rule: parameterLoop.induct)
  case 1
  then show ?case by simp
next
  case (2 c cs)
  consider (stop) "c = '')''" | (quoted) "c \<noteq> '')''" "c = [CHR 0x27] \<or> c = [quote]"
    | (other) "c \<noteq> '')''" "\<not> (c = [CHR 0x27] \<or> c = [quote])" by blast
  then show ?case
  proof cases
    case stop
    with "2.prems" show ?thesis by (intro exI [of _ "[c]"]) auto
  next
    case quoted
    obtain t' rest' where l: "findEndOfParamterString c cs = (t', rest')"
      by (cases "findEndOfParamterString c cs")
    then obtain us where us: "cs = us @ rest'" "t' = concat us" using findEnd_reads by blast
    obtain t2 rest2 where l2: "parameterLoop rest' = (t2, rest2)" by (cases "parameterLoop rest'")
    with "2.IH"(1) quoted l obtain vs where "rest' = vs @ rest2" "t2 = concat vs" by fastforce
    with "2.prems" quoted l l2 us show ?thesis by (intro exI [of _ "c # us @ vs"]) auto
  next
    case other
    obtain t' rest' where l: "parameterLoop cs = (t', rest')" by (cases "parameterLoop cs")
    with "2.IH"(2) other obtain us where "cs = us @ rest'" "t' = concat us" by blast
    with "2.prems" other l show ?thesis by (intro exI [of _ "c # us"]) auto
  qed
qed

section \<open>Only whole parameter values are replaced\<close>

text \<open>
  \<open>redacted r out\<close>: \<open>out\<close> is the text of the runes \<open>r\<close>, with zero or more parameter values,
  as \<open>getParameterString\<close> delimits them, replaced by the redaction string.
\<close>

inductive redacted :: "reader \<Rightarrow> string \<Rightarrow> bool" where
  nothing: "redacted [] []"
| keep: "redacted r out \<Longrightarrow> redacted (c # r) (c @ out)"
| hide: "getParameterString r = (p, rest) \<Longrightarrow> redacted rest out \<Longrightarrow>
    redacted (''('' # r) (redactionString @ out)"

lemma redacted_keep_append: "redacted rest out \<Longrightarrow> redacted (us @ rest) (concat us @ out)"
  by (induction us) (auto intro: redacted.keep)

lemma redacted_refl: "redacted r (concat r)"
  using redacted_keep_append [OF redacted.nothing, of r] by simp

text \<open>
  What is still to be written in a state: the runes read since \<open>returnStr\<close> was last extended
  are in \<open>originalString\<close>, and an opening parenthesis is all that is there while a parameter
  value comes next.
\<close>

definition pending_ok :: "redact_state \<Rightarrow> bool" where
  "pending_ok st \<longleftrightarrow> (parameterNext st \<longrightarrow> originalString st = ''('')"

definition completes :: "redact_state \<Rightarrow> reader \<Rightarrow> string \<Rightarrow> bool" where
  "completes st r out \<longleftrightarrow>
    (if parameterNext st then \<exists>y. out = returnStr st @ y \<and> redacted (''('' # r) y
     else \<exists>y. out = returnStr st @ originalString st @ y \<and> redacted r y)"

lemma parameterBlock_completes:
  assumes "parameterBlock st r = (st1, r1)" and "pending_ok st" and "completes st1 r1 out"
  shows "completes st r out"
proof (cases "parameterNext st")
  case False
  with assms show ?thesis by (simp add: parameterBlock_def)
next
  case True
  obtain t rest where l: "parameterLoop r = (t, rest)" by (cases "parameterLoop r")
  then have g: "getParameterString r = (''('' @ t, rest)" by (simp add: getParameterString_def)
  from l obtain us where us: "r = us @ rest" "t = concat us" using parameterLoop_reads by blast
  from assms(1) True g have st1: "r1 = rest"
    "st1 = resetAllParameters (st\<lparr>returnStr :=
       returnStr st @ (if \<not> redacting st then ''('' @ t else redactionString)\<rparr>)"
    by (auto simp: parameterBlock_def)
  with assms(3) obtain y where y: "redacted rest y"
    "out = returnStr st @ (if \<not> redacting st then ''('' @ t else redactionString) @ y"
    by (auto simp: completes_def resetAllParameters_def)
  have "redacted (''('' # us @ rest) (''('' @ concat us @ y)"
    using redacted_keep_append [OF y(1)] by (rule redacted.keep)
  moreover have "redacted (''('' # r) (redactionString @ y)"
    using g y(1) by (rule redacted.hide)
  ultimately show ?thesis using True y(2) us by (auto simp: completes_def)
qed

text \<open>The five ways through the body of \<open>MainLoop\<close>, with the result of each.\<close>

definition plain_rune :: "redact_state \<Rightarrow> rune \<Rightarrow> bool" where
  "plain_rune st c \<longleftrightarrow> \<not> (newline st \<and> \<not> startOutput c) \<and> \<not> (c = ''+'' \<or> c = ''-'') \<and>
     c \<notin> {[nl], [tab], [cr], '' ''} \<and> \<not> (c = ''*'' \<and> checkComment st)"

lemma processRune_ways:
  obtains (skip) "newline st" "\<not> startOutput c"
  | (contin) "\<not> (newline st \<and> \<not> startOutput c)" "c = ''+'' \<or> c = ''-''"
  | (space) "\<not> (newline st \<and> \<not> startOutput c)" "c \<in> {[nl], [tab], [cr], '' ''}"
  | (star) "\<not> (newline st \<and> \<not> startOutput c)" "c = ''*''" "checkComment st"
  | (plain) "plain_rune st c"
  unfolding plain_rune_def by blast

lemma processRune_skip:
  "newline st \<Longrightarrow> \<not> startOutput c \<Longrightarrow>
    processRune st c cs = Inr (st\<lparr>originalString := originalString st @ c\<rparr>, cs)"
  by (simp add: processRune_def)

lemma processRune_contin:
  "\<not> (newline st \<and> \<not> startOutput c) \<Longrightarrow> c = ''+'' \<or> c = ''-'' \<Longrightarrow>
    processRune st c cs = Inr (st\<lparr>newline := False, lineContinuation := True, foundGap := False,
      originalString := originalString st @ c\<rparr>, cs)"
  unfolding processRune_def by (simp only: if_False if_True Let_def) simp

lemma processRune_space:
  "\<not> (newline st \<and> \<not> startOutput c) \<Longrightarrow> c \<in> {[nl], [tab], [cr], '' ''} \<Longrightarrow>
    processRune st c cs = Inr (st\<lparr>newline := (c = [nl]), checkComment := checkComment st \<or> c = [nl],
      foundGap := foundGap st \<or> \<not> lineContinuation st,
      originalString := originalString st @ c\<rparr>, cs)"
  unfolding processRune_def by (simp only: if_False if_True Let_def) auto

lemma processRune_star:
  "\<not> (newline st \<and> \<not> startOutput c) \<Longrightarrow> c = ''*'' \<Longrightarrow> checkComment st \<Longrightarrow>
    processRune st c cs =
      (case CommentLoop cs of (t, rest, eof) \<Rightarrow>
         if eof then Inl (returnStr st @ originalString st @ c @ t)
         else Inr (st\<lparr>newline := True, originalString := originalString st @ c @ t,
                      checkComment := True\<rparr>, rest))"
  unfolding processRune_def by (simp only: if_False if_True Let_def) (simp split: prod.split)

lemma processRune_plain:
  "plain_rune st c \<Longrightarrow> \<not> parameterNext st \<Longrightarrow>
    processRune st c cs =
      Inr (afterSwitch (st\<lparr>newline := False, parameterNext := (c = ''('')\<rparr>) c, cs)"
  unfolding processRune_def plain_rune_def by (simp only: if_False if_True Let_def) (simp, blast)

lemma processRune_plain_any:
  "plain_rune st c \<Longrightarrow>
    processRune st c cs =
      Inr (afterSwitch (st\<lparr>newline := False, parameterNext := parameterNext st \<or> (c = ''('')\<rparr>) c, cs)"
  unfolding processRune_def plain_rune_def by (simp only: if_False if_True Let_def) (simp, blast)

lemmas processRune_eqs = processRune_skip processRune_contin processRune_space processRune_star

lemma processRune_pending:
  assumes "processRune st c cs = Inr (st', r')" and "\<not> parameterNext st"
  shows "pending_ok st'"
proof (cases rule: processRune_ways [of st c])
  case plain
  with assms show ?thesis
    by (auto simp: processRune_plain pending_ok_def afterSwitch_def Let_def split: if_splits)
qed (use assms in \<open>auto simp: processRune_eqs pending_ok_def split: prod.splits if_splits\<close>)

lemma processRune_completes:
  assumes "processRune st c cs = Inr (st', r')" and "\<not> parameterNext st" and "completes st' r' out"
  shows "completes st (c # cs) out"
proof -
  have keep: "completes st (c # cs) (returnStr st @ originalString st @ c @ y)"
    if "redacted cs y" for y
    using that assms(2) by (auto simp: completes_def intro: redacted.keep)
  have comment: "completes st (c # cs) (returnStr st @ originalString st @ c @ t @ y)"
    if "CommentLoop cs = (t, rest, eof)" "redacted rest y" for t rest eof y
    using CommentLoop_reads [OF that(1)] redacted_keep_append [OF that(2)] keep by auto
  have param: "completes st (''('' # cs) (returnStr st @ originalString st @ y)"
    if "redacted (''('' # cs) y" for y
    using that assms(2) by (auto simp: completes_def)
  show ?thesis
  proof (cases rule: processRune_ways [of st c])
    case skip
    with assms keep show ?thesis by (auto simp: processRune_skip completes_def [of st'])
  next
    case contin
    with assms keep show ?thesis by (auto simp: processRune_contin completes_def [of st'])
  next
    case space
    with assms keep show ?thesis by (auto simp: processRune_space completes_def [of st'])
  next
    case star
    then show ?thesis
      using assms comment
      by (auto simp: processRune_star completes_def [of st'] split: prod.splits if_splits)
  next
    case plain
    with assms(1,2) have "st' = afterSwitch (st\<lparr>newline := False, parameterNext := (c = ''('')\<rparr>) c"
      "r' = cs" by (auto simp: processRune_plain)
    then have pn: "parameterNext st' \<longleftrightarrow> c = ''(''"
      and texteq: "returnStr st' @ originalString st' = returnStr st @ originalString st @ c"
      and flushed: "c = ''('' \<Longrightarrow> returnStr st' = returnStr st @ originalString st"
      by (auto simp: afterSwitch_def Let_def)
    show ?thesis
    proof (cases "c = ''(''")
      case True
      with pn flushed assms(3) \<open>r' = cs\<close> obtain y where
        "out = returnStr st @ originalString st @ y" "redacted (''('' # cs) y"
        by (auto simp: completes_def [of st'])
      with True param show ?thesis by simp
    next
      case False
      with pn assms(3) \<open>r' = cs\<close> obtain y where
        "out = (returnStr st' @ originalString st') @ y" "redacted cs y"
        by (auto simp: completes_def [of st'])
      with texteq keep show ?thesis by simp
    qed
  qed
qed

lemma redactLoop_completes: "pending_ok st \<Longrightarrow> completes st r (redactLoop st r)"
proof (induction st r rule: redactLoop.induct)
  case (1 st r)
  obtain st1 r1 where b: "parameterBlock st r = (st1, r1)" by (cases "parameterBlock st r")
  have p: "\<not> parameterNext st1"
    using b by (auto simp: parameterBlock_def resetAllParameters_def split: if_splits prod.splits)
  have "completes st1 r1 (redactLoop st r)"
  proof (cases r1)
    case Nil
    with b p show ?thesis
      by (auto simp: redactLoop.simps [of st r] mainRound_def completes_def intro: redacted.nothing)
  next
    case (Cons c cs)
    show ?thesis
    proof (cases "processRune st1 c cs")
      case (Inl out)
      then obtain t rest where "CommentLoop cs = (t, rest, True)"
        "out = returnStr st1 @ originalString st1 @ c @ t"
        by (auto simp: processRune_def Let_def split: if_splits prod.splits)
      moreover from this have "rest = []"
        by (induction cs arbitrary: t rest out) (auto split: if_splits prod.splits)
      ultimately have "out = returnStr st1 @ originalString st1 @ concat (c # cs)"
        using CommentLoop_reads by fastforce
      with Inl b p Cons redacted_refl [of "c # cs"] show ?thesis
        by (auto simp: redactLoop.simps [of st r] mainRound_def completes_def)
    next
      case (Inr a)
      then obtain st' r' where a: "processRune st1 c cs = Inr (st', r')" by (cases a) auto
      with b Cons have m: "mainRound st r = Inr (st', r')" by (simp add: mainRound_def)
      from a p have "pending_ok st'" by (rule processRune_pending)
      with "1.IH" m have "completes st' r' (redactLoop st' r')" by blast
      then have "completes st1 (c # cs) (redactLoop st' r')"
        by (rule processRune_completes [OF a p])
      with m Cons show ?thesis by (simp add: redactLoop.simps [of st r])
    qed
  qed
  with b "1.prems" show ?case by (rule parameterBlock_completes)
qed

section \<open>Reading a complete piece of the input\<close>

text \<open>What a reading function does before the end of its input does not depend on what follows.\<close>

lemma CommentLoop_append:
  "CommentLoop p = (t, rest, False) \<Longrightarrow> CommentLoop (p @ q) = (t, rest @ q, False)"
  by (induction p arbitrary: t) (auto split: if_splits prod.splits)

lemma NewLineLoop_append:
  "NewLineLoop p = (t, rest, False) \<Longrightarrow> NewLineLoop (p @ q) = (t, rest @ q, False)"
proof (induction p arbitrary: t rest rule: NewLineLoop.induct)
  case 1
  then show ?case by simp
next
  case (2 c cs)
  obtain t' rest' eof' where l: "CommentLoop cs = (t', rest', eof')" by (cases "CommentLoop cs")
  show ?case
  proof (cases "startOutput c \<and> c = ''*'' \<and> \<not> eof'")
    case True
    with l have "CommentLoop (cs @ q) = (t', rest' @ q, False)" by (simp add: CommentLoop_append)
    with True l 2 show ?thesis by (auto split: prod.splits)
  next
    case False
    with l 2 show ?thesis by (auto split: if_splits prod.splits)
  qed
qed

lemma findEnd_append:
  "findEndOfParamterString d p = (t, rest) \<Longrightarrow> rest \<noteq> [] \<Longrightarrow>
    findEndOfParamterString d (p @ q) = (t, rest @ q)"
proof (induction d p arbitrary: t rest rule: findEndOfParamterString.induct)
  case (1 d)
  then show ?case by simp
next
  case (2 d c cs)
  have eof: "rest' = []" if "NewLineLoop r = (t', rest', True)" for r t' rest'
    using that
  proof (induction r arbitrary: t' rest' rule: NewLineLoop.induct)
    case (2 c cs)
    have "rest'' = []" if "CommentLoop r = (t'', rest'', True)" for r t'' rest''
      using that by (induction r arbitrary: t'') (auto split: if_splits prod.splits)
    with 2 show ?case by (auto split: if_splits prod.splits)
  qed simp
  from 2 show ?case
    by (auto split: if_splits prod.splits dest: NewLineLoop_append [of _ _ _ q] eof)
qed

lemma parameterLoop_append:
  "parameterLoop p = (t, rest) \<Longrightarrow> rest \<noteq> [] \<Longrightarrow> parameterLoop (p @ q) = (t, rest @ q)"
proof (induction p arbitrary: t rest rule: parameterLoop.induct)
  case 1
  then show ?case by simp
next
  case (2 c cs)
  consider (stop) "c = '')''" | (quoted) "c \<noteq> '')''" "c = [CHR 0x27] \<or> c = [quote]"
    | (other) "c \<noteq> '')''" "\<not> (c = [CHR 0x27] \<or> c = [quote])" by blast
  then show ?case
  proof cases
    case quoted
    obtain t' rest' where l: "findEndOfParamterString c cs = (t', rest')"
      by (cases "findEndOfParamterString c cs")
    obtain t2 rest2 where l2: "parameterLoop rest' = (t2, rest2)" by (cases "parameterLoop rest'")
    from "2.prems" quoted l l2 have "rest2 = rest" by auto
    with l2 "2.prems"(2) have "rest' \<noteq> []" by auto
    with l have "findEndOfParamterString c (cs @ q) = (t', rest' @ q)" by (rule findEnd_append)
    with 2 quoted l l2 show ?thesis by auto
  qed (use 2 in \<open>auto split: prod.splits\<close>)
qed

lemma processRune_append:
  assumes "processRune st c cs = Inr (st', r')"
  shows "processRune st c (cs @ q) = Inr (st', r' @ q)"
proof (cases rule: processRune_ways [of st c])
  case star
  obtain t rest eof where l: "CommentLoop cs = (t, rest, eof)" by (cases "CommentLoop cs")
  with star assms have "\<not> eof" by (auto simp: processRune_star)
  with l have "CommentLoop (cs @ q) = (t, rest @ q, False)" by (simp add: CommentLoop_append)
  with star assms l show ?thesis by (auto simp: processRune_star split: if_splits)
qed (use assms in \<open>auto simp: processRune_eqs processRune_plain_any\<close>)

lemma mainRound_append:
  assumes "mainRound st p = Inr (st', p')"
  shows "mainRound st (p @ q) = Inr (st', p' @ q)"
proof -
  obtain st1 r1 where b: "parameterBlock st p = (st1, r1)" by (cases "parameterBlock st p")
  with assms obtain c cs where r1: "r1 = c # cs" and pr: "processRune st1 c cs = Inr (st', p')"
    by (cases r1) (auto simp: mainRound_def)
  from b r1 have "parameterBlock st (p @ q) = (st1, r1 @ q)"
    by (auto simp: parameterBlock_def getParameterString_def split: if_splits prod.splits
             dest: parameterLoop_append [of _ _ _ q])
  moreover from pr have "processRune st1 c (cs @ q) = Inr (st', p' @ q)" by (rule processRune_append)
  ultimately show ?thesis using r1 by (simp add: mainRound_def)
qed

text \<open>
  The state of the scanner after it has read exactly the runes \<open>p\<close>; \<open>None\<close> if it would
  read on, because \<open>p\<close> ends inside a comment or a parameter value.
\<close>

function stateAfter :: "redact_state \<Rightarrow> reader \<Rightarrow> redact_state option" where
  "stateAfter st p =
    (if p = [] then Some st
     else (case mainRound st p of Inl out \<Rightarrow> None | Inr (st', p') \<Rightarrow> stateAfter st' p'))"
  by pat_completeness auto
termination
  by (relation "measure (\<lambda>(st, r). length r)") (auto dest: mainRound_length)

declare stateAfter.simps [simp del]

lemma stateAfter_redactLoop:
  "stateAfter st p = Some st' \<Longrightarrow> redactLoop st (p @ q) = redactLoop st' q"
proof (induction st p rule: stateAfter.induct)
  case (1 st p)
  show ?case
  proof (cases "p = []")
    case True
    with "1.prems" show ?thesis by (simp add: stateAfter.simps)
  next
    case False
    with "1.prems" obtain st1 p1 where m: "mainRound st p = Inr (st1, p1)"
      and "stateAfter st1 p1 = Some st'"
      by (auto simp: stateAfter.simps [of st p] split: sum.splits)
    with "1.IH" False have "redactLoop st1 (p1 @ q) = redactLoop st' q" by blast
    with mainRound_append [OF m, of q] show ?thesis by (simp add: redactLoop.simps [of st])
  qed
qed

lemma stateAfter_append:
  "stateAfter st p = Some st1 \<Longrightarrow> stateAfter st (p @ q) = stateAfter st1 q"
proof (induction st p rule: stateAfter.induct)
  case (1 st p)
  show ?case
  proof (cases "p = []")
    case True
    with "1.prems" show ?thesis by (simp add: stateAfter.simps)
  next
    case False
    with "1.prems" obtain st2 p2 where m: "mainRound st p = Inr (st2, p2)"
      and "stateAfter st2 p2 = Some st1"
      by (auto simp: stateAfter.simps [of st p] split: sum.splits)
    with "1.IH" False have "stateAfter st2 (p2 @ q) = stateAfter st1 q" by blast
    with mainRound_append [OF m, of q] False show ?thesis by (simp add: stateAfter.simps [of st])
  qed
qed

section \<open>The value of a sensitive parameter does not reach the output\<close>

definition is_letter :: "char \<Rightarrow> bool" where
  "is_letter c \<longleftrightarrow> upper_byte c \<in> set ''ABCDEFGHIJKLMNOPQRSTUVWXYZ''"

lemma upper_letter:
  assumes "is_letter c"
  shows "plain_rune st [c] \<and> [c] \<noteq> ''(''"
proof -
  have "c \<notin> set ([nl, tab, cr, CHR 0x0C, CHR 0x28] @ ''+-* :0123456789'')"
  proof
    assume "c \<in> set ([nl, tab, cr, CHR 0x0C, CHR 0x28] @ ''+-* :0123456789'')"
    then have "upper_byte c = c" by (auto simp: upper_byte_def)
    with \<open>c \<in> _\<close> assms show False by (auto simp: is_letter_def)
  qed
  then show ?thesis by (auto simp: plain_rune_def startOutput_def)
qed

lemma letter_ascii: "is_letter c \<Longrightarrow> c < CHR 0x80"
proof (rule ccontr)
  assume c: "is_letter c" "\<not> c < CHR 0x80"
  then have "upper_byte c = c" by (auto simp: upper_byte_def less_char_def less_eq_char_def)
  with c(1) have "c \<in> set ''ABCDEFGHIJKLMNOPQRSTUVWXYZ''" by (simp only: is_letter_def)
  then have "c < CHR 0x80" by auto
  with c(2) show False by simp
qed

lemma ToUpper_append_letters:
  assumes "k = [] \<or> hd k < CHR 0x80"
  shows "ToUpper (s @ k) = ToUpper s @ ToUpper k"
proof -
  have hd: "k \<noteq> [] \<Longrightarrow> hd k \<noteq> CHR 0xB1 \<and> hd k \<noteq> CHR 0xBF" using assms by auto
  show ?thesis
  proof (induction s rule: ToUpper.induct)
    case 1
    then show ?case by simp
  next
    case (2 a s)
    then show ?case using hd by (cases s) auto
  qed
qed

lemma ToUpper_ascii: "list_all (\<lambda>c. c < CHR 0x80) k \<Longrightarrow> ToUpper k = map upper_byte k"
  by (induction k rule: ToUpper.induct) auto

lemma stateAfter_single:
  "\<not> parameterNext st \<Longrightarrow> processRune st c [] = Inr (st', []) \<Longrightarrow> stateAfter st [c] = Some st'"
  by (simp add: stateAfter.simps mainRound_def parameterBlock_def)

lemma stateAfter_word:
  assumes "\<not> parameterNext st" and "\<forall>c \<in> set k. is_letter c"
  shows "\<exists>st'. stateAfter st (map (\<lambda>c. [c]) k) = Some st' \<and> \<not> parameterNext st' \<and>
           suffix k (currentVerb st') \<and> (k \<noteq> [] \<longrightarrow> \<not> foundGap st')"
  using assms(2)
proof (induction k rule: rev_induct)
  case Nil
  with assms(1) show ?case by (simp add: stateAfter.simps)
next
  case (snoc c k)
  then obtain st1 where st1: "stateAfter st (map (\<lambda>c. [c]) k) = Some st1" "\<not> parameterNext st1"
    "suffix k (currentVerb st1)" "k \<noteq> [] \<longrightarrow> \<not> foundGap st1" by auto
  let ?st2 = "afterSwitch (st1\<lparr>newline := False, parameterNext := ([c] = ''('')\<rparr>) [c]"
  from snoc.prems have c: "plain_rune st1 [c]" "[c] \<noteq> ''(''" by (auto dest: upper_letter)
  from st1(2) c(1) have "stateAfter st1 [[c]] = Some ?st2"
    by (intro stateAfter_single) (auto simp: processRune_plain)
  with st1(1) have "stateAfter st (map (\<lambda>c. [c]) (k @ [c])) = Some ?st2"
    by (simp add: stateAfter_append)
  moreover have "suffix (k @ [c]) (currentVerb ?st2)"
    using st1(3,4) c(2) by (cases "k = []") (auto simp: afterSwitch_def Let_def)
  ultimately show ?case using c(2) by (auto simp: afterSwitch_def Let_def)
qed

lemma stateAfter_gap:
  assumes "\<not> parameterNext st" and "set w \<subseteq> {'' '', [tab]}"
  shows "\<exists>st'. stateAfter st w = Some st' \<and> \<not> parameterNext st' \<and> currentVerb st' = currentVerb st"
  using assms(2)
proof (induction w rule: rev_induct)
  case Nil
  with assms(1) show ?case by (simp add: stateAfter.simps)
next
  case (snoc c w)
  then obtain st1 where st1: "stateAfter st w = Some st1" "\<not> parameterNext st1"
    "currentVerb st1 = currentVerb st" by auto
  from snoc.prems have "c = [tab] \<or> c = '' ''" by auto
  then have "\<exists>st2. processRune st1 c [] = Inr (st2, []) \<and>
      parameterNext st2 = parameterNext st1 \<and> currentVerb st2 = currentVerb st1"
    by (cases "newline st1") (auto simp: processRune_def Let_def startOutput_def)
  then obtain st2 where pr: "processRune st1 c [] = Inr (st2, [])"
    and st2: "parameterNext st2 = parameterNext st1" "currentVerb st2 = currentVerb st1"
    by blast
  have "stateAfter st (w @ [c]) = Some st2"
    using stateAfter_append [OF st1(1), of "[c]"] stateAfter_single [OF st1(2) pr] by simp
  with st1 st2 show ?case by auto
qed

text \<open>After a sensitive keyword, optional blanks and \<open>(\<close>, the scanner is redacting.\<close>

lemma stateAfter_sensitive:
  assumes "\<not> parameterNext st" and k: "map upper_byte k \<in> set sensitiveParameters"
    and w: "set w \<subseteq> {'' '', [tab]}"
  shows "\<exists>st'. stateAfter st (map (\<lambda>c. [c]) k @ w @ [''('']) = Some st' \<and>
           parameterNext st' \<and> redacting st'"
proof -
  have letters: "\<forall>c \<in> set k. is_letter c"
  proof
    fix c assume "c \<in> set k"
    then have "upper_byte c \<in> set (map upper_byte k)" by simp
    moreover have "set (map upper_byte k) \<subseteq> set ''ABCDEFGHIJKLMNOPQRSTUVWXYZ''"
      using k by (auto simp: sensitiveParameters_def simp del: set_map)
    ultimately show "is_letter c" unfolding is_letter_def by blast
  qed
  then have ascii: "c < CHR 0x80" if "c \<in> set k" for c using that letter_ascii by blast
  obtain st1 where st1: "stateAfter st (map (\<lambda>c. [c]) k) = Some st1" "\<not> parameterNext st1"
    "suffix k (currentVerb st1)"
    using stateAfter_word [OF assms(1) letters] by blast
  obtain st2 where st2: "stateAfter st1 w = Some st2" "\<not> parameterNext st2"
    "currentVerb st2 = currentVerb st1"
    using stateAfter_gap [OF st1(2) w] by blast
  let ?st3 = "afterSwitch (st2\<lparr>newline := False, parameterNext := True\<rparr>) ''(''"
  have "plain_rune st2 ''(''" by (simp add: plain_rune_def startOutput_def)
  with st2(2) have st3: "stateAfter st2 [''(''] = Some ?st3"
    by (intro stateAfter_single) (auto simp: processRune_plain)
  obtain x where x: "currentVerb st2 = x @ k" using st1(3) st2(3) by (auto simp: suffix_def)
  have "k = [] \<or> hd k < CHR 0x80" using ascii by (cases k) auto
  then have "ToUpper (currentVerb st2) = ToUpper x @ map upper_byte k"
    using x ascii by (simp add: ToUpper_append_letters ToUpper_ascii list_all_iff)
  with k have "isSensitiveCommand (ToUpper (currentVerb st2))"
    by (auto simp: isSensitiveCommand_def list_ex_iff Contains_def intro!: bexI [of _ "map upper_byte k"]
             intro: suffix_imp_sublist suffixI)
  then have "parameterNext ?st3 \<and> redacting ?st3" by (simp add: afterSwitch_def Let_def)
  moreover have "stateAfter st (map (\<lambda>c. [c]) k @ w @ [''('']) = Some ?st3"
    using stateAfter_append [OF st1(1)] stateAfter_append [OF st2(1)] st3 by simp
  ultimately show ?thesis by blast
qed

lemma redactLoop_hides:
  assumes "parameterNext st" and "redacting st" and "snd (getParameterString r) = rest"
  shows "redactLoop st r =
    redactLoop (resetAllParameters (st\<lparr>returnStr := returnStr st @ redactionString\<rparr>)) rest"
proof -
  let ?st' = "resetAllParameters (st\<lparr>returnStr := returnStr st @ redactionString\<rparr>)"
  have "parameterBlock st r = (?st', rest)"
    using assms by (auto simp: parameterBlock_def split: prod.splits)
  moreover have "parameterBlock ?st' rest = (?st', rest)"
    by (simp add: parameterBlock_def resetAllParameters_def)
  ultimately have "mainRound st r = mainRound ?st' rest" by (simp add: mainRound_def)
  then show ?thesis by (simp add: redactLoop.simps [of st r] redactLoop.simps [of ?st' rest])
qed

section \<open>Properties\<close>

text \<open>
  C1: the value given to a sensitive MQSC parameter has no influence on the text \<open>Redact\<close>
  returns. Take two inputs that read alike except for the value in the parentheses after a
  sensitive keyword (in any mix of upper and lower case, with blanks before the parenthesis or
  not): the text before the keyword is any text the scanner reads completely (it does not end
  inside a comment or another value), and each value ends where \<open>getParameterString\<close> says it
  ends. Then the two results are equal.
\<close>

theorem Redact_hides_value:
  assumes "runes (TrimSpace s) = p @ map (\<lambda>c. [c]) k @ w @ ''('' # v @ rest"
    and "runes (TrimSpace s') = p @ map (\<lambda>c. [c]) k @ w @ ''('' # v' @ rest"
    and "stateAfter redact_init p = Some st" and "\<not> parameterNext st"
    and "map upper_byte k \<in> set sensitiveParameters" and "set w \<subseteq> {'' '', [tab]}"
    and "snd (getParameterString (v @ rest)) = rest"
    and "snd (getParameterString (v' @ rest)) = rest"
  shows "Redact s = Redact s'"
proof -
  obtain st' where st': "stateAfter st (map (\<lambda>c. [c]) k @ w @ [''('']) = Some st'"
    "parameterNext st'" "redacting st'"
    using stateAfter_sensitive [OF assms(4-6)] by blast
  have "redactLoop redact_init (p @ map (\<lambda>c. [c]) k @ w @ ''('' # u @ rest) =
      redactLoop st' (u @ rest)" for u
    using stateAfter_redactLoop [OF assms(3)] stateAfter_redactLoop [OF st'(1), of "u @ rest"] by simp
  then show ?thesis
    using assms(1,2) redactLoop_hides [OF st'(2,3) assms(7)] redactLoop_hides [OF st'(2,3) assms(8)]
    by (simp add: Redact_def)
qed

text \<open>The property at two commands that differ in a quoted password.\<close>

theorem Redact_hides_value_witness:
  "Redact ''ALTER X(Y) passWord(secret1) Z(1)'' = Redact ''ALTER X(Y) passWord(s2) Z(1)''"
proof (rule Redact_hides_value [where p = "map (\<lambda>c. [c]) ''ALTER X(Y) ''" and k = "''passWord''"
      and w = "[]" and v = "map (\<lambda>c. [c]) ''secret1)''" and v' = "map (\<lambda>c. [c]) ''s2)''"
      and rest = "map (\<lambda>c. [c]) '' Z(1)''"
      and st = "the (stateAfter redact_init (map (\<lambda>c. [c]) ''ALTER X(Y) ''))"])
qed (code_simp+)

text \<open>
  C13: \<open>Redact\<close> changes nothing but whole parameter values: its result is the trimmed input,
  rune by rune, with some of the values that \<open>getParameterString\<close> delimits after an opening
  parenthesis replaced by the redaction string.
\<close>

theorem Redact_only_replaces_values: "redacted (runes (TrimSpace s)) (Redact s)"
  using redactLoop_completes [of redact_init "runes (TrimSpace s)"]
  by (simp add: Redact_def pending_ok_def redact_init_def resetAllParameters_def completes_def)

end
