(* ===== verification/Go_Paths.thy ===== *)
theory Go_Paths
  imports Go_Strings
begin

text \<open>
  The functions of Go's \<open>path\<close> and \<open>path/filepath\<close> packages the programs use (on a
  platform whose separator is a slash the two agree), and the package \<open>internal/pathutils\<close>,
  whose \<open>CleanPath\<close> is how every file name that contains configured text is put together.

  \<open>Clean\<close> is given by the lexical rules of its documentation: empty and \<open>.\<close> elements
  are dropped, \<open>..\<close> removes the element before it, and a \<open>..\<close> at the root of an absolute
  path is dropped.  The main theorem is that \<open>CleanPath\<close> never leaves its first argument.
\<close>

section \<open>Lexical path processing\<close>

abbreviation slash :: char where "slash \<equiv> CHR ''/''"

definition IsAbs :: "string \<Rightarrow> bool" where
  [go_defs]: "IsAbs p \<longleftrightarrow> HasPrefix p ''/''"

text \<open>The elements kept so far, the last one first, and the elements still to be read.\<close>

fun clean_comps :: "bool \<Rightarrow> string list \<Rightarrow> string list \<Rightarrow> string list" where
  "clean_comps rooted acc [] = rev acc"
| "clean_comps rooted acc (c # cs) =
    (if c = [] \<or> c = ''.'' then clean_comps rooted acc cs
     else if c = ''..'' then
       (case acc of
          [] \<Rightarrow> clean_comps rooted (if rooted then [] else [''..'']) cs
        | a # as \<Rightarrow> if a = ''..'' then clean_comps rooted (''..'' # acc) cs
                    else clean_comps rooted as cs)
     else clean_comps rooted (c # acc) cs)"

definition comps :: "string \<Rightarrow> string list" where
  "comps p = clean_comps (IsAbs p) [] (Split p slash)"

definition Clean :: "string \<Rightarrow> string" where
  "Clean p =
    (if IsAbs p then ''/'' @ Join (comps p) ''/''
     else if comps p = [] then ''.'' else Join (comps p) ''/'')"

text \<open>\<open>path.Join\<close> and \<open>filepath.Join\<close>: empty elements are ignored.\<close>

definition path_Join :: "string list \<Rightarrow> string" where
  "path_Join ps =
    (let qs = filter (\<lambda>p. p \<noteq> []) ps in if qs = [] then [] else Clean (Join qs ''/''))"

text \<open>\<open>path.Dir\<close> cleans the text up to the last slash; \<open>filepath.Split\<close> cuts there.\<close>

definition last_elem :: "string \<Rightarrow> string" where
  "last_elem p = rev (takeWhile (\<lambda>c. c \<noteq> slash) (rev p))"

definition Dir :: "string \<Rightarrow> string" where
  "Dir p = Clean (take (length p - length (last_elem p)) p)"

definition Ext :: "string \<Rightarrow> string" where
  "Ext p = (let e = last_elem p; t = takeWhile (\<lambda>c. c \<noteq> CHR ''.'') (rev e)
            in if CHR ''.'' \<in> set e then CHR ''.'' # rev t else [])"

section \<open>Laws of lexical cleaning\<close>

text \<open>An element that cleaning leaves alone: not empty, no \<open>.\<close> or \<open>..\<close>, no separator.\<close>

definition plain_elem :: "string \<Rightarrow> bool" where
  "plain_elem c \<longleftrightarrow> c \<noteq> [] \<and> c \<noteq> ''.'' \<and> c \<noteq> ''..'' \<and> slash \<notin> set c"

lemma clean_comps_rooted_plain:
  assumes "list_all plain_elem acc" "\<forall>c \<in> set cs. slash \<notin> set c"
  shows "list_all plain_elem (clean_comps True acc cs)"
  using assms
proof (induction cs arbitrary: acc)
  case Nil
  then show ?case by (simp add: list_all_iff)
next
  case (Cons c cs)
  consider "c = [] \<or> c = ''.''" | "c = ''..''" | "plain_elem c"
    using Cons.prems(2) unfolding plain_elem_def by (simp only: list.set) blast
  then show ?case
  proof cases
    case 1
    with Cons show ?thesis by auto
  next
    case 2
    with Cons show ?thesis by (cases acc) (simp_all add: plain_elem_def)
  next
    case 3
    with Cons.prems Cons.IH [of "c # acc"] show ?thesis by (simp add: plain_elem_def)
  qed
qed

lemma clean_comps_plain:
  "list_all plain_elem cs \<Longrightarrow> clean_comps rooted acc cs = rev acc @ cs"
  by (induction cs arbitrary: acc) (auto simp: plain_elem_def)

lemma clean_comps_append:
  "list_all plain_elem cs \<Longrightarrow> clean_comps rooted acc (cs @ ds) = clean_comps rooted (rev cs @ acc) ds"
  by (induction cs arbitrary: acc) (auto simp: plain_elem_def)

lemma clean_comps_Nil_elem [simp]: "clean_comps rooted acc ([] # cs) = clean_comps rooted acc cs"
  by simp

lemma comps_abs_plain: "IsAbs p \<Longrightarrow> list_all plain_elem (comps p)"
  unfolding comps_def by (simp, rule clean_comps_rooted_plain) (auto dest: Split_parts_no_sep)

lemma Split_slash [simp]: "Split (slash # p) slash = [] # Split p slash"
  by simp

lemma comps_slash: "comps (slash # p) = clean_comps True [] (Split p slash)"
  by (simp add: comps_def go_defs)

lemma Split_Join_plain:
  "list_all plain_elem cs \<Longrightarrow> cs \<noteq> [] \<Longrightarrow> Split (Join cs ''/'') slash = cs"
  by (rule Split_Join) (auto simp: list_all_iff plain_elem_def)

text \<open>An absolute path written from plain elements.\<close>

definition abs_path :: "string list \<Rightarrow> string" where
  "abs_path cs = ''/'' @ Join cs ''/''"

lemma IsAbs_abs_path [simp]: "IsAbs (abs_path cs)"
  by (simp add: abs_path_def go_defs)

lemma Clean_abs: "IsAbs p \<Longrightarrow> Clean p = abs_path (comps p)"
  by (simp add: Clean_def abs_path_def)

lemma comps_abs_path [simp]: "list_all plain_elem cs \<Longrightarrow> comps (abs_path cs) = cs"
  by (cases "cs = []") (auto simp: abs_path_def comps_slash Split_Join_plain clean_comps_plain)

lemma Clean_abs_path [simp]: "list_all plain_elem cs \<Longrightarrow> Clean (abs_path cs) = abs_path cs"
  by (simp add: Clean_abs)

lemma Clean_idem_abs: "IsAbs p \<Longrightarrow> Clean (Clean p) = Clean p"
  by (simp add: Clean_abs comps_abs_plain)

lemma Split_abs_path_append:
  "list_all plain_elem cs \<Longrightarrow>
    clean_comps rooted [] (Split (abs_path cs @ slash # q) slash) = clean_comps rooted (rev cs) (Split q slash)"
proof (induction cs)
  case Nil
  then show ?case by (simp add: abs_path_def)
next
  case (Cons c cs)
  have gen: "Split (Join (c # cs) ''/'' @ slash # q) slash = (c # cs) @ Split q slash"
    if "list_all plain_elem (c # cs)" for c cs
    using that
  proof (induction cs arbitrary: c)
    case Nil
    then show ?case by (simp add: plain_elem_def Split_append)
  next
    case (Cons d ds)
    then show ?case by (simp add: plain_elem_def Split_append)
  qed
  from Cons.prems show ?case
    by (simp add: abs_path_def gen clean_comps_append [of "c # cs", simplified])
qed

lemma path_Join_abs_path [simp]:
  assumes "list_all plain_elem cs" "list_all plain_elem ds"
  shows "path_Join [abs_path cs, abs_path ds] = abs_path (cs @ ds)"
proof -
  have abs: "IsAbs (abs_path cs @ slash # abs_path ds)" by (simp add: abs_path_def go_defs)
  then have "comps (abs_path cs @ slash # abs_path ds) = clean_comps True (rev cs) (Split (abs_path ds) slash)"
    using Split_abs_path_append [OF assms(1)] by (simp add: comps_def)
  also have "\<dots> = cs @ ds"
    using assms by (cases "ds = []") (simp_all add: abs_path_def Split_Join_plain clean_comps_plain)
  finally show ?thesis using abs by (simp add: path_Join_def Clean_abs) (simp add: abs_path_def)
qed

lemma path_Join_first: "list_all plain_elem cs \<Longrightarrow> path_Join [[], abs_path cs] = abs_path cs"
  by (cases "abs_path cs = []") (simp add: abs_path_def, simp add: path_Join_def)

section \<open>The package \<open>internal/pathutils\<close>\<close>

text \<open>\<open>filepath.FromSlash\<close> is the identity where the separator is a slash.\<close>

fun CleanPath_loop :: "string \<Rightarrow> string list \<Rightarrow> string" where
  "CleanPath_loop combined [] = combined"
| "CleanPath_loop combined (part # parts) =
    CleanPath_loop (path_Join [combined, Clean (''/'' @ part)]) parts"

definition CleanPath :: "string list \<Rightarrow> string" where
  "CleanPath paths =
    (case paths of
       [] \<Rightarrow> []
     | p # _ \<Rightarrow> CleanPath_loop (if \<not> IsAbs p then ''./'' else []) paths)"

text \<open>The elements an argument contributes: those of the argument read from the root.\<close>

definition part_elems :: "string \<Rightarrow> string list" where
  "part_elems part = comps (slash # part)"

lemma part_elems_plain: "list_all plain_elem (part_elems part)"
  unfolding part_elems_def by (rule comps_abs_plain) (simp add: go_defs)

lemma Clean_slash_part: "Clean (slash # part) = abs_path (part_elems part)"
  by (simp add: part_elems_def Clean_abs go_defs)

lemma CleanPath_loop_abs:
  "list_all plain_elem cs \<Longrightarrow>
    CleanPath_loop (abs_path cs) parts = abs_path (cs @ concat (map part_elems parts))"
  by (induction parts arbitrary: cs) (simp_all add: Clean_slash_part part_elems_plain)

lemma part_elems_rooted: "part_elems (slash # p) = part_elems p"
  by (simp add: part_elems_def comps_slash)

lemma CleanPath_abs: "IsAbs base \<Longrightarrow> CleanPath (base # parts) = abs_path (comps base @ concat (map part_elems parts))"
proof -
  assume abs: "IsAbs base"
  then obtain b where b: "base = slash # b" by (auto simp: go_defs prefix_def)
  have "CleanPath (base # parts) = CleanPath_loop (abs_path (part_elems base)) parts"
    using abs path_Join_first [OF part_elems_plain] by (simp add: CleanPath_def Clean_slash_part)
  also have "part_elems base = comps base"
    by (simp add: b part_elems_rooted) (simp add: part_elems_def)
  finally show ?thesis using comps_abs_plain [OF abs] by (simp add: CleanPath_loop_abs)
qed

lemma part_elems_single: "plain_elem e \<Longrightarrow> part_elems e = [e]"
  by (simp add: part_elems_def comps_slash Split_no_sep plain_elem_def)

lemma abs_path_inj:
  "list_all plain_elem cs \<Longrightarrow> list_all plain_elem ds \<Longrightarrow> abs_path cs = abs_path ds \<Longrightarrow> cs = ds"
  by (metis comps_abs_path)



section \<open>Parents and children\<close>

lemma Join_snoc: "Join (cs @ [c]) sep = (if cs = [] then c else Join cs sep @ sep @ c)"
  by (induction cs) (auto simp: Join_Cons)

lemma abs_path_snoc: "abs_path (cs @ [c]) = (if cs = [] then ''/'' @ c else abs_path cs @ ''/'' @ c)"
  by (simp add: abs_path_def Join_snoc)

lemma last_elem_append:
  assumes "slash \<notin> set c"
  shows "last_elem (p @ slash # c) = c"
proof -
  have "takeWhile (\<lambda>x. x \<noteq> slash) (rev c @ slash # rev p) = rev c"
    using assms by (subst takeWhile_append2) auto
  then show ?thesis by (simp add: last_elem_def)
qed

lemma last_elem_abs_path: "plain_elem c \<Longrightarrow> last_elem (abs_path (cs @ [c])) = c"
  using last_elem_append [of c "abs_path cs"] last_elem_append [of c "[]"]
  by (auto simp: abs_path_snoc plain_elem_def)

lemma Dir_append: "slash \<notin> set c \<Longrightarrow> Dir (p @ slash # c) = Clean (p @ [slash])"
  by (simp add: Dir_def last_elem_append)

lemma Clean_trailing_slash: "list_all plain_elem cs \<Longrightarrow> Clean (abs_path cs @ [slash]) = abs_path cs"
proof -
  assume cs: "list_all plain_elem cs"
  have abs: "IsAbs (abs_path cs @ [slash])" by (simp add: abs_path_def go_defs)
  then have "comps (abs_path cs @ [slash]) = cs"
    using Split_abs_path_append [OF cs, of True "[]"] by (simp add: comps_def)
  then show ?thesis using abs by (simp add: Clean_abs)
qed

lemma Dir_abs_path: "list_all plain_elem (cs @ [c]) \<Longrightarrow> Dir (abs_path (cs @ [c])) = abs_path cs"
proof -
  assume cs: "list_all plain_elem (cs @ [c])"
  then have c: "slash \<notin> set c" by (simp add: plain_elem_def)
  show ?thesis
  proof (cases "cs = []")
    case True
    with Dir_append [OF c, of "[]"] show ?thesis by (simp add: abs_path_def) (simp add: Clean_def comps_def go_defs)
  next
    case False
    with cs Dir_append [OF c, of "abs_path cs"] show ?thesis
      by (simp add: abs_path_snoc Clean_trailing_slash)
  qed
qed

lemma path_Join_child:
  "list_all plain_elem cs \<Longrightarrow> plain_elem c \<Longrightarrow> path_Join [abs_path cs, c] = abs_path (cs @ [c])"
proof -
  assume cs: "list_all plain_elem cs" and c: "plain_elem c"
  have abs: "IsAbs (abs_path cs @ slash # c)" by (simp add: abs_path_def go_defs)
  then have "comps (abs_path cs @ slash # c) = cs @ [c]"
    using Split_abs_path_append [OF cs, of True c] c
    by (simp add: comps_def Split_no_sep plain_elem_def)
  then show ?thesis
    using abs c by (simp add: path_Join_def Clean_abs plain_elem_def) (simp add: abs_path_def)
qed

text \<open>A path is below another one exactly if its elements continue the other's.\<close>

lemma Join_append:
  "xs \<noteq> [] \<Longrightarrow> Join (xs @ ys) sep = (if ys = [] then Join xs sep else Join xs sep @ sep @ Join ys sep)"
proof (induction xs)
  case Nil
  then show ?case by simp
next
  case (Cons x xs)
  then show ?case by (cases "xs = []"; cases "ys = []") (simp_all add: Join_Cons)
qed

lemma prefix_abs_path:
  assumes "list_all plain_elem xs" "list_all plain_elem ys" "xs \<noteq> []"
  shows "abs_path ys = abs_path xs \<or> prefix (abs_path xs @ ''/'') (abs_path ys) \<longleftrightarrow> prefix xs ys"
proof
  assume "abs_path ys = abs_path xs \<or> prefix (abs_path xs @ ''/'') (abs_path ys)"
  then show "prefix xs ys"
  proof
    assume "abs_path ys = abs_path xs"
    then show ?thesis using abs_path_inj assms(1,2) by blast
  next
    assume "prefix (abs_path xs @ ''/'') (abs_path ys)"
    then obtain z where z: "abs_path ys = abs_path xs @ slash # z" by (auto simp: prefix_def)
    have "xs @ Split z slash = clean_split"
      if "clean_split = tl (Split (abs_path ys) slash)" for clean_split
    proof -
      have "Split (abs_path xs @ slash # z) slash = [] # xs @ Split z slash"
      proof -
        have "Split (Join us ''/'' @ slash # z) slash = us @ Split z slash" if "list_all plain_elem us" "us \<noteq> []" for us
          using that
        proof (induction us)
          case Nil
          then show ?case by simp
        next
          case (Cons u us)
          then show ?case by (cases us) (simp_all add: plain_elem_def Split_append)
        qed
        then show ?thesis using assms(1,3) by (simp add: abs_path_def)
      qed
      with that z show ?thesis by simp
    qed
    moreover have "tl (Split (abs_path ys) slash) = (if ys = [] then [[]] else ys)"
      using Split_Join_plain [OF assms(2)] by (simp add: abs_path_def)
    ultimately have "xs @ Split z slash = (if ys = [] then [[]] else ys)" by simp
    moreover have "xs \<noteq> [] \<and> list_all plain_elem xs" using assms by simp
    ultimately show ?thesis by (auto simp: plain_elem_def Cons_eq_append_conv append_eq_Cons_conv split: if_splits)
  qed
next
  assume "prefix xs ys"
  then obtain zs where "ys = xs @ zs" by (auto simp: prefix_def)
  then show "abs_path ys = abs_path xs \<or> prefix (abs_path xs @ ''/'') (abs_path ys)"
    using assms(3) by (auto simp: abs_path_def Join_append)
qed

end
