(* ===== verification/Go_OS.thy ===== *)
theory Go_OS
  imports Go_Paths "HOL-Library.State_Monad" "HOL-Library.AList"
begin

text \<open>
  The operating system as the programs see it, through Go's \<open>os\<close> and \<open>os/exec\<close> packages,
  and the package \<open>internal/command\<close> on top of them.

  A program is a value of the state monad over \<open>world\<close>.  The world holds the environment
  variables, the files, the package-level variables of the programs, and a trace of what has been
  done that can be seen from outside (commands run, messages logged, files written and removed,
  goroutines started).  Nothing is assumed of the world: a system call may fail at any moment with
  any error (\<open>faults\<close>, which is asked with the number of the call), and the programs that are run
  (\<open>dspmq\<close>, \<open>crtmqm\<close>, \<open>runmqakm\<close>, ...) may answer anything and change the files
  in any way (\<open>programs\<close>).  Every theorem holds for all of these.

  A file name is a cleaned path.  A symbolic link is followed where it is the last element of a
  path; the directories of a path are taken literally.  File modes are not represented.
\<close>

section \<open>Errors\<close>

datatype errno =
    ENOENT | EEXIST | EISDIR | ENOTDIR | ENOTEMPTY | EINVAL | ECHILD | ELOOP
  | Errno string

fun errno_text :: "errno \<Rightarrow> string" where
  "errno_text ENOENT = ''no such file or directory''"
| "errno_text EEXIST = ''file exists''"
| "errno_text EISDIR = ''is a directory''"
| "errno_text ENOTDIR = ''not a directory''"
| "errno_text ENOTEMPTY = ''directory not empty''"
| "errno_text EINVAL = ''invalid argument''"
| "errno_text ECHILD = ''no child processes''"
| "errno_text ELOOP = ''too many levels of symbolic links''"
| "errno_text (Errno s) = s"

text \<open>An error is one of \<open>os\<close> (operation, path and cause) or a text made by the program.\<close>

datatype error = PathError string string errno | Errorf string

fun error_text :: "error \<Rightarrow> string" where
  "error_text (PathError oper p e) = oper @ '' '' @ p @ '': '' @ errno_text e"
| "error_text (Errorf s) = s"

fun IsNotExist :: "error \<Rightarrow> bool" where
  "IsNotExist (PathError _ _ e) \<longleftrightarrow> e = ENOENT"
| "IsNotExist (Errorf _) \<longleftrightarrow> False"

text \<open>The error of \<open>strconv.Atoi\<close> and \<open>strconv.ParseInt\<close> (the text is quoted as it is).\<close>

definition num_error :: "string \<Rightarrow> string \<Rightarrow> error" where
  "num_error func s = Errorf (''strconv.'' @ func @ '': parsing '' @ [quote] @ s @ [quote] @ '': '' @
    (let ds = (if prefix ''-'' s \<or> prefix ''+'' s then tl s else s)
     in if ds \<noteq> [] \<and> list_all is_digit ds then ''value out of range'' else ''invalid syntax''))"

section \<open>Files\<close>

datatype inode = DirNode | FileNode string | LinkNode string

type_synonym fs = "(string \<times> inode) list"

text \<open>At most forty links are followed, as on Linux.\<close>

fun resolve :: "nat \<Rightarrow> fs \<Rightarrow> string \<Rightarrow> errno + string" where
  "resolve 0 f p = Inl ELOOP"
| "resolve (Suc n) f p =
    (case map_of f p of
       Some (LinkNode t) \<Rightarrow> resolve n f (if IsAbs t then Clean t else path_Join [Dir p, t])
     | _ \<Rightarrow> Inr p)"

definition fs_path :: "fs \<Rightarrow> string \<Rightarrow> errno + string" where
  "fs_path f p = resolve 40 f (Clean p)"

definition fs_stat :: "fs \<Rightarrow> string \<Rightarrow> errno + inode" where
  "fs_stat f p =
    (case fs_path f p of
       Inl e \<Rightarrow> Inl e
     | Inr q \<Rightarrow> if q = ''/'' then Inr DirNode
                else (case map_of f q of None \<Rightarrow> Inl ENOENT | Some i \<Rightarrow> Inr i))"

definition fs_read :: "fs \<Rightarrow> string \<Rightarrow> errno + string" where
  "fs_read f p =
    (case fs_stat f p of
       Inl e \<Rightarrow> Inl e
     | Inr (FileNode c) \<Rightarrow> Inr c
     | Inr _ \<Rightarrow> Inl EISDIR)"

definition fs_put :: "fs \<Rightarrow> string \<Rightarrow> inode \<Rightarrow> fs" where
  "fs_put f p i = (p, i) # filter (\<lambda>(q, _). q \<noteq> p) f"

definition fs_drop :: "fs \<Rightarrow> string \<Rightarrow> fs" where
  "fs_drop f p = filter (\<lambda>(q, _). q \<noteq> p) f"

definition is_dir :: "fs \<Rightarrow> string \<Rightarrow> bool" where
  "is_dir f p \<longleftrightarrow> p = ''/'' \<or> map_of f p = Some DirNode"

text \<open>
  Writing a file: \<open>g\<close> gives the new contents from the old ones (\<open>None\<close> for a file that does
  not exist), so that truncating, overwriting the beginning and appending are instances of it.
\<close>

definition fs_write :: "(string option \<Rightarrow> string) \<Rightarrow> fs \<Rightarrow> string \<Rightarrow> errno + fs" where
  "fs_write g f p =
    (case fs_path f p of
       Inl e \<Rightarrow> Inl e
     | Inr q \<Rightarrow>
         if q = ''/'' then Inl EISDIR
         else (case map_of f q of
                 Some DirNode \<Rightarrow> Inl EISDIR
               | Some (FileNode c) \<Rightarrow> Inr (fs_put f q (FileNode (g (Some c))))
               | _ \<Rightarrow> if is_dir f (Dir q) then Inr (fs_put f q (FileNode (g None))) else Inl ENOENT))"

text \<open>The entries of a directory, in the order of their names, as \<open>os.ReadDir\<close> gives them.\<close>

definition children :: "fs \<Rightarrow> string \<Rightarrow> string list" where
  "children f d = sort (map (last_elem \<circ> fst) (filter (\<lambda>(q, _). q \<noteq> ''/'' \<and> Dir q = d) f))"

definition fs_readdir :: "fs \<Rightarrow> string \<Rightarrow> errno + string list" where
  "fs_readdir f p =
    (case fs_stat f p of
       Inl e \<Rightarrow> Inl e
     | Inr DirNode \<Rightarrow> (case fs_path f p of Inl e \<Rightarrow> Inl e | Inr q \<Rightarrow> Inr (children f q))
     | Inr _ \<Rightarrow> Inl ENOTDIR)"

text \<open>\<open>os.Remove\<close> and \<open>os.RemoveAll\<close> act on a link and not on what it points to.\<close>

definition below :: "string \<Rightarrow> string \<Rightarrow> bool" where
  "below p q \<longleftrightarrow> q = p \<or> prefix (if p = ''/'' then p else p @ ''/'') q"

definition fs_remove :: "fs \<Rightarrow> string \<Rightarrow> errno + fs" where
  "fs_remove f p =
    (let q = Clean p in
     case map_of f q of
       None \<Rightarrow> Inl ENOENT
     | Some DirNode \<Rightarrow> if children f q = [] then Inr (fs_drop f q) else Inl ENOTEMPTY
     | Some _ \<Rightarrow> Inr (fs_drop f q))"

definition fs_removeall :: "fs \<Rightarrow> string \<Rightarrow> errno + fs" where
  "fs_removeall f p = Inr (filter (\<lambda>(q, _). \<not> below (Clean p) q) f)"

text \<open>\<open>os.MkdirAll\<close> makes the missing directories from the root down.\<close>

fun mkdir_list :: "fs \<Rightarrow> string list \<Rightarrow> errno + fs" where
  "mkdir_list f [] = Inr f"
| "mkdir_list f (p # ps) =
    (case fs_stat f p of
       Inr DirNode \<Rightarrow> mkdir_list f ps
     | Inr _ \<Rightarrow> Inl ENOTDIR
     | Inl ENOENT \<Rightarrow> mkdir_list (fs_put f p DirNode) ps
     | Inl e \<Rightarrow> Inl e)"

definition fs_mkdirall :: "fs \<Rightarrow> string \<Rightarrow> errno + fs" where
  "fs_mkdirall f p = mkdir_list f (map abs_path (tl (prefixes (comps p))))"

definition fs_symlink :: "string \<Rightarrow> fs \<Rightarrow> string \<Rightarrow> errno + fs" where
  "fs_symlink target f p =
    (let q = Clean p in
     if map_of f q \<noteq> None then Inl EEXIST
     else if is_dir f (Dir q) then Inr (fs_put f q (LinkNode target)) else Inl ENOENT)"

text \<open>\<open>os.Rename\<close> of a file (the programs rename no directory).\<close>

definition fs_rename :: "string \<Rightarrow> fs \<Rightarrow> string \<Rightarrow> errno + fs" where
  "fs_rename to f p =
    (let q = Clean p; r = Clean to in
     case map_of f q of
       None \<Rightarrow> Inl ENOENT
     | Some i \<Rightarrow>
         if map_of f r = Some DirNode then Inl EEXIST
         else if is_dir f (Dir r) then Inr (fs_put (fs_drop f q) r i) else Inl ENOENT)"

section \<open>The world and its operations\<close>

text \<open>What a command did: it could not be started, it exited, or it was killed by a signal.\<close>

datatype outcome = NotStarted string | Exited string int | Killed string string

datatype level = DEBUG | INFO | ERROR | FATAL

datatype event =
    Exec string "string list" int
  | Log level string
  | Stdout string
  | Stderr string
  | Wrote string
  | Removed string
  | Spawned string
  | Sent string
  | Received string

record world =
  env :: "(string \<times> string) list"
  files :: fs
  calls :: nat
  faults :: "nat \<Rightarrow> string \<Rightarrow> string \<Rightarrow> errno option"
  programs :: "nat \<Rightarrow> string \<Rightarrow> string list \<Rightarrow> (string \<times> string) list \<Rightarrow> fs \<Rightarrow> outcome \<times> fs"
  lookpath :: "string \<Rightarrow> string"
  clock :: "nat \<Rightarrow> int"
  dial :: "nat \<Rightarrow> string \<Rightarrow> error option \<times> error option"
  hostname :: string
  executable :: "error + string"
  cwd :: string
  nofile :: "int \<times> int"
  trace :: "event list"
  debug_on :: bool
  log_json :: bool
  FIPSEnabledType :: int
  collectDiagOnFail :: bool

type_synonym 'a io = "(world, 'a) state"

abbreviation return :: "'a \<Rightarrow> 'a io" where "return \<equiv> State_Monad.return"

definition ask :: "(world \<Rightarrow> 'a) \<Rightarrow> 'a io" where
  "ask f = State (\<lambda>w. (f w, w))"

definition upd :: "(world \<Rightarrow> world) \<Rightarrow> unit io" where
  "upd f = State (\<lambda>w. ((), f w))"

definition emit :: "event \<Rightarrow> unit io" where
  "emit e = upd (\<lambda>w. w\<lparr>trace := trace w @ [e]\<rparr>)"

text \<open>
  Every system call has a number and may fail.  That a file does not exist is said by the files
  only: a fault is any other error.
\<close>

definition fault_of :: "world \<Rightarrow> string \<Rightarrow> string \<Rightarrow> errno option" where
  "fault_of w oper p = (case faults w (calls w) oper p of Some ENOENT \<Rightarrow> None | r \<Rightarrow> r)"

definition syscall :: "string \<Rightarrow> string \<Rightarrow> errno option io" where
  "syscall oper p = State (\<lambda>w. (fault_of w oper p, w\<lparr>calls := Suc (calls w)\<rparr>))"

definition query :: "string \<Rightarrow> (fs \<Rightarrow> string \<Rightarrow> errno + 'a) \<Rightarrow> string \<Rightarrow> (error + 'a) io" where
  "query oper f p = do {
     r \<leftarrow> syscall oper p;
     w \<leftarrow> ask files;
     return (case r of
               Some e \<Rightarrow> Inl (PathError oper p e)
             | None \<Rightarrow> (case f w p of Inl e \<Rightarrow> Inl (PathError oper p e) | Inr x \<Rightarrow> Inr x))
   }"

definition change :: "string \<Rightarrow> event \<Rightarrow> (fs \<Rightarrow> string \<Rightarrow> errno + fs) \<Rightarrow> string \<Rightarrow> (error + unit) io" where
  "change oper ev f p = do {
     r \<leftarrow> query oper f p;
     case r of
       Inl e \<Rightarrow> return (Inl e)
     | Inr f' \<Rightarrow> do { upd (files_update (\<lambda>_. f')); emit ev; return (Inr ()) }
   }"

definition os_LookupEnv :: "string \<Rightarrow> string option io" where
  "os_LookupEnv v = ask (\<lambda>w. map_of (env w) v)"

definition os_Getenv :: "string \<Rightarrow> string io" where
  "os_Getenv v = ask (\<lambda>w. case map_of (env w) v of None \<Rightarrow> [] | Some s \<Rightarrow> s)"

definition os_Setenv :: "string \<Rightarrow> string \<Rightarrow> unit io" where
  "os_Setenv v s = upd (env_update (AList.update v s))"

definition os_Hostname :: "(error + string) io" where
  "os_Hostname = do {
     r \<leftarrow> syscall ''hostname'' [];
     h \<leftarrow> ask hostname;
     return (case r of Some e \<Rightarrow> Inl (PathError ''hostname'' [] e) | None \<Rightarrow> Inr h)
   }"

definition os_Stat :: "string \<Rightarrow> (error + inode) io" where
  "os_Stat p = query ''stat'' fs_stat p"

definition os_ReadFile :: "string \<Rightarrow> (error + string) io" where
  "os_ReadFile p = query ''open'' fs_read p"

definition os_ReadDir :: "string \<Rightarrow> (error + string list) io" where
  "os_ReadDir p = query ''open'' fs_readdir p"

text \<open>\<open>os.WriteFile\<close> creates or truncates; without \<open>O_TRUNC\<close> the end of an older, longer
  file stays; with \<open>O_APPEND\<close> the text goes to the end.\<close>

definition os_WriteFile :: "string \<Rightarrow> string \<Rightarrow> (error + unit) io" where
  "os_WriteFile p c = change ''open'' (Wrote p) (fs_write (\<lambda>_. c)) p"

fun overwrite :: "string \<Rightarrow> string option \<Rightarrow> string" where
  "overwrite c None = c"
| "overwrite c (Some old) = c @ drop (length c) old"

definition os_OverwriteFile :: "string \<Rightarrow> string \<Rightarrow> (error + unit) io" where
  "os_OverwriteFile p c = change ''open'' (Wrote p) (fs_write (overwrite c)) p"

fun appended :: "string \<Rightarrow> string option \<Rightarrow> string" where
  "appended c None = c"
| "appended c (Some old) = old @ c"

definition os_AppendFile :: "string \<Rightarrow> string \<Rightarrow> (error + unit) io" where
  "os_AppendFile p c = change ''open'' (Wrote p) (fs_write (appended c)) p"

definition os_Remove :: "string \<Rightarrow> (error + unit) io" where
  "os_Remove p = change ''remove'' (Removed p) fs_remove p"

definition os_RemoveAll :: "string \<Rightarrow> (error + unit) io" where
  "os_RemoveAll p = change ''unlinkat'' (Removed p) fs_removeall p"

definition os_MkdirAll :: "string \<Rightarrow> (error + unit) io" where
  "os_MkdirAll p = change ''mkdir'' (Wrote p) fs_mkdirall p"

definition os_Symlink :: "string \<Rightarrow> string \<Rightarrow> (error + unit) io" where
  "os_Symlink target p = change ''symlink'' (Wrote p) (fs_symlink target) p"

definition os_Rename :: "string \<Rightarrow> string \<Rightarrow> (error + unit) io" where
  "os_Rename old new = change ''rename'' (Wrote new) (fs_rename new) old"

definition time_Now_Unix :: "int io" where
  "time_Now_Unix = State (\<lambda>w. (clock w (calls w), w\<lparr>calls := Suc (calls w)\<rparr>))"

text \<open>
  \<open>cmd.CombinedOutput\<close> and \<open>cmd.ProcessState.ExitCode()\<close>: the output, the exit code
  (\<open>-1\<close> where the command did not start or was killed) and the error.
\<close>

fun outcome_result :: "outcome \<Rightarrow> string \<times> int \<times> error option" where
  "outcome_result (NotStarted e) = ([], -1, Some (Errorf e))"
| "outcome_result (Exited out rc) =
    (out, rc, if rc = 0 then None else Some (Errorf (''exit status '' @ Itoa rc)))"
| "outcome_result (Killed out sig) = (out, -1, Some (Errorf (''signal: '' @ sig)))"

definition exec_CombinedOutput :: "string \<Rightarrow> string list \<Rightarrow> (string \<times> int \<times> error option) io" where
  "exec_CombinedOutput prog args = do {
     (o', f') \<leftarrow> ask (\<lambda>w. programs w (calls w) prog args (env w) (files w));
     upd (\<lambda>w. w\<lparr>calls := Suc (calls w), files := f'\<rparr>);
     emit (Exec prog args (fst (snd (outcome_result o'))));
     return (outcome_result o')
   }"

section \<open>The package \<open>internal/command\<close>\<close>

text \<open>\<open>Run\<close> is \<open>RunContext\<close> with a context that is never cancelled; a command killed when its
  context is done is one of the outcomes of \<open>programs\<close>.\<close>

definition RunContext :: "string \<Rightarrow> string list \<Rightarrow> (string \<times> int \<times> error option) io" where
  "RunContext name args = do {
     (out, rc, err) \<leftarrow> exec_CombinedOutput name args;
     p \<leftarrow> ask lookpath;
     return (out, rc, map_option (\<lambda>e. Errorf (p name @ '': '' @ error_text e)) err)
   }"

definition Run :: "string \<Rightarrow> string list \<Rightarrow> (string \<times> int \<times> error option) io" where
  "Run name args = RunContext name args"

section \<open>Reasoning about programs\<close>

text \<open>Results of a program run in a world.\<close>

abbreviation result :: "'a io \<Rightarrow> world \<Rightarrow> 'a" where "result m w \<equiv> fst (run_state m w)"
abbreviation final :: "'a io \<Rightarrow> world \<Rightarrow> world" where "final m w \<equiv> snd (run_state m w)"

lemma run_ask [simp]: "run_state (ask f) w = (f w, w)"
  by (simp add: ask_def)

lemma run_upd [simp]: "run_state (upd f) w = ((), f w)"
  by (simp add: upd_def)

lemma run_emit [simp]: "run_state (emit e) w = ((), w\<lparr>trace := trace w @ [e]\<rparr>)"
  by (simp add: emit_def)

lemma run_syscall [simp]:
  "run_state (syscall oper p) w = (fault_of w oper p, w\<lparr>calls := Suc (calls w)\<rparr>)"
  by (simp add: syscall_def)

lemma run_LookupEnv [simp]: "run_state (os_LookupEnv v) w = (map_of (env w) v, w)"
  by (simp add: os_LookupEnv_def)

lemma run_Getenv [simp]:
  "run_state (os_Getenv v) w = (case map_of (env w) v of None \<Rightarrow> [] | Some s \<Rightarrow> s, w)"
  by (simp add: os_Getenv_def)

text \<open>
  A relation between the worlds before and after a program.  A relation that is reflexive and
  transitive is kept by a program when all its parts keep it; the rules follow the structure of
  the program text.
\<close>

locale kept =
  fixes R :: "world \<Rightarrow> world \<Rightarrow> bool"
  assumes R_refl: "R w w"
    and R_trans: "R w v \<Longrightarrow> R v u \<Longrightarrow> R w u"
begin

lemma io_return: "state_io_rel R (return x)"
  by (simp add: state_io_rel_def R_refl)

lemma io_ask: "state_io_rel R (ask f)"
  by (simp add: state_io_rel_def R_refl)

lemma io_bind:
  assumes "state_io_rel R m" and "\<And>x. state_io_rel R (k x)"
  shows "state_io_rel R (State_Monad.bind m k)"
  unfolding state_io_rel_def
proof
  fix w
  obtain x w' where x: "run_state m w = (x, w')" by (cases "run_state m w")
  with assms(1) have "R w w'" by (metis state_io_rel_def snd_conv)
  moreover have "R w' (final (k x) w')" using assms(2) by (simp add: state_io_rel_def)
  ultimately show "R w (final (State_Monad.bind m k) w)" using x by (simp add: R_trans)
qed

lemma io_if: "(b \<Longrightarrow> state_io_rel R m) \<Longrightarrow> (\<not> b \<Longrightarrow> state_io_rel R n) \<Longrightarrow> state_io_rel R (if b then m else n)"
  by simp

lemma io_case_sum:
  "(\<And>e. state_io_rel R (f e)) \<Longrightarrow> (\<And>x. state_io_rel R (g x)) \<Longrightarrow> state_io_rel R (case_sum f g r)"
  by (simp split: sum.split)

lemma io_case_option:
  "state_io_rel R m \<Longrightarrow> (\<And>x. state_io_rel R (g x)) \<Longrightarrow> state_io_rel R (case_option m g r)"
  by (simp split: option.split)

lemma io_case_prod: "(\<And>x y. state_io_rel R (f x y)) \<Longrightarrow> state_io_rel R (case_prod f r)"
  by (simp split: prod.split)

lemma io_case_list:
  "state_io_rel R m \<Longrightarrow> (\<And>x xs. state_io_rel R (f x xs)) \<Longrightarrow> state_io_rel R (case_list m f r)"
  by (simp split: list.split)

lemma io_let: "state_io_rel R (f x) \<Longrightarrow> state_io_rel R (Let x f)"
  by simp

lemmas io_rules = io_return io_ask io_bind io_if io_case_sum io_case_option io_case_prod io_case_list io_let

end

text \<open>
  The relations used below: the environment and what stands for the outside are never changed
  except by \<open>os.Setenv\<close>; a program only adds to the trace, and only events that satisfy \<open>E\<close>;
  a program leaves the files alone.
\<close>

definition emits :: "(event \<Rightarrow> bool) \<Rightarrow> world \<Rightarrow> world \<Rightarrow> bool" where
  "emits E w w' \<longleftrightarrow> (\<exists>es. trace w' = trace w @ es \<and> list_all E es)"

definition same_env :: "world \<Rightarrow> world \<Rightarrow> bool" where
  "same_env w w' \<longleftrightarrow> env w' = env w"

definition same_files :: "world \<Rightarrow> world \<Rightarrow> bool" where
  "same_files w w' \<longleftrightarrow> files w' = files w"

interpretation em: kept "emits E" for E
proof
  show "emits E w w" for w by (auto simp: emits_def)
  show "emits E w u" if "emits E w v" "emits E v u" for w v u
    using that by (auto simp: emits_def)
qed

interpretation se: kept same_env
  by unfold_locales (simp_all add: same_env_def)

interpretation sf: kept same_files
  by unfold_locales (simp_all add: same_files_def)

named_theorems emits_intro \<open>programs that emit only events of a kind\<close>
named_theorems env_intro \<open>programs that leave the environment alone\<close>
named_theorems files_intro \<open>programs that leave the files alone\<close>

lemmas [emits_intro] = em.io_rules
lemmas [env_intro] = se.io_rules
lemmas [files_intro] = sf.io_rules

text \<open>The basic operations.\<close>

lemma upd_emits [emits_intro]: "(\<And>w. trace (f w) = trace w) \<Longrightarrow> state_io_rel (emits E) (upd f)"
  by (simp add: state_io_rel_def emits_def)

lemma emit_emits [emits_intro]: "E e \<Longrightarrow> state_io_rel (emits E) (emit e)"
  by (simp add: state_io_rel_def emits_def)

lemma syscall_emits [emits_intro]: "state_io_rel (emits E) (syscall oper p)"
  by (simp add: state_io_rel_def emits_def)

lemma time_emits [emits_intro]: "state_io_rel (emits E) time_Now_Unix"
  by (simp add: state_io_rel_def emits_def time_Now_Unix_def)

lemma query_emits [emits_intro]: "state_io_rel (emits E) (query oper f p)"
  unfolding query_def by (intro emits_intro)

lemma change_emits [emits_intro]: "E ev \<Longrightarrow> state_io_rel (emits E) (change oper ev f p)"
  unfolding change_def by (intro emits_intro) simp_all

lemma LookupEnv_emits [emits_intro]: "state_io_rel (emits E) (os_LookupEnv v)"
  unfolding os_LookupEnv_def by (intro emits_intro)

lemma Getenv_emits [emits_intro]: "state_io_rel (emits E) (os_Getenv v)"
  unfolding os_Getenv_def by (intro emits_intro)

lemma Setenv_emits [emits_intro]: "state_io_rel (emits E) (os_Setenv v s)"
  unfolding os_Setenv_def by (intro emits_intro) simp

lemma Hostname_emits [emits_intro]: "state_io_rel (emits E) os_Hostname"
  unfolding os_Hostname_def by (intro emits_intro)

lemma reads_emit [emits_intro]:
  "state_io_rel (emits E) (os_Stat p)" "state_io_rel (emits E) (os_ReadFile p)"
  "state_io_rel (emits E) (os_ReadDir p)"
  unfolding os_Stat_def os_ReadFile_def os_ReadDir_def by (intro emits_intro)+

lemma writes_emit [emits_intro]:
  "E (Wrote p) \<Longrightarrow> state_io_rel (emits E) (os_WriteFile p c)"
  "E (Wrote p) \<Longrightarrow> state_io_rel (emits E) (os_OverwriteFile p c)"
  "E (Wrote p) \<Longrightarrow> state_io_rel (emits E) (os_AppendFile p c)"
  "E (Wrote p) \<Longrightarrow> state_io_rel (emits E) (os_MkdirAll p)"
  "E (Wrote p) \<Longrightarrow> state_io_rel (emits E) (os_Symlink t p)"
  "E (Wrote q) \<Longrightarrow> state_io_rel (emits E) (os_Rename p q)"
  "E (Removed p) \<Longrightarrow> state_io_rel (emits E) (os_Remove p)"
  "E (Removed p) \<Longrightarrow> state_io_rel (emits E) (os_RemoveAll p)"
  unfolding os_WriteFile_def os_OverwriteFile_def os_AppendFile_def os_MkdirAll_def os_Symlink_def
    os_Rename_def os_Remove_def os_RemoveAll_def
  by (intro emits_intro; assumption)+

lemma exec_emits [emits_intro]:
  "(\<And>rc. E (Exec prog args rc)) \<Longrightarrow> state_io_rel (emits E) (exec_CombinedOutput prog args)"
  unfolding exec_CombinedOutput_def by (intro emits_intro) simp_all

lemma Run_emits [emits_intro]:
  "(\<And>rc. E (Exec prog args rc)) \<Longrightarrow> state_io_rel (emits E) (Run prog args)"
  "(\<And>rc. E (Exec prog args rc)) \<Longrightarrow> state_io_rel (emits E) (RunContext prog args)"
  unfolding Run_def RunContext_def by (intro emits_intro; assumption)+

text \<open>What a command reports: an error exactly when its exit code is not zero.\<close>

lemma outcome_result_err: "outcome_result r = (out, rc, err) \<Longrightarrow> err = None \<longleftrightarrow> rc = 0"
  by (cases r) (auto split: if_splits)

lemma outcome_result_ok: "outcome_result r = (out, rc, None) \<longleftrightarrow> r = Exited out 0 \<and> rc = 0"
  by (cases r) (auto split: if_splits)

lemma exec_result_err:
  "run_state (exec_CombinedOutput prog args) w = ((out, rc, err), w') \<Longrightarrow> err = None \<longleftrightarrow> rc = 0"
  by (auto simp: exec_CombinedOutput_def split: prod.splits dest: outcome_result_err)

lemma exec_ok:
  "run_state (exec_CombinedOutput prog args) w = ((out, rc, None), w') \<Longrightarrow>
    \<exists>f'. programs w (calls w) prog args (env w) (files w) = (Exited out 0, f') \<and> files w' = f'"
  by (auto simp: exec_CombinedOutput_def outcome_result_ok split: prod.splits)

lemma RunContext_ok:
  "run_state (RunContext prog args) w = ((out, rc, None), w') \<Longrightarrow>
    \<exists>f'. programs w (calls w) prog args (env w) (files w) = (Exited out 0, f') \<and> files w' = f'"
  by (auto simp: RunContext_def split: prod.splits dest: exec_ok)

lemma Run_result_err: "run_state (Run prog args) w = ((out, rc, err), w') \<Longrightarrow> err = None \<longleftrightarrow> rc = 0"
  by (auto simp: Run_def RunContext_def split: prod.splits dest: exec_result_err)

lemma Run_trace:
  "run_state (Run prog args) w = ((out, rc, err), w') \<Longrightarrow> trace w' = trace w @ [Exec prog args rc]"
  by (auto simp: Run_def RunContext_def exec_CombinedOutput_def split: prod.splits dest!: arg_cong [of _ _ fst])

text \<open>A program that emits only events of a kind, run in a given world.\<close>

lemma emitsD:
  assumes "state_io_rel (emits E) m" "run_state m w = (x, w')"
  obtains es where "trace w' = trace w @ es" "list_all E es"
proof -
  from assms have "emits E w w'" by blast
  then show ?thesis using that by (auto simp: emits_def)
qed

lemma emits_mono: "state_io_rel (emits E) m \<Longrightarrow> (\<And>e. E e \<Longrightarrow> F e) \<Longrightarrow> state_io_rel (emits F) m"
  unfolding state_io_rel_def emits_def by (metis list_all_iff)

text \<open>A loop over a list that stops at the first error, as \<open>for ... { if err != nil { return err } }\<close>.\<close>

fun for_err :: "('a \<Rightarrow> (error + unit) io) \<Rightarrow> 'a list \<Rightarrow> (error + unit) io" where
  "for_err body [] = return (Inr ())"
| "for_err body (x # xs) = do {
     r \<leftarrow> body x;
     case r of Inl e \<Rightarrow> return (Inl e) | Inr _ \<Rightarrow> for_err body xs
   }"

lemma for_err_emits [emits_intro]:
  "(\<And>x. x \<in> set xs \<Longrightarrow> state_io_rel (emits E) (body x)) \<Longrightarrow> state_io_rel (emits E) (for_err body xs)"
  by (induction xs) (auto intro!: emits_intro)

text \<open>Laws of the file operations, for a path that is not a link.\<close>

lemma map_of_fs_put [simp]: "map_of (fs_put f p i) = (map_of f)(p \<mapsto> i)"
proof
  fix q
  show "map_of (fs_put f p i) q = ((map_of f)(p \<mapsto> i)) q"
    by (induction f) (auto simp: fs_put_def)
qed

lemma map_of_fs_drop [simp]: "map_of (fs_drop f p) = (map_of f)(p := None)"
proof
  fix q
  show "map_of (fs_drop f p) q = ((map_of f)(p := None)) q"
    by (induction f) (auto simp: fs_drop_def)
qed

lemma fault_of_ENOENT [simp]: "fault_of w oper p \<noteq> Some ENOENT"
  by (simp add: fault_of_def split: option.split errno.split)

lemma resolve_put_file:
  "resolve n f p = Inr q \<Longrightarrow> resolve n (fs_put f q (FileNode c)) p = Inr q"
  by (induction n f p rule: resolve.induct) (auto split: option.splits inode.splits if_splits)

lemma resolve_not_link: "resolve n f p = Inr q \<Longrightarrow> map_of f q \<noteq> Some (LinkNode t)"
  by (induction n f p rule: resolve.induct) (auto split: option.splits inode.splits)

lemma fs_path_put_file: "fs_path f p = Inr q \<Longrightarrow> fs_path (fs_put f q (FileNode c)) p = Inr q"
  by (simp add: fs_path_def resolve_put_file)

text \<open>Reading a file after writing it.\<close>

lemma fs_write_path:
  assumes "fs_write g f p = Inr f'"
  obtains q where "fs_path f p = Inr q" "q \<noteq> ''/''"
    "f' = fs_put f q (FileNode (g (case map_of f q of Some (FileNode c) \<Rightarrow> Some c | _ \<Rightarrow> None)))"
  using assms by (auto simp: fs_write_def split: sum.splits if_splits option.splits inode.splits)

lemma fs_write_stat:
  assumes "fs_write g f p = Inr f'"
  shows "\<exists>c. fs_stat f' p = Inr (FileNode c)"
proof -
  from assms obtain q c where "fs_path f p = Inr q" "q \<noteq> ''/''" "f' = fs_put f q (FileNode c)"
    using fs_write_path by metis
  then show ?thesis by (simp add: fs_stat_def fs_path_put_file)
qed

lemma fs_read_write:
  assumes "fs_write g f p = Inr f'"
  shows "fs_read f' p = Inr (g (case fs_read f p of Inr c \<Rightarrow> Some c | Inl _ \<Rightarrow> None))"
proof -
  from assms obtain q where q: "fs_path f p = Inr q" "q \<noteq> ''/''"
    "f' = fs_put f q (FileNode (g (case map_of f q of Some (FileNode c) \<Rightarrow> Some c | _ \<Rightarrow> None)))"
    using fs_write_path by metis
  moreover have "(case fs_read f p of Inr c \<Rightarrow> Some c | Inl _ \<Rightarrow> None)
      = (case map_of f q of Some (FileNode c) \<Rightarrow> Some c | _ \<Rightarrow> None)"
    using q(1,2) resolve_not_link [of 40 f "Clean p" q]
    by (auto simp: fs_read_def fs_stat_def fs_path_def split: option.split inode.split)
  ultimately show ?thesis by (simp add: fs_read_def fs_stat_def fs_path_put_file)
qed

lemma fs_read_stat: "fs_read f p = Inr c \<Longrightarrow> fs_stat f p = Inr (FileNode c)"
  by (auto simp: fs_read_def split: sum.splits inode.splits)

text \<open>A removed file is gone.\<close>

lemma fs_remove_stat:
  assumes "fs_remove f p = Inr f'" "Clean p \<noteq> ''/''"
  shows "fs_stat f' p = Inl ENOENT"
proof -
  from assms have "f' = fs_drop f (Clean p)"
    by (auto simp: fs_remove_def Let_def split: option.splits inode.splits if_splits)
  then show ?thesis
    using assms(2) by (simp add: fs_stat_def fs_path_def numeral_eq_Suc)
qed

text \<open>Results of the operations in terms of the files.\<close>

lemma query_run:
  "run_state (query oper f p) w =
    ((case fault_of w oper p of
        Some e \<Rightarrow> Inl (PathError oper p e)
      | None \<Rightarrow> (case f (files w) p of Inl e \<Rightarrow> Inl (PathError oper p e) | Inr x \<Rightarrow> Inr x)),
     w\<lparr>calls := Suc (calls w)\<rparr>)"
  by (simp add: query_def split: option.split)

lemma change_run_Inr:
  assumes "run_state (change oper ev f p) w = (Inr x, w')"
  shows "f (files w) p = Inr (files w')"
  using assms by (auto simp: change_def query_run split: option.splits sum.splits)

lemma resolve_Inl: "resolve n f p = Inl e \<Longrightarrow> e = ELOOP"
  by (induction n f p rule: resolve.induct) (auto split: option.splits inode.splits)

lemma fs_stat_drop:
  assumes "fs_stat f p = Inl ENOENT" "q \<noteq> ''/''"
  shows "fs_stat (fs_drop f q) p = Inl ENOENT"
proof -
  have "\<exists>r'. resolve n (fs_drop f q) p = Inr r' \<and> map_of (fs_drop f q) r' = None \<and> r' \<noteq> ''/''"
    if "resolve n f p = Inr r" "map_of f r = None" "r \<noteq> ''/''" for n p r
    using that assms(2)
    by (induction n f p rule: resolve.induct) (auto split: option.splits inode.splits if_splits)
  moreover from assms(1) obtain r where "resolve 40 f (Clean p) = Inr r" "map_of f r = None" "r \<noteq> ''/''"
    by (auto simp: fs_stat_def fs_path_def dest: resolve_Inl split: sum.splits if_splits option.splits)
  ultimately show ?thesis unfolding fs_stat_def fs_path_def by force
qed

section \<open>A world for examples\<close>

text \<open>A world in which no call fails and every command succeeds without output or effect.\<close>

definition base_world :: world where
  "base_world =
    \<lparr>env = [], files = [], calls = 0, faults = (\<lambda>_ _ _. None),
     programs = (\<lambda>_ _ _ _ f. (Exited [] 0, f)),
     lookpath = (\<lambda>n. n), clock = (\<lambda>n. int n), dial = (\<lambda>_ _. (None, None)),
     hostname = ''host1'', executable = Inr ''/usr/local/bin/runmqserver'', cwd = ''/'', nofile = (1024, 4096),
     trace = [], debug_on = False, log_json = False,
     FIPSEnabledType = 0, collectDiagOnFail = False\<rparr>"

section \<open>Programs that only look\<close>

text \<open>Files, environment and the behaviour of the outside are the same before and after.\<close>

definition quiet :: "world \<Rightarrow> world \<Rightarrow> bool" where
  "quiet w w' \<longleftrightarrow> files w' = files w \<and> env w' = env w \<and> faults w' = faults w \<and> programs w' = programs w"

interpretation qt: kept quiet
  by unfold_locales (simp_all add: quiet_def)

named_theorems quiet_intro \<open>programs that only look and log\<close>

lemmas [quiet_intro] = qt.io_rules

lemma basic_quiet [quiet_intro]:
  "state_io_rel quiet (emit e)" "state_io_rel quiet (syscall oper p)" "state_io_rel quiet (query oper f p)"
  "state_io_rel quiet (os_LookupEnv v)" "state_io_rel quiet (os_Getenv v)" "state_io_rel quiet os_Hostname"
  "state_io_rel quiet time_Now_Unix"
  by (auto simp: state_io_rel_def quiet_def query_run os_Hostname_def time_Now_Unix_def)

lemma upd_quiet [quiet_intro]: "(\<And>w. quiet w (f w)) \<Longrightarrow> state_io_rel quiet (upd f)"
  by (simp add: state_io_rel_def)

lemma reads_quiet [quiet_intro]:
  "state_io_rel quiet (os_Stat p)" "state_io_rel quiet (os_ReadFile p)" "state_io_rel quiet (os_ReadDir p)"
  unfolding os_Stat_def os_ReadFile_def os_ReadDir_def by (intro quiet_intro)+

lemma quietD: "state_io_rel quiet m \<Longrightarrow> run_state m w = (x, w') \<Longrightarrow> quiet w w'"
  by blast

text \<open>The environment is changed by \<open>os.Setenv\<close> only.\<close>

lemma upd_env [env_intro]: "(\<And>w. env (f w) = env w) \<Longrightarrow> state_io_rel same_env (upd f)"
  by (simp add: state_io_rel_def same_env_def)

lemma basic_env [env_intro]:
  "state_io_rel same_env (emit e)" "state_io_rel same_env (syscall oper p)" "state_io_rel same_env (query oper f p)"
  "state_io_rel same_env (os_LookupEnv v)" "state_io_rel same_env (os_Getenv v)" "state_io_rel same_env os_Hostname"
  "state_io_rel same_env time_Now_Unix"
  by (auto simp: state_io_rel_def same_env_def query_run os_Hostname_def time_Now_Unix_def)

lemma change_env [env_intro]: "state_io_rel same_env (change oper ev f p)"
  unfolding change_def by (intro env_intro) simp

lemma files_env [env_intro]:
  "state_io_rel same_env (os_Stat p)" "state_io_rel same_env (os_ReadFile p)" "state_io_rel same_env (os_ReadDir p)"
  "state_io_rel same_env (os_WriteFile p c)" "state_io_rel same_env (os_OverwriteFile p c)" "state_io_rel same_env (os_AppendFile p c)"
  "state_io_rel same_env (os_Remove p)" "state_io_rel same_env (os_RemoveAll p)" "state_io_rel same_env (os_MkdirAll p)"
  "state_io_rel same_env (os_Symlink t p)" "state_io_rel same_env (os_Rename p q)"
  unfolding os_Stat_def os_ReadFile_def os_ReadDir_def os_WriteFile_def os_OverwriteFile_def os_AppendFile_def os_Remove_def
    os_RemoveAll_def os_MkdirAll_def os_Symlink_def os_Rename_def
  by (intro env_intro)+

lemma exec_env [env_intro]:
  "state_io_rel same_env (exec_CombinedOutput prog args)" "state_io_rel same_env (Run prog args)"
  "state_io_rel same_env (RunContext prog args)"
  unfolding Run_def RunContext_def exec_CombinedOutput_def by (intro env_intro; simp)+

section \<open>The commands of a trace\<close>

fun exec_of :: "event \<Rightarrow> (string \<times> string list \<times> int) option" where
  "exec_of (Exec p args rc) = Some (p, args, rc)"
| "exec_of _ = None"

definition execs :: "event list \<Rightarrow> (string \<times> string list \<times> int) list" where
  "execs tr = List.map_filter exec_of tr"

lemma execs_simps [simp]:
  "execs [] = []" "execs (e # es) = (case exec_of e of None \<Rightarrow> execs es | Some x \<Rightarrow> x # execs es)"
  "execs (es @ fs) = execs es @ execs fs"
  by (simp_all add: execs_def List.map_filter_def split: option.split)

abbreviation no_exec :: "event \<Rightarrow> bool" where "no_exec e \<equiv> exec_of e = None"

lemma execs_none: "list_all no_exec es \<Longrightarrow> execs es = []"
  by (induction es) auto

text \<open>The commands that a program adds: none, or what \<open>Run\<close> adds.\<close>

lemma no_exec_execs:
  assumes "state_io_rel (emits no_exec) m" "run_state m w = (x, w')"
  shows "execs (trace w') = execs (trace w)"
proof -
  from assms obtain es where "trace w' = trace w @ es" "list_all no_exec es" by (rule emitsD)
  then show ?thesis by (simp add: execs_none)
qed

lemma bind_execs:
  assumes "run_state (State_Monad.bind m k) w = (y, w')" and "\<And>x. state_io_rel (emits no_exec) (k x)"
  obtains x w1 where "run_state m w = (x, w1)" "run_state (k x) w1 = (y, w')" "execs (trace w') = execs (trace w1)"
proof -
  obtain x w1 where "run_state m w = (x, w1)" by (cases "run_state m w")
  moreover with assms(1) have "run_state (k x) w1 = (y, w')" by simp
  ultimately show ?thesis using that no_exec_execs [OF assms(2)] by blast
qed

lemma Run_execs:
  "run_state (Run prog args) w = ((out, rc, err), w') \<Longrightarrow>
    execs (trace w') = execs (trace w) @ [(prog, args, rc)] \<and> (err = None \<longleftrightarrow> rc = 0)"
  using Run_trace [of prog args w out rc err w'] Run_result_err [of prog args w out rc err w'] by simp

end
