(* ===== verification/Logger.thy ===== *)
theory Logger
  imports Go_UTF8 Go_OS
begin

text \<open>
  The packages \<open>pkg/logger\<close> and \<open>pkg/syncwriter\<close>.

  The functions that log add a \<open>Log\<close> event to the trace of the world; \<open>log_text\<close> is the text
  that the logger writes for such an event, in the basic and in the JSON format, with the escaping
  of \<open>encoding/json\<close> (sorted keys, HTML characters, control characters and U+2028/U+2029 escaped,
  an invalid byte written as U+FFFD).
\<close>

section \<open>JSON strings\<close>

abbreviation bslash :: char where "bslash \<equiv> CHR 0x5C"

definition hex_digit :: "nat \<Rightarrow> char" where
  "hex_digit n = ''0123456789abcdef'' ! n"

definition short_escapes :: "(char \<times> char) list" where
  "short_escapes =
    [(bslash, bslash), (quote, quote), (CHR 0x08, CHR ''b''), (CHR 0x0C, CHR ''f''),
     (nl, CHR ''n''), (cr, CHR ''r''), (tab, CHR ''t'')]"

definition json_escape_byte :: "char \<Rightarrow> string" where
  "json_escape_byte b =
    (case map_of short_escapes b of
       Some e \<Rightarrow> [bslash, e]
     | None \<Rightarrow>
         if b < CHR 0x20 \<or> b \<in> {CHR ''<'', CHR ''>'', CHR ''&''}
         then [bslash, CHR ''u'', CHR ''0'', CHR ''0'',
               hex_digit (of_char b div 16), hex_digit (of_char b mod 16)]
         else [b])"

definition json_rune_error :: string where
  "json_rune_error = bslash # ''ufffd''"

definition json_escapes :: "(string \<times> string) list" where
  "json_escapes =
    [([CHR 0xE2, CHR 0x80, CHR 0xA8], bslash # ''u2028''),
     ([CHR 0xE2, CHR 0x80, CHR 0xA9], bslash # ''u2029'')]"

definition json_high_rune :: "string \<Rightarrow> string" where
  "json_high_rune r = (case map_of json_escapes r of None \<Rightarrow> r | Some e \<Rightarrow> e)"

function json_body :: "string \<Rightarrow> string" where
  "json_body [] = []"
| "json_body (b # s) =
    (if b < CHR 0x80 then json_escape_byte b @ json_body s
     else if rune_len (b # s) = 0 then json_rune_error @ json_body s
     else json_high_rune (take (rune_len (b # s)) (b # s)) @ json_body (drop (rune_len (b # s)) (b # s)))"
  by pat_completeness auto
termination
  by (relation "measure length") simp_all

definition json_string :: "string \<Rightarrow> string" where
  "json_string s = quote # json_body s @ [quote]"

text \<open>\<open>json.Marshal\<close> of a map from strings to strings: the keys in order.\<close>

definition json_Marshal :: "(string \<times> string) list \<Rightarrow> string" where
  "json_Marshal m =
    ''{'' @ Join (map (\<lambda>(k, v). json_string k @ '':'' @ json_string v) (sort_key fst m)) '','' @ ''}''"

section \<open>The package \<open>pkg/syncwriter\<close>\<close>

text \<open>
  An \<open>io.Writer\<close> is a function from its number of earlier calls and the bytes to the number of
  bytes it took and its error.  \<open>Write\<close> calls it until all bytes are taken or an error comes;
  \<open>fuel\<close> bounds the number of calls, since a writer that takes nothing and reports no error keeps
  \<open>Write\<close> looping.  The result is the number of calls made, what was passed on, and the results of
  \<open>Write\<close>.
\<close>

type_synonym io_Writer = "nat \<Rightarrow> string \<Rightarrow> nat \<times> error option"

fun Write_loop :: "nat \<Rightarrow> io_Writer \<Rightarrow> nat \<Rightarrow> string \<Rightarrow> nat \<Rightarrow> string \<Rightarrow> (string \<times> nat \<times> error option) option" where
  "Write_loop 0 out k p bytesWritten sent = None"
| "Write_loop (Suc fuel) out k p bytesWritten sent =
    (if p = [] then Some (sent, bytesWritten, None)
     else (case out k p of
             (n, Some err) \<Rightarrow> Some (sent @ take n p, bytesWritten + n, Some err)
           | (n, None) \<Rightarrow> Write_loop fuel out (Suc k) (drop n p) (bytesWritten + n) (sent @ take n p)))"

definition SyncWriter_Write :: "nat \<Rightarrow> io_Writer \<Rightarrow> string \<Rightarrow> (string \<times> nat \<times> error option) option" where
  "SyncWriter_Write fuel out p = Write_loop fuel out 0 p 0 []"

text \<open>
  The registry of \<open>For\<close>: one \<open>SyncWriter\<close> for each writer, and one lock shared by the standard
  output and the standard error.  A lock is named by a number; the shared one is 0.
\<close>

datatype writer_id = OsStdout | OsStderr | Other nat

record SyncWriter =
  writeLock :: nat
  sw_output :: writer_id

record registry =
  syncWriters :: "(writer_id \<times> SyncWriter) list"
  nextLock :: nat

definition For :: "writer_id \<Rightarrow> registry \<Rightarrow> SyncWriter \<times> registry" where
  "For w g =
    (case map_of (syncWriters g) w of
       Some writer \<Rightarrow> (writer, g)
     | None \<Rightarrow>
         let fresh = \<not> (w = OsStdout \<or> w = OsStderr);
             lock = (if fresh then nextLock g else 0);
             writer = \<lparr>writeLock = lock, sw_output = w\<rparr>
         in (writer, g\<lparr>syncWriters := (w, writer) # syncWriters g,
                       nextLock := (if fresh then Suc (nextLock g) else nextLock g)\<rparr>))"

section \<open>The package \<open>pkg/logger\<close>\<close>

record Logger =
  writer :: writer_id
  debug :: bool
  json :: bool
  processName :: string
  pid :: string
  serverName :: string
  host :: string
  userName :: string

text \<open>\<open>os.Args[0]\<close>, the process id and the user (\<open>None\<close> where it is not known) are arguments.\<close>

definition NewLogger ::
  "string \<Rightarrow> int \<Rightarrow> string option \<Rightarrow> writer_id \<Rightarrow> bool \<Rightarrow> bool \<Rightarrow> string \<Rightarrow> (error + Logger) io" where
  "NewLogger arg0 process user wr dbg js server = do {
     h \<leftarrow> os_Hostname;
     case h of
       Inl err \<Rightarrow> return (Inl err)
     | Inr hname \<Rightarrow>
         return (Inr \<lparr>writer = wr, debug = dbg, json = js, processName = arg0, pid = Itoa process,
                      serverName = server, host = hname,
                      userName = (case user of None \<Rightarrow> [] | Some u \<Rightarrow> u)\<rparr>)
   }"

fun level_text :: "level \<Rightarrow> string" where
  "level_text DEBUG = ''DEBUG''"
| "level_text INFO = ''INFO''"
| "level_text ERROR = ''ERROR''"
| "level_text FATAL = ''FATAL''"

definition log_entry :: "Logger \<Rightarrow> string \<Rightarrow> level \<Rightarrow> string \<Rightarrow> (string \<times> string) list" where
  "log_entry l now lv msg =
    [(''message'', msg), (''ibm_datetime'', now), (''loglevel'', level_text lv), (''host'', host l),
     (''ibm_serverName'', serverName l), (''ibm_processName'', processName l),
     (''ibm_processId'', pid l), (''ibm_userName'', userName l), (''type'', ''mq_containerlog'')]"

definition entry_get :: "(string \<times> string) list \<Rightarrow> string \<Rightarrow> string" where
  "entry_get m k = (case map_of m k of Some v \<Rightarrow> v | None \<Rightarrow> ''<nil>'')"

definition log_format :: "Logger \<Rightarrow> (string \<times> string) list \<Rightarrow> string" where
  "log_format l entry =
    (if json l then json_Marshal entry
     else entry_get entry ''ibm_datetime'' @ '' '' @ entry_get entry ''message'' @ [nl])"

text \<open>The text of one call of \<open>log\<close>: \<open>Println\<close> ends the JSON record, the basic format ends itself.\<close>

definition log_text :: "Logger \<Rightarrow> string \<Rightarrow> level \<Rightarrow> string \<Rightarrow> string" where
  "log_text l now lv msg =
    (let s = log_format l (log_entry l now lv msg) in if json l then s @ [nl] else s)"

definition log_Debug :: "string \<Rightarrow> unit io" where
  "log_Debug msg = do {
     d \<leftarrow> ask debug_on;
     js \<leftarrow> ask log_json;
     if d then emit (Log DEBUG (if js then msg else ''DEBUG: '' @ msg)) else return ()
   }"

definition log_Printf :: "string \<Rightarrow> unit io" where
  "log_Printf msg = emit (Log INFO msg)"

definition log_Error :: "string \<Rightarrow> unit io" where
  "log_Error msg = emit (Log ERROR msg)"

definition log_Fatalf :: "string \<Rightarrow> unit io" where
  "log_Fatalf msg = emit (Log FATAL msg)"

definition is_log :: "event \<Rightarrow> bool" where
  "is_log e \<longleftrightarrow> (case e of Log _ _ \<Rightarrow> True | _ \<Rightarrow> False)"

lemma is_log_simps [simp]: "is_log (Log l m)" "\<not> is_log (Exec p a rc)" "\<not> is_log (Wrote q)"
  "\<not> is_log (Removed q)" "\<not> is_log (Spawned s)" "\<not> is_log (Sent s)" "\<not> is_log (Received s)"
  "\<not> is_log (Stdout s)" "\<not> is_log (Stderr s)"
  by (simp_all add: is_log_def)

lemma log_emits [emits_intro]:
  "(\<And>m. E (Log DEBUG m)) \<Longrightarrow> state_io_rel (emits E) (log_Debug msg)"
  "(\<And>m. E (Log INFO m)) \<Longrightarrow> state_io_rel (emits E) (log_Printf msg)"
  "(\<And>m. E (Log ERROR m)) \<Longrightarrow> state_io_rel (emits E) (log_Error msg)"
  "(\<And>m. E (Log FATAL m)) \<Longrightarrow> state_io_rel (emits E) (log_Fatalf msg)"
  unfolding log_Debug_def log_Printf_def log_Error_def log_Fatalf_def
  by (intro emits_intro; assumption)+

lemma run_log [simp]:
  "run_state (log_Printf msg) w = ((), w\<lparr>trace := trace w @ [Log INFO msg]\<rparr>)"
  "run_state (log_Error msg) w = ((), w\<lparr>trace := trace w @ [Log ERROR msg]\<rparr>)"
  "run_state (log_Fatalf msg) w = ((), w\<lparr>trace := trace w @ [Log FATAL msg]\<rparr>)"
  by (simp_all add: log_Printf_def log_Error_def log_Fatalf_def)

lemma log_quiet [quiet_intro]:
  "state_io_rel quiet (log_Debug msg)" "state_io_rel quiet (log_Printf msg)"
  "state_io_rel quiet (log_Error msg)" "state_io_rel quiet (log_Fatalf msg)"
  unfolding log_Debug_def log_Printf_def log_Error_def log_Fatalf_def by (intro quiet_intro)+

lemma log_env [env_intro]:
  "state_io_rel same_env (log_Debug msg)" "state_io_rel same_env (log_Printf msg)"
  "state_io_rel same_env (log_Error msg)" "state_io_rel same_env (log_Fatalf msg)"
  unfolding log_Debug_def log_Printf_def log_Error_def log_Fatalf_def by (intro env_intro)+

section \<open>Reading a JSON string\<close>

text \<open>The grammar of JSON strings (RFC 8259), as a reader that stops at the closing quote.\<close>

definition hex_val :: "char \<Rightarrow> nat option" where
  "hex_val c =
    (if is_digit c then Some (of_char c - 48)
     else if CHR ''a'' \<le> c \<and> c \<le> CHR ''f'' then Some (of_char c - 87) else None)"

definition utf8_bmp :: "nat \<Rightarrow> string" where
  "utf8_bmp n =
    (if n < 128 then [char_of n]
     else if n < 2048 then [char_of (192 + n div 64), char_of (128 + n mod 64)]
     else [char_of (224 + n div 4096), char_of (128 + n div 64 mod 64), char_of (128 + n mod 64)])"

definition hex4 :: "char \<Rightarrow> char \<Rightarrow> char \<Rightarrow> char \<Rightarrow> nat option" where
  "hex4 a b c d =
    (case (hex_val a, hex_val b, hex_val c, hex_val d) of
       (Some i, Some j, Some k, Some l) \<Rightarrow> Some (((i * 16 + j) * 16 + k) * 16 + l)
     | _ \<Rightarrow> None)"

definition simple_escape :: "char \<Rightarrow> char option" where
  "simple_escape e =
    (if e = quote \<or> e = bslash \<or> e = CHR ''/'' then Some e
     else if e = CHR ''b'' then Some (CHR 0x08) else if e = CHR ''f'' then Some (CHR 0x0C)
     else if e = CHR ''n'' then Some nl else if e = CHR ''r'' then Some cr
     else if e = CHR ''t'' then Some tab else None)"

fun json_read :: "string \<Rightarrow> (string \<times> string) option" where
  "json_read [] = None"
| "json_read (c # s) =
    (if c = quote then Some ([], s)
     else if c < CHR 0x20 then None
     else if c \<noteq> bslash then map_option (apfst ((#) c)) (json_read s)
     else (case s of
             [] \<Rightarrow> None
           | e # s' \<Rightarrow>
               (case simple_escape e of
                  Some x \<Rightarrow> map_option (apfst ((#) x)) (json_read s')
                | None \<Rightarrow>
                    if e \<noteq> CHR ''u'' then None
                    else (case s' of
                            h1 # h2 # h3 # h4 # s'' \<Rightarrow>
                              (case hex4 h1 h2 h3 h4 of
                                 Some n \<Rightarrow> map_option (apfst ((@) (utf8_bmp n))) (json_read s'')
                               | None \<Rightarrow> None)
                          | _ \<Rightarrow> None))))"

lemma hex_val_digit:
  assumes "i < 16"
  shows "hex_val (hex_digit i) = Some i"
proof -
  have "\<forall>i \<in> set [0..<16]. hex_val (hex_digit i) = Some i" by code_simp
  with assms show ?thesis by simp
qed

lemma append_single: "(@) [b] = (#) b"
  by (rule ext) simp

lemma json_read_escape_byte:
  assumes "b < CHR 0x80"
  shows "json_read (json_escape_byte b @ t) = map_option (apfst ((#) b)) (json_read t)"
proof -
  have n: "of_char b < (128::nat)" using assms by (simp add: less_char_def)
  then have hex: "hex_val (hex_digit (of_char b div 16)) = Some (of_char b div 16)"
    "hex_val (hex_digit (of_char b mod 16)) = Some (of_char b mod 16)"
    by (simp_all add: hex_val_digit)
  have zero: "hex_val (CHR ''0'') = Some 0" by (simp add: hex_val_def is_digit_def)
  have "hex4 (CHR ''0'') (CHR ''0'') (hex_digit (of_char b div 16)) (hex_digit (of_char b mod 16))
      = Some (of_char b)"
    using hex zero by (simp add: hex4_def)
  moreover have "utf8_bmp (of_char b) = [b]" using n by (simp add: utf8_bmp_def)
  ultimately have "json_read ([bslash, CHR ''u'', CHR ''0'', CHR ''0'', hex_digit (of_char b div 16),
      hex_digit (of_char b mod 16)] @ t) = map_option (apfst ((#) b)) (json_read t)"
    by (simp add: simple_escape_def append_single)
  moreover have "json_read ([bslash, e] @ t) = map_option (apfst ((#) b)) (json_read t)"
    if "map_of short_escapes b = Some e" for e
  proof -
    have "list_all (\<lambda>(b, e). simple_escape e = Some b) short_escapes" by code_simp
    with map_of_SomeD [OF that] have "simple_escape e = Some b" by (auto simp: list_all_iff)
    then show ?thesis by simp
  qed
  moreover have "json_read ([b] @ t) = map_option (apfst ((#) b)) (json_read t)"
    if "map_of short_escapes b = None" "\<not> b < CHR 0x20"
    using that by (simp add: short_escapes_def split: if_splits)
  ultimately show ?thesis
    unfolding json_escape_byte_def by (cases "map_of short_escapes b") (simp_all only: option.case split: if_split, blast)
qed

lemma json_read_high:
  "\<forall>c \<in> set r. \<not> c < CHR 0x80 \<Longrightarrow> json_read (r @ t) = map_option (apfst ((@) r)) (json_read t)"
proof (induction r)
  case Nil
  then show ?case by (cases "json_read t") auto
next
  case (Cons c r)
  then have "c \<noteq> quote" "\<not> c < CHR 0x20" "c \<noteq> bslash" by (auto simp: less_char_def)
  with Cons show ?case by (cases "json_read t") auto
qed

lemma json_read_escapes:
  "list_all (\<lambda>(r, e). json_read (e @ t) = map_option (apfst ((@) r)) (json_read t)) json_escapes"
proof -
  have "hex4 (CHR ''2'') (CHR ''0'') (CHR ''2'') (CHR ''8'') = Some 8232"
    "hex4 (CHR ''2'') (CHR ''0'') (CHR ''2'') (CHR ''9'') = Some 8233"
    "utf8_bmp 8232 = [CHR 0xE2, CHR 0x80, CHR 0xA8]"
    "utf8_bmp 8233 = [CHR 0xE2, CHR 0x80, CHR 0xA9]"
    by (simp_all add: hex4_def hex_val_def is_digit_def utf8_bmp_def less_eq_char_def char_of_def bit_iff_odd)
  then show ?thesis by (simp add: json_escapes_def simple_escape_def)
qed

lemma json_read_high_rune:
  assumes "\<forall>c \<in> set r. \<not> c < CHR 0x80"
  shows "json_read (json_high_rune r @ t) = map_option (apfst ((@) r)) (json_read t)"
proof (cases "map_of json_escapes r")
  case None
  then show ?thesis using json_read_high [OF assms] by (simp add: json_high_rune_def)
next
  case (Some e)
  with json_read_escapes [of t] show ?thesis
    by (auto simp: json_high_rune_def list_all_iff dest: map_of_SomeD)
qed

lemma json_read_body: "ValidString s \<Longrightarrow> json_read (json_body s @ quote # rest) = Some (s, rest)"
proof (induction s rule: json_body.induct)
  case 1
  then show ?case by simp
next
  case (2 b s)
  let ?n = "rune_len (b # s)"
  let ?r = "take ?n (b # s)" and ?s' = "drop ?n (b # s)"
  from "2.prems" have n: "?n \<noteq> 0" and v: "ValidString ?s'" by (simp_all split: if_splits)
  show ?case
  proof (cases "b < CHR 0x80")
    case True
    with v have "json_read (json_body s @ quote # rest) = Some (s, rest)" using "2.IH"(1) by simp
    with True show ?thesis by (simp add: json_read_escape_byte)
  next
    case False
    with n v have ih: "json_read (json_body ?s' @ quote # rest) = Some (?s', rest)"
      using "2.IH"(3) by simp
    have high: "\<forall>c \<in> set ?r. \<not> c < CHR 0x80" using rune_bytes_high [OF False] by blast
    have "?r @ ?s' = b # s" by (rule append_take_drop_id)
    with False n ih json_read_high_rune [OF high] show ?thesis
      by (simp del: append_take_drop_id take_Cons' drop_Cons')
  qed
qed

section \<open>Properties of the log records\<close>

lemma hex_digit_printable:
  assumes "i < 16"
  shows "\<not> hex_digit i < CHR 0x20"
proof -
  have "\<forall>i \<in> set [0..<16]. \<not> hex_digit i < CHR 0x20" by code_simp
  with assms show ?thesis by simp
qed

lemma json_escape_byte_printable:
  assumes "b < CHR 0x80" "c \<in> set (json_escape_byte b)"
  shows "\<not> c < CHR 0x20"
proof (cases "map_of short_escapes b")
  case None
  have "of_char b div 16 < (16::nat)" "of_char b mod 16 < (16::nat)"
    using assms(1) by (simp_all add: less_char_def)
  then obtain h1 h2 where h: "hex_digit (of_char b div 16) = h1" "hex_digit (of_char b mod 16) = h2"
    and n: "\<not> h1 < CHR 0x20" "\<not> h2 < CHR 0x20"
    by (simp add: hex_digit_printable)
  from None assms(2) have "c \<in> {bslash, CHR ''u'', CHR ''0'', h1, h2} \<or> c = b \<and> \<not> b < CHR 0x20"
    by (simp add: json_escape_byte_def h split: if_splits) blast
  with n show ?thesis by auto
next
  case (Some e)
  have "list_all (\<lambda>(b, e). \<not> e < CHR 0x20) short_escapes" by code_simp
  with map_of_SomeD [OF Some] have "\<not> e < CHR 0x20" by (auto simp: list_all_iff)
  with Some assms(2) show ?thesis by (auto simp: json_escape_byte_def)
qed

lemma json_high_rune_printable:
  assumes "\<forall>c \<in> set r. \<not> c < CHR 0x80" "c \<in> set (json_high_rune r)"
  shows "\<not> c < CHR 0x20"
proof (cases "map_of json_escapes r")
  case None
  with assms have "\<not> c < CHR 0x80" by (simp add: json_high_rune_def)
  then show ?thesis by (simp add: less_char_def)
next
  case (Some e)
  have "list_all (\<lambda>(r, e). list_all (\<lambda>c. \<not> c < CHR 0x20) e) json_escapes" by code_simp
  with map_of_SomeD [OF Some] have "list_all (\<lambda>c. \<not> c < CHR 0x20) e" by (auto simp: list_all_iff)
  with Some assms(2) show ?thesis by (simp add: json_high_rune_def list_all_iff)
qed

lemma json_rune_error_printable: "c \<in> set json_rune_error \<Longrightarrow> \<not> c < CHR 0x20"
proof -
  have "list_all (\<lambda>c. \<not> c < CHR 0x20) json_rune_error" by code_simp
  then show "c \<in> set json_rune_error \<Longrightarrow> \<not> c < CHR 0x20" by (simp add: list_all_iff)
qed

lemma json_body_printable: "c \<in> set (json_body s) \<Longrightarrow> \<not> c < CHR 0x20"
proof (induction s rule: json_body.induct)
  case 1
  then show ?case by simp
next
  case (2 b s)
  consider (ascii) "b < CHR 0x80" | (bad) "\<not> b < CHR 0x80" "rune_len (b # s) = 0"
    | (high) "\<not> b < CHR 0x80" "rune_len (b # s) \<noteq> 0" by blast
  then show ?case
  proof cases
    case ascii
    with "2.prems" have "c \<in> set (json_escape_byte b) \<or> c \<in> set (json_body s)" by simp
    with ascii "2.IH"(1) show ?thesis using json_escape_byte_printable by blast
  next
    case bad
    with "2.prems" have "c \<in> set json_rune_error \<or> c \<in> set (json_body s)" by simp
    with bad "2.IH"(2) show ?thesis using json_rune_error_printable by blast
  next
    case high
    let ?r = "take (rune_len (b # s)) (b # s)"
    from high "2.prems" have "c \<in> set (json_high_rune ?r) \<or> c \<in> set (json_body (drop (rune_len (b # s)) (b # s)))"
      by simp
    moreover have "\<forall>c \<in> set ?r. \<not> c < CHR 0x80" using rune_bytes_high [OF high(1)] by blast
    ultimately show ?thesis using high "2.IH"(3) json_high_rune_printable by blast
  qed
qed

lemma Join_set: "c \<in> set (Join xs sep) \<Longrightarrow> (\<exists>x \<in> set xs. c \<in> set x) \<or> c \<in> set sep"
  by (induction xs sep rule: Join.induct) auto

lemma Join_member: "\<exists>pre rest. Join (xs @ x # ys) sep = pre @ x @ rest"
proof (induction xs)
  case Nil
  show ?case by (cases ys) (force intro: exI [of _ "[]"])+
next
  case (Cons a xs)
  then obtain pre rest where "Join (xs @ x # ys) sep = pre @ x @ rest" by blast
  then have "Join ((a # xs) @ x # ys) sep = (a @ sep @ pre) @ x @ rest" by (simp add: Join_Cons)
  then show ?case by blast
qed

lemma json_string_printable: "c \<in> set (json_string s) \<Longrightarrow> \<not> c < CHR 0x20"
  unfolding json_string_def using json_body_printable by auto

lemma json_Marshal_printable:
  assumes "c \<in> set (json_Marshal m)"
  shows "\<not> c < CHR 0x20"
proof -
  let ?f = "\<lambda>(k, v). json_string k @ '':'' @ json_string v"
  from assms consider "c \<in> {CHR ''{'', CHR ''}'', CHR '','', CHR '':''}"
    | x where "x \<in> set (sort_key fst m)" "c \<in> set (?f x)"
    unfolding json_Marshal_def using Join_set [of c "map ?f (sort_key fst m)" "'',''"]
    by (simp only: set_append Un_iff set_map) (auto simp del: set_sort)
  then show ?thesis
  proof cases
    case 1
    then show ?thesis by auto
  next
    case 2
    then show ?thesis by (cases x) (auto dest: json_string_printable)
  qed
qed

text \<open>
  C14: a record of the JSON log is exactly one line, whatever the message is: the text ends with a
  line feed and contains no other control character.  The message can be read back from it: where
  the message is valid UTF-8, the record is a text in front, the key \<open>message\<close>, the encoded
  message and a rest, and a reader of JSON strings stops at the end of the encoded message and gets
  the message.  So a message cannot end its record or its field early.
\<close>

theorem json_record_injection_free:
  assumes "json l" and "ValidString msg"
  shows "\<exists>pre rest. log_text l now lv msg = pre @ json_string ''message'' @ '':'' @ [quote] @ json_body msg @ [quote] @ rest @ [nl]
    \<and> (\<forall>c \<in> set (butlast (log_text l now lv msg)). \<not> c < CHR 0x20)
    \<and> json_read (json_body msg @ [quote] @ rest) = Some (msg, rest)"
proof -
  let ?f = "\<lambda>(k, v). json_string k @ '':'' @ json_string v"
  define entry where "entry = log_entry l now lv msg"
  have "(''message'', msg) \<in> set (sort_key fst entry)" by (simp add: entry_def log_entry_def)
  then obtain xs ys where "sort_key fst entry = xs @ (''message'', msg) # ys"
    by (meson split_list)
  then have "map ?f (sort_key fst entry) = map ?f xs @ ?f (''message'', msg) # map ?f ys" by simp
  then obtain pre rest where "Join (map ?f (sort_key fst entry)) '','' = pre @ ?f (''message'', msg) @ rest"
    using Join_member by metis
  then have t: "json_Marshal entry = (''{'' @ pre) @ json_string ''message'' @ '':'' @ [quote] @ json_body msg @ [quote] @ rest @ ''}''"
    unfolding json_Marshal_def by (simp add: json_string_def [of msg])
  have l: "log_text l now lv msg = json_Marshal entry @ [nl]"
    using assms(1) by (simp add: log_text_def log_format_def entry_def)
  show ?thesis
  proof (intro exI conjI)
    show "log_text l now lv msg = (''{'' @ pre) @ json_string ''message'' @ '':'' @ [quote] @ json_body msg @ [quote] @ (rest @ ''}'') @ [nl]"
      unfolding l t by simp
    show "\<forall>c \<in> set (butlast (log_text l now lv msg)). \<not> c < CHR 0x20"
      unfolding l using json_Marshal_printable by simp
    show "json_read (json_body msg @ [quote] @ rest @ ''}'') = Some (msg, rest @ ''}'')"
      using json_read_body [OF assms(2)] by simp
  qed
qed

definition example_logger :: Logger where
  "example_logger = \<lparr>writer = OsStdout, debug = False, json = True, processName = ''runmqserver'',
     pid = ''1'', serverName = ''QM1'', host = ''h'', userName = []\<rparr>"

theorem json_record_injection_free_witness:
  "\<exists>pre rest. log_text example_logger ''T'' INFO (quote # nl # ''x'')
      = pre @ json_string ''message'' @ '':'' @ [quote] @ json_body (quote # nl # ''x'') @ [quote] @ rest @ [nl]
    \<and> json_read (json_body (quote # nl # ''x'') @ [quote] @ rest) = Some (quote # nl # ''x'', rest)"
proof -
  have "json example_logger" by (simp add: example_logger_def)
  moreover have "ValidString (quote # nl # ''x'')" by code_simp
  ultimately show ?thesis using json_record_injection_free by blast
qed

section \<open>Properties of the writers\<close>

text \<open>A writer makes progress when it takes at least one byte or reports an error.\<close>

definition progresses :: "io_Writer \<Rightarrow> bool" where
  "progresses out \<longleftrightarrow> (\<forall>k q. q \<noteq> [] \<longrightarrow> fst (out k q) \<le> length q \<and> (snd (out k q) = None \<longrightarrow> 0 < fst (out k q)))"

lemma Write_loop_complete:
  assumes "progresses out" "length p < fuel"
  shows "\<exists>s err. Write_loop fuel out k p n sent = Some (sent @ s, n + length s, err)
    \<and> prefix s p \<and> (err = None \<longrightarrow> s = p)"
  using assms(2)
proof (induction fuel arbitrary: k p n sent)
  case 0
  then show ?case by simp
next
  case (Suc fuel)
  show ?case
  proof (cases "p = []")
    case True
    then show ?thesis by simp
  next
    case False
    obtain m err where m: "out k p = (m, err)" by (cases "out k p")
    with assms(1) False have le: "m \<le> length p" and pos: "err = None \<Longrightarrow> 0 < m"
      unfolding progresses_def by (metis fst_conv snd_conv)+
    show ?thesis
    proof (cases err)
      case None
      with pos Suc.prems False have "length (drop m p) < fuel" by (cases p) auto
      from Suc.IH [OF this] obtain s err' where
        "Write_loop fuel out (Suc k) (drop m p) (n + m) (sent @ take m p)
          = Some ((sent @ take m p) @ s, n + m + length s, err')"
        "prefix s (drop m p)" "err' = None \<longrightarrow> s = drop m p" by blast
      moreover from this(2) have "prefix (take m p @ s) p"
        by (metis append_take_drop_id same_prefix_prefix)
      ultimately show ?thesis using None False m le
        by (intro exI [of _ "take m p @ s"] exI [of _ err']) (auto simp: min_def)
    next
      case (Some e)
      with False m le show ?thesis by (auto simp: take_is_prefix min_def)
    qed
  qed
qed

text \<open>
  \<open>Write\<close> of a \<open>SyncWriter\<close> returns, and passes on all of the text or stops at an error.
  Over a writer that takes at least one byte in each call or reports an error, at most one call per
  byte is needed; the number it returns is the number of bytes passed on, these are a prefix of the
  text, in order and without repetition, and without an error they are the whole text.
\<close>

theorem SyncWriter_Write_complete:
  assumes "progresses out"
  shows "\<exists>sent err. SyncWriter_Write (Suc (length p)) out p = Some (sent, length sent, err)
    \<and> prefix sent p \<and> (err = None \<longrightarrow> sent = p)"
  using Write_loop_complete [OF assms, of p "Suc (length p)" 0 0 "[]"]
  by (auto simp: SyncWriter_Write_def)

theorem SyncWriter_Write_complete_witness:
  "\<exists>sent err. SyncWriter_Write (Suc (length ''hello'')) (\<lambda>k q. (if k = 0 then 1 else length q, None)) ''hello''
      = Some (sent, length sent, err) \<and> prefix sent ''hello''"
proof -
  have "progresses (\<lambda>k q. (if k = 0 then 1 else length q, None))" by (auto simp: progresses_def Suc_le_eq)
  from SyncWriter_Write_complete [OF this, of "''hello''"] show ?thesis by blast
qed

text \<open>The writers made so far: each is registered under its own output, and the locks in use.\<close>

definition lock_class :: "writer_id \<Rightarrow> writer_id" where
  "lock_class w = (if w = OsStderr then OsStdout else w)"

definition registry_ok :: "registry \<Rightarrow> bool" where
  "registry_ok g \<longleftrightarrow> 0 < nextLock g \<and>
    (\<forall>w s. map_of (syncWriters g) w = Some s \<longrightarrow>
       sw_output s = w \<and> writeLock s < nextLock g \<and> (writeLock s = 0 \<longleftrightarrow> lock_class w = OsStdout)) \<and>
    (\<forall>w s w' s'. map_of (syncWriters g) w = Some s \<longrightarrow> map_of (syncWriters g) w' = Some s' \<longrightarrow>
       (writeLock s = writeLock s' \<longleftrightarrow> lock_class w = lock_class w'))"

lemma lock_class_std: "lock_class w = OsStdout \<longleftrightarrow> w = OsStdout \<or> w = OsStderr"
  by (auto simp: lock_class_def)

lemma For_registered: "For w g = (s, g') \<Longrightarrow> map_of (syncWriters g') w = Some s"
  by (auto simp: For_def Let_def split: option.splits)

lemma For_keeps: "For w g = (s, g') \<Longrightarrow> map_of (syncWriters g) v = Some t \<Longrightarrow> map_of (syncWriters g') v = Some t"
  by (auto simp: For_def Let_def split: option.splits)

lemma registry_ok_insert:
  assumes "registry_ok g"
    and "map_of (syncWriters g') = (map_of (syncWriters g))(w \<mapsto> \<lparr>writeLock = l, sw_output = w\<rparr>)"
    and "nextLock g \<le> nextLock g'" "l < nextLock g'" "l = 0 \<longleftrightarrow> lock_class w = OsStdout"
    and "\<And>v t. map_of (syncWriters g) v = Some t \<Longrightarrow> v \<noteq> w \<Longrightarrow> writeLock t = l \<longleftrightarrow> lock_class v = lock_class w"
  shows "registry_ok g'"
  unfolding registry_ok_def
proof (intro conjI allI impI)
  show "0 < nextLock g'" using assms(4) by simp
next
  fix v t assume v: "map_of (syncWriters g') v = Some t"
  have "sw_output t = v \<and> writeLock t < nextLock g' \<and> (writeLock t = 0 \<longleftrightarrow> lock_class v = OsStdout)"
  proof (cases "v = w")
    case True
    with v assms(2,4,5) show ?thesis by auto
  next
    case False
    with v assms(2) have "map_of (syncWriters g) v = Some t" by simp
    with assms(1,3) show ?thesis unfolding registry_ok_def by fastforce
  qed
  then show "sw_output t = v" "writeLock t < nextLock g'" "writeLock t = 0 \<longleftrightarrow> lock_class v = OsStdout"
    by blast+
next
  fix v t v' t' assume v: "map_of (syncWriters g') v = Some t" "map_of (syncWriters g') v' = Some t'"
  show "writeLock t = writeLock t' \<longleftrightarrow> lock_class v = lock_class v'"
  proof (cases "v = w \<or> v' = w")
    case True
    with v assms(2) assms(6) [of v t] assms(6) [of v' t'] show ?thesis by (auto split: if_splits)
  next
    case False
    with v assms(2) have "map_of (syncWriters g) v = Some t" "map_of (syncWriters g) v' = Some t'" by auto
    with assms(1) show ?thesis unfolding registry_ok_def by blast
  qed
qed

lemma For_ok:
  assumes "For w g = (s, g')" "registry_ok g"
  shows "registry_ok g'"
proof (cases "map_of (syncWriters g) w")
  case (Some t)
  with assms show ?thesis by (auto simp: For_def)
next
  case None
  have pos: "0 < nextLock g" using assms(2) unfolding registry_ok_def by blast
  have old: "writeLock t < nextLock g" "writeLock t = 0 \<longleftrightarrow> lock_class v = OsStdout"
    if "map_of (syncWriters g) v = Some t" for v t
    using that assms(2) unfolding registry_ok_def by blast+
  show ?thesis
  proof (cases "lock_class w = OsStdout")
    case True
    with None assms(1) pos old show ?thesis
      by (intro registry_ok_insert [OF assms(2), of g' w 0]) (auto simp: For_def Let_def lock_class_std lock_class_def)
  next
    case False
    then have "lock_class v = lock_class w \<longleftrightarrow> v = w" for v by (auto simp: lock_class_def split: if_splits)
    with False None assms(1) pos old(1) show ?thesis
      by (intro registry_ok_insert [OF assms(2), of g' w "nextLock g"])
         (auto simp: For_def Let_def lock_class_std dest: less_imp_neq)
  qed
qed

text \<open>
  the lock of a writer is decided by what it writes to and by nothing else.  Two writers asked
  for one after the other share a lock exactly when they are for the same output or both for the
  standard streams, and asking again for an output gives the same writer.  The hypothesis, that the
  registry is one made by earlier calls, holds of the empty registry and is kept by every call.
\<close>

theorem For_locks:
  assumes "registry_ok g" and "For w g = (s, g')" and "For w' g' = (s', g'')"
  shows "(writeLock s = writeLock s' \<longleftrightarrow> lock_class w = lock_class w') \<and> (w = w' \<longrightarrow> s' = s) \<and> registry_ok g''"
proof -
  have "registry_ok g''" using For_ok assms by blast
  moreover have "map_of (syncWriters g'') w = Some s" "map_of (syncWriters g'') w' = Some s'"
    using For_registered For_keeps assms by blast+
  ultimately show ?thesis unfolding registry_ok_def by auto
qed

definition empty_registry :: registry where
  "empty_registry = \<lparr>syncWriters = [], nextLock = 1\<rparr>"

theorem For_locks_witness:
  "writeLock (fst (For OsStdout empty_registry)) = writeLock (fst (For OsStderr (snd (For OsStdout empty_registry))))"
proof -
  have "registry_ok empty_registry" by (simp add: registry_ok_def empty_registry_def)
  from For_locks [OF this, of OsStdout _ _ OsStderr] show ?thesis
    by (metis lock_class_def prod.collapse)
qed

end
