(* ===== verification/MQ_Version.thy ===== *)
theory MQ_Version
  imports Go_OS
begin

text \<open>
  The package \<open>internal/mqversion\<close>: the four-part version numbers of MQ (version, release,
  modification, fix), their text and their order.
\<close>

section \<open>The model\<close>

datatype vrmf = VRMF int int int int

primrec vrmf_parts :: "vrmf \<Rightarrow> int list" where
  "vrmf_parts (VRMF v r m f) = [v, r, m, f]"

text \<open>The method \<open>String\<close>.\<close>

definition vrmf_String :: "vrmf \<Rightarrow> string" where
  "vrmf_String v = Join (map Itoa (vrmf_parts v)) ''.''"

text \<open>The method \<open>compare\<close>: the loop over the four parts.\<close>

fun compare_parts :: "int list \<Rightarrow> int list \<Rightarrow> int" where
  "compare_parts (a # as) (b # bs) = (if a < b then -1 else if a > b then 1 else compare_parts as bs)"
| "compare_parts _ _ = 0"

definition vrmf_compare :: "vrmf \<Rightarrow> vrmf \<Rightarrow> int" where
  "vrmf_compare v to = compare_parts (vrmf_parts v) (vrmf_parts to)"

definition vrmfPartNames :: "string list" where
  "vrmfPartNames = [''version'', ''release'', ''minor'', ''fix'']"

text \<open>The loop of \<open>parseVRMF\<close>, over the index and the parts still to be read.\<close>

fun parse_parts :: "nat \<Rightarrow> string list \<Rightarrow> error + int list" where
  "parse_parts idx [] = Inr []"
| "parse_parts idx (value # values) =
    (let partName = vrmfPartNames ! idx in
     if value = [] then Inl (Errorf (''empty '' @ partName @ '' found in VRMF''))
     else (case Atoi value of
             None \<Rightarrow> Inl (Errorf (''non-numeric '' @ partName @ '' found in VRMF''))
           | Some val \<Rightarrow>
               if val < 0 then Inl (Errorf (''negative '' @ partName @ '' found in VRMF''))
               else if idx = 0 \<and> val = 0 then Inl (Errorf ''zero value for version not allowed'')
               else (case parse_parts (Suc idx) values of
                       Inl e \<Rightarrow> Inl e
                     | Inr vals \<Rightarrow> Inr (val # vals))))"

definition parseVRMF :: "string \<Rightarrow> error + vrmf" where
  "parseVRMF s =
    (let versionParts = Split s (CHR ''.'') in
     if length versionParts \<noteq> 4
     then Inl (Errorf (''incorrect number of parts to version string: expected 4, got ''
                       @ Itoa (int (length versionParts))))
     else (case parse_parts 0 versionParts of
             Inl e \<Rightarrow> Inl e
           | Inr vals \<Rightarrow> Inr (VRMF (vals ! 0) (vals ! 1) (vals ! 2) (vals ! 3))))"

definition Version_Get :: "(error + string) io" where
  "Version_Get = do {
     (mqVersion, rc, err) \<leftarrow> Run ''dspmqver'' [''-b'', ''-f'', ''2''];
     return (case err of
               Some e \<Rightarrow> Inl (Errorf (''Error Getting MQ version: '' @ error_text e))
             | None \<Rightarrow> Inr (TrimSpace mqVersion))
   }"

text \<open>\<open>Compare\<close> returns a number beside its error, and its caller uses both.\<close>

definition Compare :: "string \<Rightarrow> (int \<times> error option) io" where
  "Compare checkVersion = do {
     current \<leftarrow> Version_Get;
     return (case current of
               Inl e \<Rightarrow> (0, Some e)
             | Inr currentVersion \<Rightarrow>
                 (case parseVRMF currentVersion of
                    Inl e \<Rightarrow> (0, Some e)
                  | Inr currentVRMF \<Rightarrow>
                      (case parseVRMF checkVersion of
                         Inl e \<Rightarrow> (0, Some (Errorf (''failed to parse compare version: '' @ error_text e)))
                       | Inr compareVRMF \<Rightarrow> (vrmf_compare currentVRMF compareVRMF, None))))
   }"

section \<open>Parsing and printing\<close>

text \<open>A version \<open>parseVRMF\<close> can return: the parts are not negative, and the first is not 0.\<close>

fun vrmf_ok :: "vrmf \<Rightarrow> bool" where
  "vrmf_ok (VRMF v r m f) \<longleftrightarrow>
    0 < v \<and> 0 \<le> r \<and> 0 \<le> m \<and> 0 \<le> f \<and> v \<le> maxInt64 \<and> r \<le> maxInt64 \<and> m \<le> maxInt64 \<and> f \<le> maxInt64"

lemma parse_parts_length: "parse_parts idx vs = Inr vals \<Longrightarrow> length vals = length vs"
  by (induction idx vs arbitrary: vals rule: parse_parts.induct)
     (auto simp: Let_def split: if_splits option.splits sum.splits)

lemma parse_parts_ok:
  "parse_parts idx vs = Inr vals \<Longrightarrow>
    list_all (\<lambda>v. 0 \<le> v \<and> v \<le> maxInt64) vals \<and> (idx = 0 \<longrightarrow> vals \<noteq> [] \<longrightarrow> 0 < hd vals)"
  by (induction idx vs arbitrary: vals rule: parse_parts.induct)
     (auto simp: Let_def dest: Atoi_range split: if_splits option.splits sum.splits)

lemma parse_parts_Itoa:
  "list_all (\<lambda>v. 0 \<le> v \<and> v \<le> maxInt64) vals \<Longrightarrow> (idx = 0 \<longrightarrow> vals \<noteq> [] \<longrightarrow> 0 < hd vals) \<Longrightarrow>
    parse_parts idx (map Itoa vals) = Inr vals"
proof (induction vals arbitrary: idx)
  case Nil
  then show ?case by simp
next
  case (Cons v vals)
  then have "Atoi (Itoa v) = Some v" by (intro Atoi_Itoa) (auto simp: minInt64_def)
  moreover from this have "Itoa v \<noteq> []" by (auto simp: Atoi_def)
  ultimately show ?case using Cons by (auto simp: Let_def)
qed

lemma Itoa_no_dot: "0 \<le> v \<Longrightarrow> CHR ''.'' \<notin> set (Itoa v)"
  using nat_digits_correct [of "nat v"] by (auto simp: Itoa_def list_all_iff is_digit_def)

lemma parseVRMF_ok: "parseVRMF s = Inr v \<Longrightarrow> vrmf_ok v"
proof -
  assume p: "parseVRMF s = Inr v"
  then obtain vals where l: "length (Split s (CHR ''.'')) = 4" and q: "parse_parts 0 (Split s (CHR ''.'')) = Inr vals"
    and v: "v = VRMF (vals ! 0) (vals ! 1) (vals ! 2) (vals ! 3)"
    by (auto simp: parseVRMF_def Let_def split: if_splits sum.splits)
  from parse_parts_length [OF q] l obtain a b c d where "vals = [a, b, c, d]"
    by (auto simp: numeral_eq_Suc length_Suc_conv)
  with parse_parts_ok [OF q] v show "vrmf_ok v" by simp
qed

lemma parseVRMF_String: "vrmf_ok v \<Longrightarrow> parseVRMF (vrmf_String v) = Inr v"
proof -
  assume ok: "vrmf_ok v"
  obtain a b c d where v: "v = VRMF a b c d" by (cases v)
  let ?vals = "[a, b, c, d]"
  have "Split (Join (map Itoa ?vals) ''.'') (CHR ''.'') = map Itoa ?vals"
    using ok v by (intro Split_Join) (auto simp: Itoa_no_dot)
  moreover have "parse_parts 0 (map Itoa ?vals) = Inr ?vals"
    using ok v by (intro parse_parts_Itoa) auto
  ultimately show "parseVRMF (vrmf_String v) = Inr v"
    by (simp add: parseVRMF_def vrmf_String_def v)
qed

text \<open>
  C32: versions can be printed and read back.  Every version that \<open>parseVRMF\<close> accepts has a
  positive first part and no negative part, and printing such a version and parsing the text
  gives the same version; so \<open>parseVRMF\<close> accepts every well-formed version.
\<close>

theorem parseVRMF_roundtrip:
  "vrmf_ok v \<longleftrightarrow> parseVRMF (vrmf_String v) = Inr v"
  using parseVRMF_String parseVRMF_ok by blast

section \<open>The order of versions\<close>

text \<open>The order the comparison implements: the lexicographic order of the four parts.\<close>

instantiation vrmf :: linorder
begin

definition less_eq_vrmf :: "vrmf \<Rightarrow> vrmf \<Rightarrow> bool" where
  "less_eq_vrmf v w \<longleftrightarrow> vrmf_parts v \<le> vrmf_parts w"

definition less_vrmf :: "vrmf \<Rightarrow> vrmf \<Rightarrow> bool" where
  "less_vrmf v w \<longleftrightarrow> vrmf_parts v < vrmf_parts w"

instance
proof
  fix u v w :: vrmf
  have inj: "vrmf_parts v = vrmf_parts w \<Longrightarrow> v = w" for v w by (cases v; cases w) simp
  show "u < v \<longleftrightarrow> u \<le> v \<and> \<not> v \<le> u" by (auto simp: less_eq_vrmf_def less_vrmf_def)
  show "u \<le> u" by (simp add: less_eq_vrmf_def)
  show "u \<le> v \<Longrightarrow> v \<le> w \<Longrightarrow> u \<le> w" by (auto simp: less_eq_vrmf_def)
  show "u \<le> v \<Longrightarrow> v \<le> u \<Longrightarrow> u = v" by (auto simp: less_eq_vrmf_def intro: inj)
  show "u \<le> v \<or> v \<le> u" by (auto simp: less_eq_vrmf_def)
qed

end

lemma compare_parts_order:
  "length as = length bs \<Longrightarrow>
    (compare_parts as bs = -1 \<longleftrightarrow> as < bs) \<and> (compare_parts as bs = 0 \<longleftrightarrow> as = bs) \<and>
    (compare_parts as bs = 1 \<longleftrightarrow> bs < as)"
  by (induction as bs rule: list_induct2) auto

lemma vrmf_compare_order:
  "(vrmf_compare v w = -1 \<longleftrightarrow> v < w) \<and> (vrmf_compare v w = 0 \<longleftrightarrow> v = w) \<and> (vrmf_compare v w = 1 \<longleftrightarrow> w < v)"
proof -
  have "vrmf_parts v = vrmf_parts w \<longleftrightarrow> v = w" by (cases v; cases w) simp
  moreover have "length (vrmf_parts v) = length (vrmf_parts w)" by (cases v; cases w) simp
  ultimately show ?thesis
    using compare_parts_order by (simp add: vrmf_compare_def less_vrmf_def)
qed

text \<open>
  \<open>compare\<close> decides a total order.  It answers -1, 0 or 1 exactly when the first version is
  less than, equal to or greater than the second one in the lexicographic order of their parts
  (so 9.10 comes after 9.2, which the order of the texts has the other way round).
\<close>

theorem vrmf_compare_spec:
  "vrmf_compare v w = (if v < w then -1 else if v = w then 0 else 1)"
  using vrmf_compare_order [of v w] by (cases v w rule: linorder_cases) auto

lemma Version_Get_emits [emits_intro]:
  "(\<And>rc. E (Exec ''dspmqver'' [''-b'', ''-f'', ''2''] rc)) \<Longrightarrow> state_io_rel (emits E) Version_Get"
  unfolding Version_Get_def by (intro emits_intro)

lemma Compare_emits [emits_intro]:
  "(\<And>rc. E (Exec ''dspmqver'' [''-b'', ''-f'', ''2''] rc)) \<Longrightarrow> state_io_rel (emits E) (Compare v)"
  unfolding Compare_def by (intro emits_intro)

end
