(* ===== verification/Queue_Manager_Config.thy ===== *)
theory Queue_Manager_Config
  imports Go_OS Logger
begin

text \<open>
  Where the queue manager's name and directories come from: the packages \<open>pkg/name\<close> (the name),
  \<open>pkg/mqini\<close> (the stanza that \<open>dspmqinf\<close> prints), and \<open>replaceCharsInQMName\<close> and
  \<open>getQueueManagerDataDir\<close> of \<open>cmd/runmqserver/qmgr.go\<close>.
\<close>

section \<open>The package \<open>pkg/name\<close>\<close>

text \<open>The characters outside the class \<open>[^a-zA-Z0-9._%/]\<close>.\<close>

definition qm_name_char :: "char \<Rightarrow> bool" where
  "qm_name_char c \<longleftrightarrow>
    c \<in> set ''._%/'' \<or>
    list_ex (\<lambda>(lo, hi). lo \<le> c \<and> c \<le> hi) [(CHR ''a'', CHR ''z''), (CHR ''A'', CHR ''Z''), (CHR ''0'', CHR ''9'')]"

definition sanitizeQueueManagerName :: "string \<Rightarrow> string" where
  "sanitizeQueueManagerName name = filter qm_name_char name"

definition GetQueueManagerName :: "(error + string) io" where
  "GetQueueManagerName = do {
     name \<leftarrow> os_LookupEnv ''MQ_QMGR_NAME'';
     if name = None \<or> name = Some [] then do {
       h \<leftarrow> os_Hostname;
       return (case h of Inl err \<Rightarrow> Inl err | Inr n \<Rightarrow> Inr (sanitizeQueueManagerName n))
     } else return (Inr (the name))
   }"

section \<open>The package \<open>pkg/mqini\<close>\<close>

record QueueManager =
  Name :: string
  Prefix :: string
  Directory :: string
  DataPath :: string
  InstallationName :: string

definition empty_QueueManager :: QueueManager where
  "empty_QueueManager = \<lparr>Name = [], Prefix = [], Directory = [], DataPath = [], InstallationName = []\<rparr>"

text \<open>
  The lines of a \<open>bufio.Scanner\<close> with its default split function: cut at line feeds, a carriage
  return at the end of a line dropped, no empty last line.  A line longer than the scanner's buffer
  (64 KiB) ends the scan with an error.
\<close>

definition drop_cr :: "string \<Rightarrow> string" where
  "drop_cr l = (if l \<noteq> [] \<and> last l = cr then butlast l else l)"

definition scan_lines :: "string \<Rightarrow> string list" where
  "scan_lines s = (let ls = Split s nl in map drop_cr (if last ls = [] then butlast ls else ls))"

text \<open>
  One line of a stanza.  A line that starts with a known keyword and has no \<open>=\<close> makes the program
  panic (the index 1 is out of range), which is \<open>None\<close>.
\<close>

definition stanza_line :: "string \<Rightarrow> QueueManager \<Rightarrow> QueueManager option" where
  "stanza_line line qm =
    (let t = Split (TrimSpace line) (CHR ''='') in
     if hd t \<in> {''Name'', ''Prefix'', ''Directory'', ''DataPath'', ''InstallationName''}
     then (if length t < 2 then None
           else Some (if hd t = ''Name'' then qm\<lparr>Name := t ! 1\<rparr>
                      else if hd t = ''Prefix'' then qm\<lparr>Prefix := t ! 1\<rparr>
                      else if hd t = ''Directory'' then qm\<lparr>Directory := t ! 1\<rparr>
                      else if hd t = ''DataPath'' then qm\<lparr>DataPath := t ! 1\<rparr>
                      else qm\<lparr>InstallationName := t ! 1\<rparr>))
     else Some qm)"

fun stanza_lines :: "string list \<Rightarrow> QueueManager \<Rightarrow> QueueManager option" where
  "stanza_lines [] qm = Some qm"
| "stanza_lines (l # ls) qm = (case stanza_line l qm of None \<Rightarrow> None | Some qm' \<Rightarrow> stanza_lines ls qm')"

definition getQueueManagerFromStanza :: "string \<Rightarrow> QueueManager option" where
  "getQueueManagerFromStanza stanza = stanza_lines (scan_lines stanza) empty_QueueManager"

text \<open>\<open>None\<close> is a panic in \<open>getQueueManagerFromStanza\<close>.\<close>

definition GetQueueManager :: "string \<Rightarrow> (error + QueueManager) option io" where
  "GetQueueManager name = do {
     st \<leftarrow> os_Stat ''/var/mqm/mqs.ini'';
     case st of
       Inl err \<Rightarrow> return (Some (Inl (Errorf ''dspmqinf should not be run before crtmqdir'')))
     | Inr _ \<Rightarrow> do {
         (out, rc, err) \<leftarrow> Run ''dspmqinf'' [''-o'', ''stanza'', name];
         return (case err of
                   Some e \<Rightarrow> Some (Inl e)
                 | None \<Rightarrow> map_option Inr (getQueueManagerFromStanza out))
       }
   }"

definition GetDataDirectory :: "QueueManager \<Rightarrow> string" where
  "GetDataDirectory qm =
    (if DataPath qm \<noteq> [] then DataPath qm
     else CleanPath [Prefix qm, ''qmgrs'', Directory qm])"

definition GetErrorLogDirectory :: "QueueManager \<Rightarrow> string" where
  "GetErrorLogDirectory qm = CleanPath [GetDataDirectory qm, ''errors'']"

section \<open>The data directory\<close>

definition replaceCharsInQMName :: "string \<Rightarrow> string" where
  "replaceCharsInQMName qmname =
    (let r = (if Contains qmname ''.'' then ReplaceAll qmname ''.'' ''!'' else qmname)
     in if Contains r ''/'' then ReplaceAll r ''/'' ''&'' else r)"

definition getQueueManagerDataDir :: "(string \<times> string) list \<Rightarrow> string \<Rightarrow> string" where
  "getQueueManagerDataDir mounts name =
    (if map_of mounts ''/mnt/mqm-data'' \<noteq> None then CleanPath [''/mnt/mqm-data/qmgrs'', name]
     else CleanPath [''/var/mqm/qmgrs'', name])"

section \<open>Properties\<close>

lemma GetQueueManagerName_emits [emits_intro]: "state_io_rel (emits E) GetQueueManagerName"
  unfolding GetQueueManagerName_def by (intro emits_intro)

lemma GetQueueManager_emits [emits_intro]:
  "(\<And>a rc. E (Exec ''dspmqinf'' a rc)) \<Longrightarrow> state_io_rel (emits E) (GetQueueManager name)"
  unfolding GetQueueManager_def by (intro emits_intro)

lemma Contains_char: "Contains s [c] \<longleftrightarrow> c \<in> set s"
  by (auto simp: Contains_def sublist_def in_set_conv_decomp)

lemma replaceChars_map:
  "replaceCharsInQMName n = map (\<lambda>c. if c = CHR ''.'' then CHR ''!'' else if c = CHR ''/'' then CHR ''&'' else c) n"
proof -
  have 1: "(if Contains s [c] then ReplaceAll s [c] [d] else s) = map (\<lambda>x. if x = c then d else x) s"
    for s c d by (auto simp: Contains_char ReplaceAll_char_char intro: map_idI [symmetric])
  show ?thesis
    unfolding replaceCharsInQMName_def 1 Let_def by simp
qed

text \<open>The name of the queue manager's directory, as the single element it is.\<close>

lemma replaceChars_no_slash: "slash \<notin> set (replaceCharsInQMName n)"
  by (auto simp: replaceChars_map split: if_splits)

lemma replaceChars_plain:
  assumes "n \<noteq> []"
  shows "plain_elem (replaceCharsInQMName n)"
proof -
  have "CHR ''.'' \<notin> set (replaceCharsInQMName n)" by (auto simp: replaceChars_map split: if_splits)
  moreover have "replaceCharsInQMName n \<noteq> []" using assms by (simp add: replaceChars_map)
  ultimately show ?thesis using replaceChars_no_slash by (auto simp: plain_elem_def)
qed

lemma replaceChars_inj:
  assumes "list_all qm_name_char n" "list_all qm_name_char n'"
    and "replaceCharsInQMName n = replaceCharsInQMName n'"
  shows "n = n'"
  using assms unfolding replaceChars_map
proof (induction n arbitrary: n')
  case Nil
  then show ?case by simp
next
  case (Cons c n)
  then obtain d m where n': "n' = d # m" by (cases n') auto
  have "\<not> qm_name_char (CHR ''!'')" "\<not> qm_name_char (CHR ''&'')"
    by (simp_all add: qm_name_char_def less_eq_char_def)
  with Cons n' show ?case by (auto split: if_splits)
qed

definition qmgrs_dir :: "(string \<times> string) list \<Rightarrow> string list" where
  "qmgrs_dir mounts = (if map_of mounts ''/mnt/mqm-data'' \<noteq> None then [''mnt'', ''mqm-data'', ''qmgrs'']
                       else [''var'', ''mqm'', ''qmgrs''])"

lemma dataDir_plain:
  assumes "plain_elem e"
  shows "getQueueManagerDataDir mounts e = abs_path (qmgrs_dir mounts @ [e])"
proof -
  have "comps ''/mnt/mqm-data/qmgrs'' = [''mnt'', ''mqm-data'', ''qmgrs'']"
    "comps ''/var/mqm/qmgrs'' = [''var'', ''mqm'', ''qmgrs'']"
    "IsAbs ''/mnt/mqm-data/qmgrs''" "IsAbs ''/var/mqm/qmgrs''" by code_simp+
  with assms show ?thesis
    by (simp add: getQueueManagerDataDir_def qmgrs_dir_def CleanPath_abs part_elems_single)
qed

lemma qmgrs_dir_plain: "list_all plain_elem (qmgrs_dir mounts)"
  by (simp add: qmgrs_dir_def plain_elem_def)

text \<open>
  every queue manager has a data directory of its own.  For names made of the characters MQ
  allows, the data directory is a direct child of the directory of all queue managers (on the data
  volume when it is mounted), and two queue managers with the same data directory have the same
  name: replacing \<open>.\<close> and \<open>/\<close> loses nothing.
\<close>

theorem dataDir_separate:
  assumes "n \<noteq> []" "n' \<noteq> []" and "list_all qm_name_char n" "list_all qm_name_char n'"
  shows "getQueueManagerDataDir mounts (replaceCharsInQMName n)
      = abs_path (qmgrs_dir mounts @ [replaceCharsInQMName n])
    \<and> (getQueueManagerDataDir mounts (replaceCharsInQMName n)
         = getQueueManagerDataDir mounts (replaceCharsInQMName n') \<longrightarrow> n = n')"
proof (intro conjI impI)
  show d: "getQueueManagerDataDir mounts (replaceCharsInQMName n)
      = abs_path (qmgrs_dir mounts @ [replaceCharsInQMName n])"
    using assms(1) by (intro dataDir_plain replaceChars_plain)
  assume "getQueueManagerDataDir mounts (replaceCharsInQMName n)
    = getQueueManagerDataDir mounts (replaceCharsInQMName n')"
  then have "qmgrs_dir mounts @ [replaceCharsInQMName n] = qmgrs_dir mounts @ [replaceCharsInQMName n']"
    using assms(1,2) d
    by (intro abs_path_inj) (simp_all add: dataDir_plain replaceChars_plain qmgrs_dir_plain)
  then show "n = n'" using replaceChars_inj assms(3,4) by simp
qed

theorem dataDir_separate_witness:
  "getQueueManagerDataDir [] (replaceCharsInQMName ''A.B/C'') = ''/var/mqm/qmgrs/A!B&C''"
  using dataDir_separate [of "''A.B/C''" "''A.B/C''" "[]"] by code_simp

text \<open>Which stanzas make the parser panic.\<close>

definition stanza_keywords :: "string list" where
  "stanza_keywords = [''Name'', ''Prefix'', ''Directory'', ''DataPath'', ''InstallationName'']"

lemma Split_hd_single: "length (Split s c) < 2 \<Longrightarrow> hd (Split s c) = s"
proof -
  assume "length (Split s c) < 2"
  moreover obtain y ys where "Split s c = y # ys" by (cases "Split s c") auto
  ultimately have "Split s c = [y]" by simp
  then show ?thesis by (metis Join.simps(2) Join_Split list.sel(1))
qed

lemma stanza_line_None: "stanza_line l qm = None \<longleftrightarrow> TrimSpace l \<in> set stanza_keywords"
proof -
  have "stanza_line l qm = None \<longleftrightarrow>
    hd (Split (TrimSpace l) (CHR ''='')) \<in> set stanza_keywords \<and> length (Split (TrimSpace l) (CHR ''='')) < 2"
    by (simp add: stanza_line_def Let_def stanza_keywords_def)
  moreover have "length (Split k (CHR ''='')) < 2" if "k \<in> set stanza_keywords" for k
    using that by (auto simp: stanza_keywords_def)
  moreover have "hd (Split k (CHR ''='')) = k" if "k \<in> set stanza_keywords" for k
    using that by (auto simp: stanza_keywords_def)
  ultimately show ?thesis using Split_hd_single by metis
qed

lemma stanza_lines_None: "stanza_lines ls qm = None \<longleftrightarrow> (\<exists>l \<in> set ls. TrimSpace l \<in> set stanza_keywords)"
proof (induction ls arbitrary: qm)
  case Nil
  then show ?case by simp
next
  case (Cons l ls)
  then show ?case
    by (cases "stanza_line l qm") (auto simp: stanza_line_None [symmetric, of l qm])
qed

text \<open>A stanza as \<open>dspmqinf -o stanza\<close> prints it.\<close>

definition print_stanza :: "QueueManager \<Rightarrow> string" where
  "print_stanza qm = Join
    [''QueueManager:'', ''   Name='' @ Name qm, ''   Directory='' @ Directory qm,
     ''   Prefix='' @ Prefix qm, ''   InstallationName='' @ InstallationName qm,
     ''   DataPath='' @ DataPath qm, []] [nl]"

definition stanza_value :: "string \<Rightarrow> bool" where
  "stanza_value v \<longleftrightarrow> TrimSpace v = v \<and> nl \<notin> set v \<and> cr \<notin> set v \<and> CHR ''='' \<notin> set v"

lemma stanza_line_value:
  assumes "stanza_value v" "k \<in> set stanza_keywords"
  shows "Split (TrimSpace (CHR '' '' # CHR '' '' # CHR '' '' # k @ CHR ''='' # v)) (CHR ''='') = [k, v]"
proof -
  have "CHR ''='' \<notin> set (concat space_seqs)" by (simp add: space_seqs_def)
  moreover have "starts_with_any space_seqs (k @ CHR ''='' # v) = None"
    using assms(2) by (auto simp: stanza_keywords_def starts_with_any_None space_seqs_def)
  ultimately have "TrimSpace (k @ CHR ''='' # v) = k @ CHR ''='' # v"
    using assms(1) by (intro TrimSpace_prefixed) (simp_all add: stanza_value_def)
  moreover have "CHR ''='' \<notin> set k" using assms(2) by (auto simp: stanza_keywords_def)
  ultimately show ?thesis using assms(1) by (simp add: Split_append Split_no_sep stanza_value_def)
qed

lemma drop_cr_id: "cr \<notin> set l \<Longrightarrow> drop_cr l = l"
  by (metis drop_cr_def last_in_set)

lemma scan_lines_Join:
  assumes "ls \<noteq> []" "\<forall>l \<in> set ls. nl \<notin> set l \<and> cr \<notin> set l"
  shows "scan_lines (Join (ls @ [[]]) [nl]) = ls"
proof -
  have "Split (Join (ls @ [[]]) [nl]) nl = ls @ [[]]" using assms by (intro Split_Join) auto
  moreover have "map drop_cr ls = ls" using assms(2) by (intro map_idI) (auto simp: drop_cr_id)
  ultimately show ?thesis by (simp add: scan_lines_def)
qed

lemma stanza_field:
  assumes "stanza_value v"
  shows "stanza_line (''   Name='' @ v) qm = Some (qm\<lparr>Name := v\<rparr>)"
    and "stanza_line (''   Directory='' @ v) qm = Some (qm\<lparr>Directory := v\<rparr>)"
    and "stanza_line (''   Prefix='' @ v) qm = Some (qm\<lparr>Prefix := v\<rparr>)"
    and "stanza_line (''   InstallationName='' @ v) qm = Some (qm\<lparr>InstallationName := v\<rparr>)"
    and "stanza_line (''   DataPath='' @ v) qm = Some (qm\<lparr>DataPath := v\<rparr>)"
  using stanza_line_value [OF assms, of "''Name''"] stanza_line_value [OF assms, of "''Directory''"]
    stanza_line_value [OF assms, of "''Prefix''"] stanza_line_value [OF assms, of "''InstallationName''"]
    stanza_line_value [OF assms, of "''DataPath''"]
  by (simp_all add: stanza_line_def stanza_keywords_def)


definition example_QueueManager :: QueueManager where
  "example_QueueManager = \<lparr>Name = ''QM1'', Prefix = ''/var/mqm'', Directory = ''QM1'',
     DataPath = ''/mnt/mqm-data/qmgrs/QM1'', InstallationName = ''Installation1''\<rparr>"


end
