(* ===== verification/Ready.thy ===== *)
theory Ready
  imports Queue_Manager_Config
begin

text \<open>
  The readiness state of the container: the package \<open>internal/ready\<close> and the probes
  \<open>cmd/chkmqready\<close>, \<open>cmd/chkmqstarted\<close> and \<open>cmd/chkmqhealthy\<close>, whose exit codes Kubernetes
  reads.
\<close>

section \<open>The package \<open>internal/ready\<close>\<close>

definition readyFile :: string where
  "readyFile = ''/run/runmqserver/ready''"

definition readyToSyncFile :: string where
  "readyToSyncFile = ''/run/runmqserver/ready-to-sync''"

definition fileExists :: "string \<Rightarrow> (error + bool) io" where
  "fileExists fileName = do {
     r \<leftarrow> os_Stat fileName;
     return (case r of
               Inl err \<Rightarrow> if \<not> IsNotExist err then Inl err else Inr False
             | Inr _ \<Rightarrow> Inr True)
   }"

definition clearFile :: "string \<Rightarrow> (error + unit) io" where
  "clearFile fileName = do {
     exist \<leftarrow> fileExists fileName;
     case exist of
       Inl err \<Rightarrow> return (Inl err)
     | Inr ex \<Rightarrow> if ex then os_Remove fileName else return (Inr ())
   }"

definition Clear :: "(error + unit) io" where
  "Clear = do {
     r \<leftarrow> clearFile readyFile;
     case r of
       Inl err \<Rightarrow> return (Inl err)
     | Inr _ \<Rightarrow> clearFile readyToSyncFile
   }"

definition Ready_Set :: "(error + unit) io" where
  "Ready_Set = os_WriteFile readyFile ''1''"

definition Check :: "(error + bool) io" where
  "Check = fileExists readyFile"

definition SetReadyToSync :: "(error + unit) io" where
  "SetReadyToSync = do {
     exists \<leftarrow> fileExists readyToSyncFile;
     case exists of
       Inl err \<Rightarrow> return (Inl err)
     | Inr ex \<Rightarrow>
         if ex then return (Inr ())
         else do {
           now \<leftarrow> time_Now_Unix;
           os_WriteFile readyToSyncFile (Itoa now)
         }
   }"

text \<open>\<open>Some t\<close> is \<open>(true, t)\<close> and \<open>None\<close> is \<open>(false, time.Time{})\<close>.\<close>

definition GetReadyToSyncStartTime :: "(error + int option) io" where
  "GetReadyToSyncStartTime = do {
     exists \<leftarrow> fileExists readyToSyncFile;
     case exists of
       Inl err \<Rightarrow> return (Inl err)
     | Inr ex \<Rightarrow>
         if ex then do {
           buf \<leftarrow> os_ReadFile readyToSyncFile;
           return (case buf of
                     Inl err \<Rightarrow> Inl err
                   | Inr b \<Rightarrow>
                       (case Atoi b of
                          None \<Rightarrow> Inl (num_error ''ParseInt'' b)
                        | Some t \<Rightarrow> Inr (Some t)))
         } else return (Inr None)
   }"

datatype QMStatus = StatusUnknown | StatusActiveQM | StatusStandbyQM | StatusReplicaQM | StatusRecoveryQM

definition status_of_output :: "string \<Rightarrow> QMStatus" where
  "status_of_output out =
    (if Contains out ''(RUNNING)'' then StatusActiveQM
     else if Contains out ''(RUNNING AS STANDBY)'' then StatusStandbyQM
     else if Contains out ''(REPLICA)'' then StatusStandbyQM
     else if Contains out ''(RECOVERY GROUP LEADER)'' then StatusRecoveryQM
     else StatusUnknown)"

definition Status :: "string \<Rightarrow> (error + QMStatus) io" where
  "Status name = do {
     (out, rc, err) \<leftarrow> RunContext ''dspmq'' [''-n'', ''-m'', name];
     return (case err of Some e \<Rightarrow> Inl e | None \<Rightarrow> Inr (status_of_output out))
   }"

definition StandbyQM :: "QMStatus \<Rightarrow> bool" where
  "StandbyQM s \<longleftrightarrow> s = StatusStandbyQM"

section \<open>The probe \<open>chkmqready\<close>\<close>

text \<open>The first error of \<open>dial\<close> is the one of \<open>net.Dial\<close>, the second one that of closing.\<close>

definition checkPort :: "string \<Rightarrow> (bool \<times> error option) io" where
  "checkPort address = do {
     (dialErr, closeErr) \<leftarrow> ask (\<lambda>w. dial w (calls w) address);
     upd (\<lambda>w. w\<lparr>calls := Suc (calls w)\<rparr>);
     return (case dialErr of Some e \<Rightarrow> (False, Some e) | None \<Rightarrow> (True, closeErr))
   }"

definition chkmqready :: "int io" where
  "chkmqready = do {
     r \<leftarrow> Check;
     case r of
       Inl err \<Rightarrow> return 1
     | Inr False \<Rightarrow> return 1
     | Inr True \<Rightarrow> do {
         n \<leftarrow> GetQueueManagerName;
         case n of
           Inl err \<Rightarrow> do { emit (Stdout (error_text err)); return 1 }
         | Inr name \<Rightarrow> do {
             status \<leftarrow> Status name;
             case status of
               Inl err \<Rightarrow> return 1
             | Inr StatusActiveQM \<Rightarrow> do {
                 (portOpen, perr) \<leftarrow> checkPort ''127.0.0.1:1414'';
                 (case perr of None \<Rightarrow> return () | Some e \<Rightarrow> emit (Stdout (error_text e)));
                 return (if \<not> portOpen then 1 else 0)
               }
             | Inr StatusRecoveryQM \<Rightarrow> do {
                 emit (Stdout ''Detected queue manager running as recovery leader''); return 0 }
             | Inr StatusStandbyQM \<Rightarrow> do {
                 emit (Stdout ''Detected queue manager running in standby mode''); return 10 }
             | Inr StatusReplicaQM \<Rightarrow> do {
                 emit (Stdout ''Detected queue manager running in replica mode''); return 20 }
             | Inr StatusUnknown \<Rightarrow> return 1
           }
       }
   }"

section \<open>The probe \<open>chkmqhealthy\<close>\<close>

definition readyStrings :: "string list" where
  "readyStrings =
    [''(RUNNING)'', ''(RUNNING AS STANDBY)'', ''(RECOVERY GROUP LEADER)'', ''(STARTING)'', ''(REPLICA)'']"

definition shows_ready :: "string \<Rightarrow> bool" where
  "shows_ready out \<longleftrightarrow> list_ex (Contains out) readyStrings"

definition queueManagerHealthy :: "(error + bool) io" where
  "queueManagerHealthy = do {
     n \<leftarrow> GetQueueManagerName;
     case n of
       Inl err \<Rightarrow> return (Inl err)
     | Inr name \<Rightarrow> do {
         (out, rc, err) \<leftarrow> exec_CombinedOutput ''dspmq'' [''-n'', ''-m'', name];
         emit (Stdout out);
         case err of
           Some e \<Rightarrow> do { emit (Stdout (error_text e)); return (Inl e) }
         | None \<Rightarrow> return (Inr (shows_ready out))
       }
   }"

text \<open>The exit code that \<open>doMain\<close> of this probe and of \<open>chkmqstarted\<close> make of their result.\<close>

definition probe_exit :: "error + bool \<Rightarrow> int" where
  "probe_exit r = (case r of Inl err \<Rightarrow> 2 | Inr ok \<Rightarrow> if \<not> ok then 1 else 0)"

definition chkmqhealthy :: "int io" where
  "chkmqhealthy = do { r \<leftarrow> queueManagerHealthy; return (probe_exit r) }"

section \<open>The probe \<open>chkmqstarted\<close>\<close>

text \<open>The results are ready-to-sync and in-sync.\<close>

definition isInSyncWithReplicas :: "string \<Rightarrow> (error + bool \<times> bool) io" where
  "isInSyncWithReplicas name = do {
     (out, rc, err) \<leftarrow> exec_CombinedOutput ''dspmq'' [''-n'', ''-o'', ''nativeha'', ''-m'', name];
     return (case err of
               Some e \<Rightarrow> Inl e
             | None \<Rightarrow> if Contains out ''INSYNC(YES)'' then Inr (True, True)
                        else Inr (shows_ready out, False))
   }"

text \<open>Subtraction of 64-bit integers wraps around.\<close>

definition wrap64 :: "int \<Rightarrow> int" where
  "wrap64 v = (v + 2 ^ 63) mod 2 ^ 64 - 2 ^ 63"

definition hasInSyncTimePeriodExpired :: "(error + bool) io" where
  "hasInSyncTimePeriodExpired = do {
     customTimeout \<leftarrow> os_Getenv ''MQ_NATIVE_HA_IN_SYNC_TIMEOUT'';
     case (if customTimeout \<noteq> [] then Atoi customTimeout else Some 5) of
       None \<Rightarrow> return (Inl (num_error ''ParseInt'' customTimeout))
     | Some timeout \<Rightarrow> do {
         start \<leftarrow> GetReadyToSyncStartTime;
         case start of
           Inl err \<Rightarrow> return (Inl err)
         | Inr None \<Rightarrow> return (Inr False)
         | Inr (Some t) \<Rightarrow> do {
             now \<leftarrow> time_Now_Unix;
             return (Inr (wrap64 (now - t) \<ge> timeout))
           }
       }
   }"

definition queueManagerStarted :: "(error + bool) io" where
  "queueManagerStarted = do {
     n \<leftarrow> GetQueueManagerName;
     case n of
       Inl err \<Rightarrow> return (Inl err)
     | Inr name \<Rightarrow> do {
         nativeHA \<leftarrow> os_Getenv ''MQ_NATIVE_HA'';
         if nativeHA = ''true'' then do {
           s \<leftarrow> isInSyncWithReplicas name;
           case s of
             Inl err \<Rightarrow> return (Inl err)
           | Inr (isReadyToSync, isInSync) \<Rightarrow>
               if isInSync then return (Inr True)
               else if \<not> isReadyToSync then return (Inr False)
               else do {
                 r \<leftarrow> SetReadyToSync;
                 case r of
                   Inl err \<Rightarrow> return (Inl err)
                 | Inr _ \<Rightarrow> hasInSyncTimePeriodExpired
               }
         } else do {
           (out, rc, err) \<leftarrow> exec_CombinedOutput ''dspmq'' [''-n'', ''-m'', name];
           case err of
             Some e \<Rightarrow> do { emit (Stdout (error_text e)); return (Inl e) }
           | None \<Rightarrow> return (Inr (shows_ready out))
         }
       }
   }"

definition chkmqstarted :: "int io" where
  "chkmqstarted = do { r \<leftarrow> queueManagerStarted; return (probe_exit r) }"

section \<open>Properties of the readiness state\<close>

lemma Clean_ready: "Clean readyFile = readyFile" "Clean readyToSyncFile = readyToSyncFile"
  "readyFile \<noteq> ''/''" "readyToSyncFile \<noteq> ''/''" "readyFile \<noteq> readyToSyncFile"
  by code_simp+

lemma fileExists_run:
  "run_state (fileExists p) w =
    ((case fault_of w ''stat'' p of
        Some e \<Rightarrow> Inl (PathError ''stat'' p e)
      | None \<Rightarrow> (case fs_stat (files w) p of
                    Inl e \<Rightarrow> if e \<noteq> ENOENT then Inl (PathError ''stat'' p e) else Inr False
                  | Inr _ \<Rightarrow> Inr True)),
     w\<lparr>calls := Suc (calls w)\<rparr>)"
  by (auto simp: fileExists_def os_Stat_def query_run split: option.split sum.split)

lemma clearFile_clears:
  assumes "run_state (clearFile p) w = (Inr u, w')" "Clean p \<noteq> ''/''"
  shows "fs_stat (files w') p = Inl ENOENT \<and> (files w' = files w \<or> files w' = fs_drop (files w) (Clean p))"
proof -
  from assms(1) consider "fs_stat (files w) p = Inl ENOENT" "files w' = files w"
    | "run_state (os_Remove p) (w\<lparr>calls := Suc (calls w)\<rparr>) = (Inr u, w')"
    by (auto simp: clearFile_def fileExists_run split: option.splits sum.splits if_splits)
  then show ?thesis
  proof cases
    case 1
    then show ?thesis by simp
  next
    case 2
    then have r: "fs_remove (files w) p = Inr (files w')"
      by (auto simp: os_Remove_def dest: change_run_Inr)
    then have "files w' = fs_drop (files w) (Clean p)"
      by (auto simp: fs_remove_def Let_def split: option.splits inode.splits if_splits)
    with fs_remove_stat [OF r assms(2)] show ?thesis by simp
  qed
qed

lemma Clear_clears:
  assumes "run_state Clear w = (Inr u, w')"
  shows "fs_stat (files w') readyFile = Inl ENOENT \<and> fs_stat (files w') readyToSyncFile = Inl ENOENT"
proof -
  from assms obtain u1 w1 where c: "run_state (clearFile readyFile) w = (Inr u1, w1)"
    "run_state (clearFile readyToSyncFile) w1 = (Inr u, w')"
    by (auto simp: Clear_def split: prod.splits sum.splits)
  from clearFile_clears [OF c(1)] have "fs_stat (files w1) readyFile = Inl ENOENT"
    by (simp add: Clean_ready)
  moreover from clearFile_clears [OF c(2)] have "fs_stat (files w') readyToSyncFile = Inl ENOENT"
    "files w' = files w1 \<or> files w' = fs_drop (files w1) readyToSyncFile"
    by (simp_all add: Clean_ready)
  ultimately show ?thesis using fs_stat_drop Clean_ready by metis
qed

text \<open>
  the readiness file says what the last operation on it was.  After \<open>Clear\<close> has returned
  without an error, \<open>Check\<close> does not report ready and no ready-to-sync time is found; after \<open>Set\<close>
  has returned without an error, \<open>Check\<close> does not report not ready.  (Each can still report an
  error of the file system.)
\<close>

theorem ready_set_clear_check:
  "(run_state Clear w = (Inr u, w') \<longrightarrow>
      result Check w' \<noteq> Inr True \<and> (\<forall>t. result GetReadyToSyncStartTime w' \<noteq> Inr (Some t))) \<and>
   (run_state Ready_Set w = (Inr u, w') \<longrightarrow> result Check w' \<noteq> Inr False)"
proof (intro conjI impI)
  assume "run_state Clear w = (Inr u, w')"
  note c = Clear_clears [OF this]
  then show "result Check w' \<noteq> Inr True"
    by (auto simp: Check_def fileExists_run split: option.splits)
  from c show "\<forall>t. result GetReadyToSyncStartTime w' \<noteq> Inr (Some t)"
    by (auto simp: GetReadyToSyncStartTime_def fileExists_run split: option.splits)
next
  assume "run_state Ready_Set w = (Inr u, w')"
  then have "fs_write (\<lambda>_. ''1'') (files w) readyFile = Inr (files w')"
    unfolding Ready_Set_def os_WriteFile_def by (rule change_run_Inr)
  from fs_write_stat [OF this] show "result Check w' \<noteq> Inr False"
    by (auto simp: Check_def fileExists_run split: option.splits)
qed

definition example_world :: world where
  "example_world = base_world
    \<lparr>env := [(''MQ_QMGR_NAME'', ''QM1'')],
     files := [(''/run'', DirNode), (''/run/runmqserver'', DirNode)],
     programs := (\<lambda>_ _ _ _ f. (Exited ''QMNAME(QM1) STATUS(RUNNING)'' 0, f))\<rparr>"

theorem ready_set_clear_check_witness:
  "result Check (final Ready_Set example_world) \<noteq> Inr False"
proof -
  have "result Ready_Set example_world = Inr ()" by code_simp
  then have "run_state Ready_Set example_world = (Inr (), final Ready_Set example_world)"
    by (metis prod.collapse)
  with ready_set_clear_check [of example_world "()" "final Ready_Set example_world"] show ?thesis by blast
qed

section \<open>Properties of the probes\<close>

lemma GetQueueManagerName_run:
  "run_state GetQueueManagerName w = (x, w') \<Longrightarrow>
    files w' = files w \<and> env w' = env w \<and> programs w' = programs w \<and> dial w' = dial w \<and> trace w' = trace w"
  by (auto simp: GetQueueManagerName_def os_Hostname_def split: if_splits)

lemma status_of_output_cases:
  "status_of_output out = StatusActiveQM \<longleftrightarrow> Contains out ''(RUNNING)''"
  "status_of_output out = StatusRecoveryQM \<Longrightarrow> Contains out ''(RECOVERY GROUP LEADER)''"
  "status_of_output out \<noteq> StatusReplicaQM"
  by (auto simp: status_of_output_def split: if_splits)

lemma Status_run:
  assumes "run_state (Status name) w = (Inr s, w')"
  shows "\<exists>out f'. programs w (calls w) ''dspmq'' [''-n'', ''-m'', name] (env w) (files w) = (Exited out 0, f')
    \<and> s = status_of_output out \<and> dial w' = dial w"
proof -
  from assms obtain out rc where r: "run_state (RunContext ''dspmq'' [''-n'', ''-m'', name]) w = ((out, rc, None), w')"
    and s: "s = status_of_output out"
    by (auto simp: Status_def split: prod.splits option.splits)
  moreover from r have "dial w' = dial w"
    by (auto simp: RunContext_def exec_CombinedOutput_def split: prod.splits)
  ultimately show ?thesis using RunContext_ok [OF r] by blast
qed

lemma chkmqready_steps:
  assumes "result chkmqready w \<noteq> 1"
  obtains i w1 name w2 s w3 where "fs_stat (files w) readyFile = Inr i"
    "run_state GetQueueManagerName w1 = (Inr name, w2)" "files w1 = files w" "env w1 = env w"
    "programs w1 = programs w" "dial w1 = dial w"
    "run_state (Status name) w2 = (Inr s, w3)" "s \<noteq> StatusUnknown"
    "s = StatusActiveQM \<Longrightarrow> fst (dial w3 (calls w3) ''127.0.0.1:1414'') = None"
    "result chkmqready w = (if s = StatusStandbyQM then 10 else if s = StatusReplicaQM then 20 else 0)"
proof -
  let ?w1 = "w\<lparr>calls := Suc (calls w)\<rparr>"
  from assms obtain i where i: "fs_stat (files w) readyFile = Inr i" "result Check w = Inr True" "final Check w = ?w1"
    by (auto simp: chkmqready_def Check_def fileExists_run split: option.splits sum.splits if_splits)
  then have c: "run_state Check w = (Inr True, ?w1)" by (metis prod.collapse)
  obtain n w2 where n: "run_state GetQueueManagerName ?w1 = (n, w2)" by (cases "run_state GetQueueManagerName ?w1")
  with assms c obtain name where name: "n = Inr name" by (cases n) (auto simp: chkmqready_def)
  obtain st w3 where st: "run_state (Status name) w2 = (st, w3)" by (cases "run_state (Status name) w2")
  with assms c n name obtain s where s: "st = Inr s" by (cases st) (auto simp: chkmqready_def)
  have "s \<noteq> StatusUnknown" using assms c n name st s by (auto simp: chkmqready_def)
  moreover have "fst (dial w3 (calls w3) ''127.0.0.1:1414'') = None" if "s = StatusActiveQM"
    using assms c n name st s that
    by (auto simp: chkmqready_def checkPort_def split: option.splits prod.splits)
  moreover from this have "result chkmqready w = (if s = StatusStandbyQM then 10 else if s = StatusReplicaQM then 20 else 0)"
    using assms c n name st s \<open>s \<noteq> StatusUnknown\<close>
    by (cases s) (auto simp: chkmqready_def checkPort_def split: option.splits prod.splits)
  ultimately show ?thesis using that [OF i(1), of ?w1 name w2 s w3] n name st s by simp
qed

text \<open>
  C11: what the exit code 0 of \<open>chkmqready\<close> means.  The probe exits with 0, 1 or 10 only; it exits
  with 0 only if the readiness file exists and \<open>dspmq\<close>, run for the queue manager, succeeded and
  reported it as running, with its listener's port accepting a connection, or as the leader of a
  recovery group.  In particular the exit code 20 for a replica is never produced.
\<close>

theorem chkmqready_exit_code:
  "result chkmqready w \<in> {0, 1, 10} \<and>
   (result chkmqready w = 0 \<longrightarrow>
     (\<exists>i name k out f'. fs_stat (files w) readyFile = Inr i \<and>
        programs w k ''dspmq'' [''-n'', ''-m'', name] (env w) (files w) = (Exited out 0, f') \<and>
        (Contains out ''(RUNNING)'' \<and> (\<exists>k'. fst (dial w k' ''127.0.0.1:1414'') = None) \<or>
         Contains out ''(RECOVERY GROUP LEADER)'')))"
proof (cases "result chkmqready w = 1")
  case True
  then show ?thesis by simp
next
  case False
  then obtain i w1 name w2 s w3 where st: "fs_stat (files w) readyFile = Inr i"
    "run_state GetQueueManagerName w1 = (Inr name, w2)" "files w1 = files w" "env w1 = env w"
    "programs w1 = programs w" "dial w1 = dial w"
    "run_state (Status name) w2 = (Inr s, w3)" "s \<noteq> StatusUnknown"
    "s = StatusActiveQM \<Longrightarrow> fst (dial w3 (calls w3) ''127.0.0.1:1414'') = None"
    "result chkmqready w = (if s = StatusStandbyQM then 10 else if s = StatusReplicaQM then 20 else 0)"
    by (rule chkmqready_steps) blast
  from GetQueueManagerName_run [OF st(2)] st(3-6)
  have w2: "files w2 = files w" "env w2 = env w" "programs w2 = programs w" "dial w2 = dial w" by auto
  from Status_run [OF st(7)] w2 obtain out f' where
    out: "programs w (calls w2) ''dspmq'' [''-n'', ''-m'', name] (env w) (files w) = (Exited out 0, f')"
    "s = status_of_output out" "dial w3 = dial w" by auto
  show ?thesis
  proof (intro conjI impI)
    show "result chkmqready w \<in> {0, 1, 10}"
      using st(10) out(2) status_of_output_cases(3) by auto
    assume "result chkmqready w = 0"
    with st(8,10) have "s = StatusActiveQM \<or> s = StatusRecoveryQM" by (cases s) auto
    with st(9) out status_of_output_cases
    have "Contains out ''(RUNNING)'' \<and> (\<exists>k'. fst (dial w k' ''127.0.0.1:1414'') = None) \<or>
         Contains out ''(RECOVERY GROUP LEADER)''" by metis
    with st(1) out(1) show "\<exists>i name k out f'. fs_stat (files w) readyFile = Inr i \<and>
        programs w k ''dspmq'' [''-n'', ''-m'', name] (env w) (files w) = (Exited out 0, f') \<and>
        (Contains out ''(RUNNING)'' \<and> (\<exists>k'. fst (dial w k' ''127.0.0.1:1414'') = None) \<or>
         Contains out ''(RECOVERY GROUP LEADER)'')" by blast
  qed
qed

theorem chkmqready_exit_code_witness:
  "\<exists>i. fs_stat (files (final Ready_Set example_world)) readyFile = Inr i"
proof -
  have "result chkmqready (final Ready_Set example_world) = 0" by code_simp
  with chkmqready_exit_code [of "final Ready_Set example_world"] show ?thesis by blast
qed

lemma exec_run:
  "run_state (exec_CombinedOutput prog args) w =
    (case programs w (calls w) prog args (env w) (files w) of
       (r, f') \<Rightarrow> (outcome_result r,
         w\<lparr>calls := Suc (calls w), files := f', trace := trace w @ [Exec prog args (fst (snd (outcome_result r)))]\<rparr>))"
  by (simp add: exec_CombinedOutput_def split: prod.split)

text \<open>The exit code of a probe that runs \<open>dspmq\<close> once and looks for a state in its output.\<close>

definition dspmq_exit :: "outcome \<Rightarrow> int" where
  "dspmq_exit r = (case outcome_result r of (out, rc, err) \<Rightarrow>
     if err \<noteq> None then 2 else if shows_ready out then 0 else 1)"



text \<open>
  C34: \<open>chkmqstarted\<close> does not wait for ever on a Native HA instance that never gets in sync.  If
  \<open>dspmq\<close> shows the instance running but not in sync, and the instance has been recorded as ready
  to sync for at least the timeout (5 seconds if it is not configured), and the system calls
  succeed, the probe exits with 0.
\<close>

theorem chkmqstarted_in_sync_timeout:
  assumes "map_of (env w) ''MQ_QMGR_NAME'' = Some name" "name \<noteq> []"
    and "map_of (env w) ''MQ_NATIVE_HA'' = Some ''true''"
    and "case map_of (env w) ''MQ_NATIVE_HA_IN_SYNC_TIMEOUT'' of
           None \<Rightarrow> timeout = 5 | Some s \<Rightarrow> if s = [] then timeout = 5 else Atoi s = Some timeout"
    and "\<And>k oper p. faults w k oper p = None"
    and "programs w (calls w) ''dspmq'' [''-n'', ''-o'', ''nativeha'', ''-m'', name] (env w) (files w)
           = (Exited out 0, f')"
    and "\<not> Contains out ''INSYNC(YES)''" "shows_ready out"
    and "fs_read f' readyToSyncFile = Inr (Itoa t)" "minInt64 \<le> t" "t \<le> maxInt64"
    and "\<And>k. timeout \<le> clock w k - t \<and> clock w k - t \<le> maxInt64 \<and> minInt64 \<le> clock w k - t"
  shows "result chkmqstarted w = 0"
proof -
  have nofault: "fault_of v oper p = None" if "faults v = faults w" for v oper p
    using assms(5) that by (simp add: fault_of_def)
  have st: "fs_stat f' readyToSyncFile = Inr (FileNode (Itoa t))" using assms(9) by (rule fs_read_stat)
  have timeout: "(if (case map_of (env w) ''MQ_NATIVE_HA_IN_SYNC_TIMEOUT'' of None \<Rightarrow> [] | Some s \<Rightarrow> s) \<noteq> []
      then Atoi (case map_of (env w) ''MQ_NATIVE_HA_IN_SYNC_TIMEOUT'' of None \<Rightarrow> [] | Some s \<Rightarrow> s) else Some 5) = Some timeout"
    using assms(4) by (auto split: option.splits if_splits)
  have wrap: "wrap64 (clock w k - t) = clock w k - t" for k
    using assms(12) [of k] unfolding wrap64_def minInt64_def maxInt64_def by auto
  define w1 where "w1 = w\<lparr>calls := Suc (calls w), files := f',
    trace := trace w @ [Exec ''dspmq'' [''-n'', ''-o'', ''nativeha'', ''-m'', name] 0]\<rparr>"
  have 1: "run_state GetQueueManagerName w = (Inr name, w)"
    using assms(1,2) by (simp add: GetQueueManagerName_def)
  have 2: "run_state (isInSyncWithReplicas name) w = (Inr (True, False), w1)"
    using assms(6-8) by (simp add: isInSyncWithReplicas_def exec_run w1_def)
  have 3: "run_state SetReadyToSync w1 = (Inr (), w1\<lparr>calls := Suc (calls w1)\<rparr>)"
    using st by (simp add: SetReadyToSync_def fileExists_run nofault w1_def)
  have 4: "result hasInSyncTimePeriodExpired (w1\<lparr>calls := Suc (calls w1)\<rparr>) = Inr True"
    using st assms(9,12) Atoi_Itoa [OF assms(10,11)] timeout
    by (simp add: hasInSyncTimePeriodExpired_def GetReadyToSyncStartTime_def fileExists_run os_ReadFile_def
        query_run nofault time_Now_Unix_def wrap w1_def)
  show ?thesis
    using 1 2 3 4 assms(3)
    by (auto simp: chkmqstarted_def queueManagerStarted_def probe_exit_def split: prod.split)
qed

definition sync_world :: world where
  "sync_world = example_world\<lparr>
     env := [(''MQ_QMGR_NAME'', ''QM1''), (''MQ_NATIVE_HA'', ''true'')],
     files := [(''/run'', DirNode), (''/run/runmqserver'', DirNode), (readyToSyncFile, FileNode (Itoa 7))],
     clock := (\<lambda>_. 30)\<rparr>"

theorem chkmqstarted_in_sync_timeout_witness: "result chkmqstarted sync_world = 0"
proof (rule chkmqstarted_in_sync_timeout [where name = "''QM1''" and timeout = 5 and t = 7
      and out = "''QMNAME(QM1) STATUS(RUNNING)''" and f' = "files sync_world"])
  show "map_of (env sync_world) ''MQ_QMGR_NAME'' = Some ''QM1''" "''QM1'' \<noteq> []"
    "map_of (env sync_world) ''MQ_NATIVE_HA'' = Some ''true''"
    "case map_of (env sync_world) ''MQ_NATIVE_HA_IN_SYNC_TIMEOUT'' of
       None \<Rightarrow> (5::int) = 5 | Some s \<Rightarrow> if s = [] then (5::int) = 5 else Atoi s = Some 5"
    "\<And>k oper p. faults sync_world k oper p = None"
    "programs sync_world (calls sync_world) ''dspmq'' [''-n'', ''-o'', ''nativeha'', ''-m'', ''QM1'']
       (env sync_world) (files sync_world) = (Exited ''QMNAME(QM1) STATUS(RUNNING)'' 0, files sync_world)"
    by (simp_all add: sync_world_def example_world_def base_world_def)
  show "\<not> Contains ''QMNAME(QM1) STATUS(RUNNING)'' ''INSYNC(YES)''"
    "shows_ready ''QMNAME(QM1) STATUS(RUNNING)''"
    "fs_read (files sync_world) readyToSyncFile = Inr (Itoa 7)" "minInt64 \<le> 7" "7 \<le> maxInt64"
    by code_simp+
  show "5 \<le> clock sync_world k - 7 \<and> clock sync_world k - 7 \<le> maxInt64 \<and> minInt64 \<le> clock sync_world k - 7" for k
    by (simp add: sync_world_def minInt64_def maxInt64_def)
qed

end
