(* ===== verification/Log_Rotation.thy ===== *)
theory Log_Rotation
  imports Logger
begin

text \<open>
  The package \<open>pkg/logrotation\<close>: a log kept in a fixed number of files, of which the first is
  written and the others hold older text.  \<open>Append\<close> and the functions it calls are programs over the
  world; the second half states what the files mean, as a log store, and proves that the programs
  implement it.

  The \<open>filenameFormat\<close> of the logger is the function from the instance number to the file name
  that \<open>fmt.Sprintf\<close> makes of it.  The mutex of the logger makes every \<open>Append\<close> one step.
\<close>

section \<open>The model\<close>

record RotatingLogger =
  baseDirectory :: string
  filenameFormat :: "nat \<Rightarrow> string"
  maxFileBytes :: int
  logFilesCount :: nat

definition instanceFileName :: "RotatingLogger \<Rightarrow> nat \<Rightarrow> string" where
  "instanceFileName r i = path_Join [baseDirectory r, filenameFormat r i]"

definition errOutput :: "string \<Rightarrow> unit io" where
  "errOutput s = emit (Stderr s)"

text \<open>\<open>os.OpenFile\<close> with \<open>O_CREATE\<close>: a missing file is created empty, another is left as it is.\<close>

definition open_create :: "string \<Rightarrow> (error + unit) io" where
  "open_create p = os_AppendFile p []"

text \<open>The method \<open>Close\<close> of a file handle: the variable may be nil, or the handle closed already.\<close>

datatype handle = NilHandle | OpenHandle | ClosedHandle

definition close_handle :: "handle \<Rightarrow> string \<Rightarrow> (error + unit) io" where
  "close_handle h p =
    (case h of
       NilHandle \<Rightarrow> return (Inl (Errorf ''invalid argument''))
     | ClosedHandle \<Rightarrow> return (Inl (Errorf (''close '' @ p @ '': file already closed'')))
     | OpenHandle \<Rightarrow> do {
         f \<leftarrow> syscall ''close'' p;
         return (case f of Some e \<Rightarrow> Inl (PathError ''close'' p e) | None \<Rightarrow> Inr ())
       })"

fun Init_loop :: "RotatingLogger \<Rightarrow> nat list \<Rightarrow> (error + unit) io" where
  "Init_loop r [] = return (Inr ())"
| "Init_loop r (i # is) = do {
     o' \<leftarrow> open_create (instanceFileName r i);
     case o' of
       Inl err \<Rightarrow> return (Inl err)
     | Inr _ \<Rightarrow> do {
         c \<leftarrow> close_handle OpenHandle (instanceFileName r i);
         case c of Inl err \<Rightarrow> return (Inl err) | Inr _ \<Rightarrow> Init_loop r is
       }
   }"

definition Init :: "RotatingLogger \<Rightarrow> (error + unit) io" where
  "Init r = Init_loop r [1..<Suc (logFilesCount r)]"

text \<open>The loop of \<open>getLogLastLine\<close>, which reads the bytes of the file from its end.\<close>

fun lastLine_loop :: "string \<Rightarrow> string \<Rightarrow> string" where
  "lastLine_loop acc [] = acc"
| "lastLine_loop acc (c # cs) =
    (if c = nl \<or> c = cr then (if acc \<noteq> [] then acc else lastLine_loop acc cs)
     else lastLine_loop (c # acc) cs)"

definition lastLine :: "string \<Rightarrow> string" where
  "lastLine content = lastLine_loop [] (rev content)"

definition getLogLastLine :: "string \<Rightarrow> (error + string) io" where
  "getLogLastLine logFilePath = do {
     content \<leftarrow> os_ReadFile logFilePath;
     return (case content of Inl err \<Rightarrow> Inl err | Inr c \<Rightarrow> Inr (lastLine c))
   }"

definition clean_line :: "string \<Rightarrow> string" where
  "clean_line l = ReplaceAll (TrimSpace l) [nl] '' ''"

definition checkIfMessageShouldBeAppended :: "string \<Rightarrow> string \<Rightarrow> bool \<Rightarrow> (bool \<times> error option) io" where
  "checkIfMessageShouldBeAppended logFilePath currentLogLine deduplicateLine =
    (if \<not> deduplicateLine then return (True, None)
     else do {
       lastLogLine \<leftarrow> getLogLastLine logFilePath;
       return (case lastLogLine of
                 Inl err \<Rightarrow> (False, Some err)
               | Inr l \<Rightarrow> (clean_line currentLogLine \<noteq> clean_line l, None))
     })"

text \<open>The size of the open file is that of the file the path names: only this logger moves it.\<close>

definition checkIfLogFileSizeExceeded :: "RotatingLogger \<Rightarrow> nat \<Rightarrow> string \<Rightarrow> (error + bool) io" where
  "checkIfLogFileSizeExceeded r messageLineLength logFilePath = do {
     content \<leftarrow> query ''stat'' fs_read logFilePath;
     return (case content of
               Inl err \<Rightarrow> Inl err
             | Inr c \<Rightarrow> Inr (int (length c) + int messageLineLength \<ge> maxFileBytes r))
   }"

fun rename_loop :: "RotatingLogger \<Rightarrow> nat \<Rightarrow> (error + unit) io" where
  "rename_loop r i =
    (if i < 2 then return (Inr ())
     else do {
       e \<leftarrow> os_Rename (instanceFileName r (i - 1)) (instanceFileName r i);
       case e of
         Inl err \<Rightarrow>
           if \<not> IsNotExist err
           then return (Inl (Errorf (''error moving '' @ instanceFileName r (i - 1) @ '' to ''
                  @ instanceFileName r i @ '': '' @ error_text err)))
           else rename_loop r (i - 1)
       | Inr _ \<Rightarrow> rename_loop r (i - 1)
     })"

declare rename_loop.simps [simp del]

definition performLogRotation :: "RotatingLogger \<Rightarrow> (error + unit) io" where
  "performLogRotation r = do {
     d \<leftarrow> os_Remove (instanceFileName r (logFilesCount r));
     if (case d of Inl err \<Rightarrow> \<not> IsNotExist err | Inr _ \<Rightarrow> False)
     then return (Inl (Errorf (''error deleting '' @ instanceFileName r (logFilesCount r))))
     else do {
       m \<leftarrow> rename_loop r (logFilesCount r);
       case m of
         Inl err \<Rightarrow> return (Inl err)
       | Inr _ \<Rightarrow> do {
           c \<leftarrow> os_WriteFile (instanceFileName r 1) [];
           return (case c of
                     Inl err \<Rightarrow> Inl (Errorf (''error creating log file ('' @ instanceFileName r 1 @ ''): '' @ error_text err))
                   | Inr _ \<Rightarrow> Inr ())
         }
     }
   }"

text \<open>
  The deferred functions of \<open>Append\<close> close the file that the variable \<open>logFile\<close> refers to when
  the function returns, and report an error of that.
\<close>

definition deferred_close :: "handle \<Rightarrow> string \<Rightarrow> handle io" where
  "deferred_close h p = do {
     c \<leftarrow> close_handle h p;
     (case c of
        Inl err \<Rightarrow> errOutput (''Error: '' @ error_text err @ '', Failed to close log file: '' @ p @ [nl])
      | Inr _ \<Rightarrow> return ());
     return (if h = NilHandle then NilHandle else ClosedHandle)
   }"

definition write_line :: "string \<Rightarrow> string \<Rightarrow> unit io" where
  "write_line p messageLine = do {
     e \<leftarrow> os_AppendFile p messageLine;
     case e of
       Inl err \<Rightarrow> errOutput (''Failed to write to log file: '' @ error_text err @ [nl])
     | Inr _ \<Rightarrow> return ()
   }"

definition rotate_and_write :: "RotatingLogger \<Rightarrow> string \<Rightarrow> string \<Rightarrow> unit io" where
  "rotate_and_write r logFilePath messageLine = do {
     c \<leftarrow> close_handle OpenHandle logFilePath;
     (case c of
        Inl err \<Rightarrow> errOutput (''Error: '' @ error_text err @ '', Failed to close log file: '' @ logFilePath @ [nl])
      | Inr _ \<Rightarrow> return ());
     rot \<leftarrow> performLogRotation r;
     (case rot of
        Inl err \<Rightarrow> errOutput (''Failed to perform log-rotation: '' @ error_text err @ [nl])
      | Inr _ \<Rightarrow> return ());
     o' \<leftarrow> open_create logFilePath;
     (case o' of
        Inl err \<Rightarrow> do {
          errOutput (''Failed to open log file: '' @ error_text err @ [nl]);
          _ \<leftarrow> deferred_close NilHandle logFilePath;
          return ()
        }
      | Inr _ \<Rightarrow> do {
          write_line logFilePath messageLine;
          h \<leftarrow> deferred_close OpenHandle logFilePath;
          _ \<leftarrow> deferred_close h logFilePath;
          return ()
        })
   }"

definition Append :: "RotatingLogger \<Rightarrow> string \<Rightarrow> bool \<Rightarrow> unit io" where
  "Append r message deduplicateLine = (
     let messageLine = TrimSpace message @ [nl]; logFilePath = instanceFileName r 1 in do {
       o' \<leftarrow> open_create logFilePath;
       case o' of
         Inl err \<Rightarrow> errOutput (''Failed to open log file: '' @ error_text err @ [nl])
       | Inr _ \<Rightarrow> do {
           (shouldBeAppended, aerr) \<leftarrow> checkIfMessageShouldBeAppended logFilePath messageLine deduplicateLine;
           (case aerr of
              Some err \<Rightarrow> errOutput (''Failed to validate the currentLog and the lastLog line '' @ error_text err @ [nl])
            | None \<Rightarrow> return ());
           if \<not> shouldBeAppended then do { _ \<leftarrow> deferred_close OpenHandle logFilePath; return () }
           else do {
             logFileSizeExceeded \<leftarrow> checkIfLogFileSizeExceeded r (length messageLine) logFilePath;
             case logFileSizeExceeded of
               Inl err \<Rightarrow> do {
                 errOutput (''Failed to validate log file size: '' @ error_text err @ [nl]);
                 _ \<leftarrow> deferred_close OpenHandle logFilePath;
                 return ()
               }
             | Inr ex \<Rightarrow>
                 if ex then rotate_and_write r logFilePath messageLine
                 else do {
                   write_line logFilePath messageLine;
                   _ \<leftarrow> deferred_close OpenHandle logFilePath;
                   return ()
                 }
           }
         }
     })"

section \<open>The log as a store\<close>

text \<open>
  What the files hold, by instance number, and what appending a line does to them.  A line is
  dropped when it repeats the last line; when the first file would reach its limit all files move up
  by one, the last one is lost, and the line starts a new first file.
\<close>

definition text_of :: "string option \<Rightarrow> string" where
  "text_of c = (case c of None \<Rightarrow> [] | Some s \<Rightarrow> s)"

definition append_spec :: "nat \<Rightarrow> int \<Rightarrow> string \<Rightarrow> bool \<Rightarrow> (nat \<Rightarrow> string option) \<Rightarrow> nat \<Rightarrow> string option" where
  "append_spec n mx line dedup g =
    (if dedup \<and> clean_line line = clean_line (lastLine (text_of (g 1))) then g(1 := Some (text_of (g 1)))
     else if int (length (text_of (g 1))) + int (length line) \<ge> mx
     then (\<lambda>i. if i = 1 then Some line
               else if i = 2 \<and> 2 \<le> n then Some (text_of (g 1))
               else if 2 < i \<and> i \<le> n then g (i - 1) else g i)
     else g(1 := Some (text_of (g 1) @ line)))"

text \<open>The text of the whole log, the oldest file first.\<close>

definition whole :: "nat \<Rightarrow> (nat \<Rightarrow> string option) \<Rightarrow> string" where
  "whole n g = concat (map (\<lambda>i. text_of (g i)) (rev [1..<Suc n]))"

lemma whole_Suc: "whole (Suc k) g = text_of (g (Suc k)) @ whole k g"
  by (simp add: whole_def)

lemma whole_cong: "(\<And>i. 1 \<le> i \<Longrightarrow> i \<le> n \<Longrightarrow> g i = h i) \<Longrightarrow> whole n g = whole n h"
  unfolding whole_def by (rule arg_cong [of _ _ concat], rule map_cong) auto

lemma text_of_Some [simp]: "text_of (Some s) = s"
  by (simp add: text_of_def)

lemma whole_first: "0 < n \<Longrightarrow> whole n (g(1 := Some s)) = whole n (g(1 := None)) @ s"
proof (induction n)
  case 0
  then show ?case by simp
next
  case (Suc n)
  then show ?case by (cases n) (simp_all add: whole_Suc text_of_def whole_def)
qed

lemma whole_first_id [simp]: "whole n (g(Suc 0 := Some (text_of (g (Suc 0))))) = whole n g"
  unfolding whole_def by (rule arg_cong [of _ _ concat], rule map_cong) auto

lemma whole_shift:
  assumes "\<forall>i \<in> {1..Suc k}. text_of (h i) = (if i = 1 then s else text_of (g (i - 1)))"
  shows "whole (Suc k) h = whole k g @ s"
  using assms by (induction k) (simp_all add: whole_Suc, simp add: whole_def)

lemma whole_append_spec:
  assumes "0 < n" "\<not> (d \<and> clean_line l = clean_line (lastLine (text_of (g 1))))"
  shows "suffix (whole n (append_spec n mx l d g)) (whole n g @ l)"
proof (cases "int (length (text_of (g 1))) + int (length l) \<ge> mx")
  case True
  obtain k where n: "n = Suc k" using assms(1) by (cases n) auto
  have "\<forall>i \<in> {1..Suc k}. text_of (append_spec n mx l d g i) = (if i = 1 then l else text_of (g (i - 1)))"
    using True assms(2) n by (auto simp: append_spec_def numeral_2_eq_2)
  then have "whole n (append_spec n mx l d g) = whole k g @ l" unfolding n by (rule whole_shift)
  then show ?thesis by (simp add: n whole_Suc suffix_def)
next
  case False
  then have "append_spec n mx l d g = g(1 := Some (text_of (g 1) @ l))"
    using assms(2) by (auto simp: append_spec_def)
  moreover have "whole n g = whole n (g(1 := None)) @ text_of (g 1)"
    using whole_first [OF assms(1), of g "text_of (g 1)"] by simp
  ultimately show ?thesis using whole_first [OF assms(1), of g] by simp
qed

text \<open>
  The contract of a log store, with \<open>n\<close> files of at most \<open>mx\<close> bytes: in a good state, appending a
  line changes what the files hold as specified, and leads to a good state.
\<close>

locale log_store =
  fixes ok :: "'s \<Rightarrow> bool"
    and get :: "'s \<Rightarrow> nat \<Rightarrow> string option"
    and app :: "string \<Rightarrow> bool \<Rightarrow> 's \<Rightarrow> 's"
    and n :: nat and mx :: int
  assumes n_pos: "ok s \<Longrightarrow> 0 < n"
    and ok_app: "ok s \<Longrightarrow> ok (app m d s)"
    and get_app: "ok s \<Longrightarrow> 1 \<le> i \<Longrightarrow> i \<le> n \<Longrightarrow>
      get (app m d s) i = append_spec n mx (TrimSpace m @ [nl]) d (get s) i"
begin

fun app_all :: "(string \<times> bool) list \<Rightarrow> 's \<Rightarrow> 's" where
  "app_all [] s = s"
| "app_all ((m, d) # ms) s = app_all ms (app m d s)"

lemma ok_app_all: "ok s \<Longrightarrow> ok (app_all ms s)"
  by (induction ms s rule: app_all.induct) (auto simp: ok_app)

lemma app_bounded:
  assumes "ok s" "\<forall>i \<in> {1..n}. int (length (text_of (get s i))) < mx" "int (length (TrimSpace m @ [nl])) < mx"
    and "i \<in> {1..n}"
  shows "int (length (text_of (get (app m d s) i))) < mx"
proof -
  have "1 \<in> {1..n}" "i \<noteq> 1 \<Longrightarrow> i - 1 \<in> {1..n}" using n_pos [OF assms(1)] assms(4) by auto
  with assms show ?thesis
    by (auto simp: get_app append_spec_def text_of_def [of "Some x" for x])
qed

lemma app_all_bounded:
  assumes "ok s" "\<forall>i \<in> {1..n}. int (length (text_of (get s i))) < mx"
    and "\<forall>(m, d) \<in> set ms. int (length (TrimSpace m @ [nl])) < mx"
  shows "\<forall>i \<in> {1..n}. int (length (text_of (get (app_all ms s) i))) < mx"
  using assms
proof (induction ms s rule: app_all.induct)
  case (1 s)
  then show ?case by simp
next
  case (2 m d ms s)
  then have "\<forall>i \<in> {1..n}. int (length (text_of (get (app m d s) i))) < mx"
    by (intro ballI app_bounded) auto
  with 2 show ?case by (simp add: ok_app)
qed

text \<open>No text is lost but the oldest, none is added twice, and the order is kept.\<close>

lemma app_suffix:
  assumes "ok s"
  shows "suffix (whole n (get (app m d s))) (whole n (get s) @ TrimSpace m @ [nl])
    \<or> d \<and> whole n (get (app m d s)) = whole n (get s)"
proof -
  let ?l = "TrimSpace m @ [nl]"
  have w: "whole n (get (app m d s)) = whole n (append_spec n mx ?l d (get s))"
    using assms by (intro whole_cong) (simp add: get_app)
  show ?thesis
  proof (cases "d \<and> clean_line ?l = clean_line (lastLine (text_of (get s 1)))")
    case True
    then have "append_spec n mx ?l d (get s) = (get s)(1 := Some (text_of (get s 1)))"
      by (simp add: append_spec_def)
    with True w show ?thesis by (simp add: whole_first_id)
  next
    case False
    with n_pos [OF assms] w show ?thesis
      using whole_append_spec [where l = ?l and d = d and g = "get s" and mx = mx] False by auto
  qed
qed

definition added :: "(string \<times> bool) list \<Rightarrow> string list" where
  "added ms = map (\<lambda>(m, d). TrimSpace m @ [nl]) ms"

lemma app_all_suffix:
  "ok s \<Longrightarrow> \<exists>ls. subseq ls (added ms) \<and> (list_all (\<lambda>(m, d). \<not> d) ms \<longrightarrow> ls = added ms)
     \<and> suffix (whole n (get (app_all ms s))) (whole n (get s) @ concat ls)"
proof (induction ms s rule: app_all.induct)
  case (1 s)
  show ?case by (auto simp: added_def)
next
  case (2 m d ms s)
  let ?l = "TrimSpace m @ [nl]"
  from 2 ok_app obtain ls where ls: "subseq ls (added ms)" "list_all (\<lambda>(m, d). \<not> d) ms \<longrightarrow> ls = added ms"
    "suffix (whole n (get (app_all ms (app m d s)))) (whole n (get (app m d s)) @ concat ls)" by blast
  from app_suffix [OF "2.prems", of m d]
  consider "suffix (whole n (get (app m d s))) (whole n (get s) @ ?l)"
    | "d" "whole n (get (app m d s)) = whole n (get s)" by blast
  then show ?case
  proof cases
    case 1
    then have "suffix (whole n (get (app m d s)) @ concat ls) (whole n (get s) @ concat (?l # ls))"
      by (auto simp: suffix_def)
    with ls(3) have "suffix (whole n (get (app_all ms (app m d s)))) (whole n (get s) @ concat (?l # ls))"
      by (rule suffix_order.trans)
    moreover have "subseq (?l # ls) (added ((m, d) # ms))" using ls(1) by (simp add: added_def)
    moreover have "list_all (\<lambda>(m, d). \<not> d) ((m, d) # ms) \<longrightarrow> ?l # ls = added ((m, d) # ms)"
      using ls(2) by (simp add: added_def)
    ultimately show ?thesis by (metis app_all.simps(2))
  next
    case 2
    with ls have "subseq ls (added ((m, d) # ms))" "suffix (whole n (get (app_all ms (app m d s)))) (whole n (get s) @ concat ls)"
      by (simp_all add: added_def list_emb_Cons)
    with 2 show ?thesis by auto
  qed
qed

end

section \<open>The files implement the store\<close>

text \<open>
  The states in which the programs behave as specified: no system call fails, the instance names
  are clean, different paths in directories that exist, and each is a file or missing.
\<close>

definition file_at :: "fs \<Rightarrow> string \<Rightarrow> string option" where
  "file_at f p = (case map_of f p of Some (FileNode c) \<Rightarrow> Some c | _ \<Rightarrow> None)"

definition file_or_none :: "fs \<Rightarrow> string \<Rightarrow> bool" where
  "file_or_none f p \<longleftrightarrow> map_of f p \<noteq> Some DirNode \<and> (\<forall>t. map_of f p \<noteq> Some (LinkNode t))"

definition names_ok :: "RotatingLogger \<Rightarrow> bool" where
  "names_ok r \<longleftrightarrow> 0 < logFilesCount r \<and> inj_on (instanceFileName r) {1..logFilesCount r} \<and>
    (\<forall>i \<in> {1..logFilesCount r}. Clean (instanceFileName r i) = instanceFileName r i \<and>
       instanceFileName r i \<noteq> ''/'' \<and>
       (\<forall>j \<in> {1..logFilesCount r}. Dir (instanceFileName r j) \<noteq> instanceFileName r i))"

definition log_ok :: "RotatingLogger \<Rightarrow> world \<Rightarrow> bool" where
  "log_ok r w \<longleftrightarrow> names_ok r \<and> (\<forall>k oper p. faults w k oper p = None) \<and>
    (\<forall>i \<in> {1..logFilesCount r}. file_or_none (files w) (instanceFileName r i) \<and>
       is_dir (files w) (Dir (instanceFileName r i)))"

definition log_get :: "RotatingLogger \<Rightarrow> world \<Rightarrow> nat \<Rightarrow> string option" where
  "log_get r w i = file_at (files w) (instanceFileName r i)"

lemma log_ok_fault: "log_ok r w \<Longrightarrow> fault_of w oper p = None"
  by (simp add: log_ok_def fault_of_def)

text \<open>A step of the programs changes one of the files; this is its effect on the store.\<close>

lemma log_step:
  assumes "log_ok r w" "i \<in> {1..logFilesCount r}" "faults w' = faults w"
    and "map_of (files w') = (map_of (files w))(instanceFileName r i := map_option FileNode c)"
  shows "log_ok r w' \<and> (\<forall>j \<in> {1..logFilesCount r}. log_get r w' j = ((log_get r w)(i := c)) j)"
proof -
  have names: "names_ok r" using assms(1) by (simp add: log_ok_def)
  have eq: "instanceFileName r j = instanceFileName r i \<longleftrightarrow> j = i" if "j \<in> {1..logFilesCount r}" for j
    using names assms(2) that unfolding names_ok_def inj_on_def by blast
  have dir: "Dir (instanceFileName r j) \<noteq> instanceFileName r i" if "j \<in> {1..logFilesCount r}" for j
    using names assms(2) that unfolding names_ok_def by blast
  have "log_ok r w'"
    using assms(1,3) dir unfolding log_ok_def file_or_none_def is_dir_def assms(4)
    by (cases c) auto
  moreover have "log_get r w' j = ((log_get r w)(i := c)) j" if "j \<in> {1..logFilesCount r}" for j
    using eq [OF that] by (cases c) (auto simp: log_get_def file_at_def assms(4))
  ultimately show ?thesis by blast
qed

lemma log_step_same:
  "log_ok r w \<Longrightarrow> faults w' = faults w \<Longrightarrow> files w' = files w \<Longrightarrow> log_ok r w' \<and> log_get r w' = log_get r w"
  by (simp add: log_ok_def log_get_def fun_eq_iff)

lemma log_file:
  assumes "log_ok r w" "i \<in> {1..logFilesCount r}"
  shows "fs_path (files w) (instanceFileName r i) = Inr (instanceFileName r i)"
    and "fs_read (files w) (instanceFileName r i)
      = (case log_get r w i of None \<Rightarrow> Inl ENOENT | Some c \<Rightarrow> Inr c)"
    and "fs_write g (files w) (instanceFileName r i)
      = Inr (fs_put (files w) (instanceFileName r i) (FileNode (g (log_get r w i))))"
    and "fs_remove (files w) (instanceFileName r i)
      = (case log_get r w i of None \<Rightarrow> Inl ENOENT | Some _ \<Rightarrow> Inr (fs_drop (files w) (instanceFileName r i)))"
proof -
  from assms have c: "Clean (instanceFileName r i) = instanceFileName r i" "instanceFileName r i \<noteq> ''/''"
    "file_or_none (files w) (instanceFileName r i)" "is_dir (files w) (Dir (instanceFileName r i))"
    unfolding log_ok_def names_ok_def by blast+
  show p: "fs_path (files w) (instanceFileName r i) = Inr (instanceFileName r i)"
    using c by (auto simp: fs_path_def numeral_eq_Suc file_or_none_def split: option.split inode.split)
  show "fs_read (files w) (instanceFileName r i)
      = (case log_get r w i of None \<Rightarrow> Inl ENOENT | Some c \<Rightarrow> Inr c)"
    using c p by (auto simp: fs_read_def fs_stat_def log_get_def file_at_def file_or_none_def
        split: option.split inode.split)
  show "fs_write g (files w) (instanceFileName r i)
      = Inr (fs_put (files w) (instanceFileName r i) (FileNode (g (log_get r w i))))"
    using c p by (auto simp: fs_write_def log_get_def file_at_def file_or_none_def
        split: option.split inode.split)
  show "fs_remove (files w) (instanceFileName r i)
      = (case log_get r w i of None \<Rightarrow> Inl ENOENT | Some _ \<Rightarrow> Inr (fs_drop (files w) (instanceFileName r i)))"
    using c by (auto simp: fs_remove_def log_get_def file_at_def file_or_none_def Let_def
        split: option.split inode.split)
qed

text \<open>\<open>does r w i c w'\<close>: from \<open>w\<close> to \<open>w'\<close> only the contents of instance \<open>i\<close> change, to \<open>c\<close>.\<close>

definition does :: "RotatingLogger \<Rightarrow> world \<Rightarrow> (nat \<Rightarrow> string option) \<Rightarrow> world \<Rightarrow> bool" where
  "does r w g w' \<longleftrightarrow> log_ok r w' \<and> (\<forall>j \<in> {1..logFilesCount r}. log_get r w' j = g j)"

lemma change_run:
  "fault_of w oper p = None \<Longrightarrow> f (files w) p = Inr f' \<Longrightarrow>
    run_state (change oper ev f p) w = (Inr (), w\<lparr>calls := Suc (calls w), files := f', trace := trace w @ [ev]\<rparr>)"
  "fault_of w oper p = None \<Longrightarrow> f (files w) p = Inl e \<Longrightarrow>
    run_state (change oper ev f p) w = (Inl (PathError oper p e), w\<lparr>calls := Suc (calls w)\<rparr>)"
  by (simp_all add: change_def query_run)

lemma log_write:
  assumes "log_ok r w" "i \<in> {1..logFilesCount r}"
  shows "\<exists>w'. run_state (os_WriteFile (instanceFileName r i) c) w = (Inr (), w')
      \<and> does r w ((log_get r w)(i := Some c)) w'"
    and "\<exists>w'. run_state (os_AppendFile (instanceFileName r i) c) w = (Inr (), w')
      \<and> does r w ((log_get r w)(i := Some (text_of (log_get r w i) @ c))) w'"
proof -
  let ?p = "instanceFileName r i"
  have app: "appended c (log_get r w i) = text_of (log_get r w i) @ c"
    by (cases "log_get r w i") (simp_all add: text_of_def)
  have step: "does r w ((log_get r w)(i := Some s))
      (w\<lparr>calls := Suc (calls w), files := fs_put (files w) ?p (FileNode s), trace := trace w @ [ev]\<rparr>)" for s ev
    unfolding does_def using log_step [OF assms, of _ "Some s"] by simp
  have run: "run_state (change oper ev (fs_write g) ?p) w = (Inr (), w\<lparr>calls := Suc (calls w),
      files := fs_put (files w) ?p (FileNode (g (log_get r w i))), trace := trace w @ [ev]\<rparr>)" for oper ev g
    by (rule change_run(1)) (simp_all add: log_ok_fault [OF assms(1)] log_file(3) [OF assms])
  show "\<exists>w'. run_state (os_WriteFile ?p c) w = (Inr (), w') \<and> does r w ((log_get r w)(i := Some c)) w'"
    unfolding os_WriteFile_def run using step by blast
  show "\<exists>w'. run_state (os_AppendFile ?p c) w = (Inr (), w')
      \<and> does r w ((log_get r w)(i := Some (text_of (log_get r w i) @ c))) w'"
    unfolding os_AppendFile_def run app using step by blast
qed

lemma log_remove:
  assumes "log_ok r w" "i \<in> {1..logFilesCount r}"
  shows "\<exists>d w'. run_state (os_Remove (instanceFileName r i)) w = (d, w')
      \<and> (case d of Inl err \<Rightarrow> IsNotExist err | Inr _ \<Rightarrow> True) \<and> does r w ((log_get r w)(i := None)) w'"
proof (cases "log_get r w i")
  case None
  then have "run_state (os_Remove (instanceFileName r i)) w
      = (Inl (PathError ''remove'' (instanceFileName r i) ENOENT), w\<lparr>calls := Suc (calls w)\<rparr>)"
    unfolding os_Remove_def by (intro change_run(2) log_ok_fault [OF assms(1)]) (simp add: log_file(4) [OF assms])
  moreover have "does r w ((log_get r w)(i := None)) (w\<lparr>calls := Suc (calls w)\<rparr>)"
    using log_step_same [OF assms(1), of "w\<lparr>calls := Suc (calls w)\<rparr>"] None by (simp add: does_def)
  ultimately show ?thesis by fastforce
next
  case (Some c)
  let ?w' = "w\<lparr>calls := Suc (calls w), files := fs_drop (files w) (instanceFileName r i),
    trace := trace w @ [Removed (instanceFileName r i)]\<rparr>"
  have "run_state (os_Remove (instanceFileName r i)) w = (Inr (), ?w')"
    unfolding os_Remove_def using Some
    by (intro change_run(1) log_ok_fault [OF assms(1)]) (simp add: log_file(4) [OF assms])
  moreover have "does r w ((log_get r w)(i := None)) ?w'"
    unfolding does_def using log_step [OF assms, of ?w' None] by simp
  ultimately show ?thesis by fastforce
qed

lemma log_rename:
  assumes "log_ok r w" "Suc i \<in> {1..logFilesCount r}" "i \<in> {1..logFilesCount r}" "log_get r w (Suc i) = None"
  shows "\<exists>e w'. run_state (os_Rename (instanceFileName r i) (instanceFileName r (Suc i))) w = (e, w')
      \<and> (case e of Inl err \<Rightarrow> IsNotExist err | Inr _ \<Rightarrow> True)
      \<and> does r w ((log_get r w)(Suc i := log_get r w i, i := None)) w'"
proof -
  let ?p = "instanceFileName r i" and ?q = "instanceFileName r (Suc i)"
  from assms have names: "Clean ?p = ?p" "Clean ?q = ?q" "?p \<noteq> ?q" "Dir ?q \<noteq> ?p"
    and f: "file_or_none (files w) ?p" "file_or_none (files w) ?q" "is_dir (files w) (Dir ?q)"
    unfolding log_ok_def names_ok_def inj_on_def by (blast, blast, metis n_not_Suc_n, blast, blast, blast, blast)
  show ?thesis
  proof (cases "log_get r w i")
    case None
    then have "fs_rename ?q (files w) ?p = Inl ENOENT"
      using names f by (auto simp: fs_rename_def Let_def log_get_def file_at_def file_or_none_def
          split: option.splits inode.splits)
    then have "run_state (os_Rename ?p ?q) w = (Inl (PathError ''rename'' ?p ENOENT), w\<lparr>calls := Suc (calls w)\<rparr>)"
      unfolding os_Rename_def by (intro change_run(2) log_ok_fault [OF assms(1)])
    moreover have "does r w ((log_get r w)(Suc i := log_get r w i, i := None)) (w\<lparr>calls := Suc (calls w)\<rparr>)"
      using log_step_same [OF assms(1), of "w\<lparr>calls := Suc (calls w)\<rparr>"] None assms(4) by (simp add: does_def)
    ultimately show ?thesis by fastforce
  next
    case (Some c)
    let ?f = "fs_put (fs_drop (files w) ?p) ?q (FileNode c)"
    let ?w1 = "w\<lparr>files := fs_drop (files w) ?p\<rparr>"
    let ?w' = "w\<lparr>calls := Suc (calls w), files := ?f, trace := trace w @ [Wrote ?q]\<rparr>"
    have "fs_rename ?q (files w) ?p = Inr ?f"
      using Some names f by (auto simp: fs_rename_def Let_def log_get_def file_at_def file_or_none_def is_dir_def
          split: option.splits inode.splits)
    then have "run_state (os_Rename ?p ?q) w = (Inr (), ?w')"
      unfolding os_Rename_def by (intro change_run(1) log_ok_fault [OF assms(1)])
    moreover have 1: "log_ok r ?w1 \<and> (\<forall>j \<in> {1..logFilesCount r}. log_get r ?w1 j = ((log_get r w)(i := None)) j)"
      using log_step [OF assms(1,3), of ?w1 None] by simp
    then have "log_ok r ?w' \<and> (\<forall>j \<in> {1..logFilesCount r}. log_get r ?w' j = ((log_get r ?w1)(Suc i := Some c)) j)"
      using log_step [of r ?w1 "Suc i" ?w' "Some c"] assms(2) by simp
    with 1 Some have "does r w ((log_get r w)(Suc i := log_get r w i, i := None)) ?w'"
      by (auto simp: does_def)
    ultimately show ?thesis by fastforce
  qed
qed

lemma rename_loop_shifts:
  assumes "log_ok r w" "i \<in> {1..logFilesCount r}" "log_get r w i = None"
  shows "\<exists>w'. run_state (rename_loop r i) w = (Inr (), w') \<and>
    does r w (\<lambda>j. if j = 1 then None else if j \<le> i then log_get r w (j - 1) else log_get r w j) w'"
  using assms
proof (induction i arbitrary: w)
  case 0
  then show ?case by simp
next
  case (Suc i)
  show ?case
  proof (cases "i = 0")
    case True
    with Suc.prems show ?thesis by (auto simp: rename_loop.simps does_def le_Suc_eq)
  next
    case False
    with Suc.prems have i: "i \<in> {1..logFilesCount r}" by simp
    from log_rename [OF Suc.prems(1,2) i Suc.prems(3)] obtain e w1 where
      w1: "run_state (os_Rename (instanceFileName r i) (instanceFileName r (Suc i))) w = (e, w1)"
      "case e of Inl err \<Rightarrow> IsNotExist err | Inr _ \<Rightarrow> True"
      and d: "does r w ((log_get r w)(Suc i := log_get r w i, i := None)) w1" by blast
    from d i have "log_ok r w1" "log_get r w1 i = None" by (auto simp: does_def)
    from Suc.IH [OF this(1) i this(2)] obtain w' where
      w': "run_state (rename_loop r i) w1 = (Inr (), w')"
      "does r w1 (\<lambda>j. if j = 1 then None else if j \<le> i then log_get r w1 (j - 1) else log_get r w1 j) w'" by blast
    have "run_state (rename_loop r (Suc i)) w = (Inr (), w')"
      using w1 w'(1) False by (cases e) (simp_all add: rename_loop.simps [of r "Suc i"])
    moreover have "does r w (\<lambda>j. if j = 1 then None else if j \<le> Suc i then log_get r w (j - 1) else log_get r w j) w'"
      unfolding does_def
    proof (intro conjI ballI)
      show "log_ok r w'" using w'(2) by (simp add: does_def)
      fix j assume j: "j \<in> {1..logFilesCount r}"
      have "log_get r w1 (j - 1) = log_get r w (j - 1)" if "j \<noteq> 1" "j \<le> i"
      proof -
        have "j - 1 \<in> {1..logFilesCount r}" "j - 1 \<noteq> i" "j - 1 \<noteq> Suc i" using j that by auto
        then show ?thesis using d by (auto simp: does_def)
      qed
      then show "log_get r w' j = (if j = 1 then None else if j \<le> Suc i then log_get r w (j - 1) else log_get r w j)"
        using j i d w'(2) by (auto simp: does_def le_Suc_eq)
    qed
    ultimately show ?thesis by blast
  qed
qed

lemma performLogRotation_shifts:
  assumes "log_ok r w"
  shows "\<exists>w'. run_state (performLogRotation r) w = (Inr (), w') \<and>
    does r w (\<lambda>j. if j = 1 then Some [] else log_get r w (j - 1)) w'"
proof -
  let ?n = "logFilesCount r"
  have n: "?n \<in> {1..?n}" "1 \<in> {1..?n}" using assms by (auto simp: log_ok_def names_ok_def)
  from log_remove [OF assms n(1)] obtain d w1 where
    w1: "run_state (os_Remove (instanceFileName r ?n)) w = (d, w1)"
    "case d of Inl err \<Rightarrow> IsNotExist err | Inr _ \<Rightarrow> True" "does r w ((log_get r w)(?n := None)) w1" by blast
  then have ok1: "log_ok r w1" "log_get r w1 ?n = None" using n by (auto simp: does_def)
  from rename_loop_shifts [OF ok1(1) n(1) ok1(2)] obtain w2 where
    w2: "run_state (rename_loop r ?n) w1 = (Inr (), w2)"
    "does r w1 (\<lambda>j. if j = 1 then None else if j \<le> ?n then log_get r w1 (j - 1) else log_get r w1 j) w2" by blast
  then have "log_ok r w2" by (simp add: does_def)
  from log_write(1) [OF this n(2), of "[]"] obtain w' where
    w': "run_state (os_WriteFile (instanceFileName r 1) []) w2 = (Inr (), w')"
    "does r w2 ((log_get r w2)(1 := Some [])) w'" by blast
  have "run_state (performLogRotation r) w = (Inr (), w')"
    using w1(1,2) w2(1) w'(1) by (simp add: performLogRotation_def split: sum.splits)
  moreover have "does r w (\<lambda>j. if j = 1 then Some [] else log_get r w (j - 1)) w'"
    unfolding does_def
  proof (intro conjI ballI)
    show "log_ok r w'" using w'(2) by (simp add: does_def)
    fix j assume j: "j \<in> {1..?n}"
    have "log_get r w1 (j - 1) = log_get r w (j - 1)" if "j \<noteq> 1"
    proof -
      have "j - 1 \<in> {1..?n}" "j - 1 \<noteq> ?n" using j that by auto
      then show ?thesis using w1(3) by (auto simp: does_def)
    qed
    then show "log_get r w' j = (if j = 1 then Some [] else log_get r w (j - 1))"
      using j w2(2) w'(2) by (auto simp: does_def)
  qed
  ultimately show ?thesis by blast
qed

text \<open>Closing a file and reporting errors do not touch the files.\<close>

lemma quiet_steps:
  "run_state (close_handle h p) w = (x, w') \<Longrightarrow> faults w' = faults w \<and> files w' = files w"
  "run_state (errOutput s) w = (y, w') \<Longrightarrow> faults w' = faults w \<and> files w' = files w"
  "run_state (deferred_close h p) w = (z, w') \<Longrightarrow> faults w' = faults w \<and> files w' = files w"
  by (auto simp: close_handle_def errOutput_def deferred_close_def split: handle.splits prod.splits sum.splits)

lemma does_quiet:
  assumes "does r w g w1" "faults w2 = faults w1" "files w2 = files w1"
  shows "does r w g w2"
  using assms log_step_same [of r w1 w2] by (auto simp: does_def)

lemma does_refl: "log_ok r w \<Longrightarrow> does r w (log_get r w) w"
  by (simp add: does_def)

lemma first_ok: "log_ok r w \<Longrightarrow> 1 \<in> {1..logFilesCount r}"
  by (auto simp: log_ok_def names_ok_def)

lemma write_line_does:
  assumes "log_ok r w"
  shows "does r w ((log_get r w)(1 := Some (text_of (log_get r w 1) @ l))) (final (write_line (instanceFileName r 1) l) w)"
  using log_write(2) [OF assms first_ok [OF assms], of l] by (auto simp: write_line_def)

lemma open_create_does:
  assumes "log_ok r w"
  shows "\<exists>w'. run_state (open_create (instanceFileName r 1)) w = (Inr (), w')
    \<and> does r w ((log_get r w)(1 := Some (text_of (log_get r w 1)))) w'"
  using log_write(2) [OF assms first_ok [OF assms], of "[]"] by (simp add: open_create_def)

lemma rotate_and_write_does:
  assumes "log_ok r w"
  shows "does r w (\<lambda>j. if j = 1 then Some l else log_get r w (j - 1))
    (final (rotate_and_write r (instanceFileName r 1) l) w) \<and>
    last (trace (final (rotate_and_write r (instanceFileName r 1) l) w)) =
      Stderr (''Error: close '' @ instanceFileName r 1 @ '': file already closed, Failed to close log file: ''
        @ instanceFileName r 1 @ [nl])"
proof -
  let ?p = "instanceFileName r 1"
  obtain c w1 where c: "run_state (close_handle OpenHandle ?p) w = (c, w1)" by fastforce
  have ok1: "log_ok r w1" "log_get r w1 = log_get r w"
    using quiet_steps(1) [OF c] log_step_same [OF assms, of w1] by auto
  have cc: "c = Inr ()"
    using c log_ok_fault [OF assms] by (auto simp: close_handle_def)
  from performLogRotation_shifts [OF ok1(1)] obtain w2 where
    w2: "run_state (performLogRotation r) w1 = (Inr (), w2)"
    "does r w1 (\<lambda>j. if j = 1 then Some [] else log_get r w1 (j - 1)) w2" by blast
  then have ok2: "log_ok r w2" by (simp add: does_def)
  from open_create_does [OF ok2] obtain w3 where
    w3: "run_state (open_create ?p) w2 = (Inr (), w3)"
    "does r w2 ((log_get r w2)(1 := Some (text_of (log_get r w2 1)))) w3" by blast
  then have ok3: "log_ok r w3" by (simp add: does_def)
  obtain u w4 where w4: "run_state (write_line ?p l) w3 = (u, w4)" by (cases "run_state (write_line ?p l) w3")
  with write_line_does [OF ok3] have d4: "does r w3 ((log_get r w3)(1 := Some (text_of (log_get r w3 1) @ l))) w4"
    by (metis snd_conv)
  obtain h w5 where w5: "run_state (deferred_close OpenHandle ?p) w4 = (h, w5)" by fastforce
  obtain h' w6 where w6: "run_state (deferred_close h ?p) w5 = (h', w6)" by fastforce
  have "final (rotate_and_write r ?p l) w = w6"
    using c cc w2(1) w3(1) w4 w5 w6 by (simp add: rotate_and_write_def)
  moreover have "does r w (\<lambda>j. if j = 1 then Some l else log_get r w (j - 1)) w4"
    using w2(2) w3(2) d4 ok1(2) first_ok [OF assms] by (auto simp: does_def)
  then have "does r w (\<lambda>j. if j = 1 then Some l else log_get r w (j - 1)) w6"
    by (rule does_quiet) (use quiet_steps(3) [OF w5] quiet_steps(3) [OF w6] in simp_all)
  moreover have "h = ClosedHandle" using w5 by (auto simp: deferred_close_def split: prod.splits)
  then have "last (trace w6) = Stderr (''Error: close '' @ ?p @ '': file already closed, Failed to close log file: '' @ ?p @ [nl])"
    using w6 by (auto simp: deferred_close_def close_handle_def errOutput_def)
  ultimately show ?thesis by simp
qed

lemma Append_does:
  assumes "log_ok r w"
  shows "does r w (append_spec (logFilesCount r) (maxFileBytes r) (TrimSpace m @ [nl]) d (log_get r w))
    (final (Append r m d) w)"
proof -
  let ?p = "instanceFileName r 1" and ?l = "TrimSpace m @ [nl]" and ?c = "text_of (log_get r w 1)"
  let ?n = "logFilesCount r"
  from open_create_does [OF assms] obtain w1 where
    w1: "run_state (open_create ?p) w = (Inr (), w1)" "does r w ((log_get r w)(1 := Some ?c)) w1" by blast
  then have ok1: "log_ok r w1" and get1: "\<forall>j \<in> {1..?n}. log_get r w1 j = ((log_get r w)(1 := Some ?c)) j"
    unfolding does_def by blast+
  have g1: "log_get r w1 1 = Some ?c" using bspec [OF get1 first_ok [OF assms]] by simp
  have gj: "log_get r w1 j = log_get r w j" if "j \<in> {1..?n}" "j \<noteq> 1" for j
    using bspec [OF get1 that(1)] that(2) by simp
  have rd: "fs_read (files w1) ?p = Inr ?c"
    using log_file(2) [OF ok1 first_ok [OF ok1]] g1 by simp
  define should where "should = (\<not> d \<or> clean_line ?l \<noteq> clean_line (lastLine ?c))"
  obtain w2 where w2: "run_state (checkIfMessageShouldBeAppended ?p ?l d) w1 = ((should, None), w2)"
    and same: "files w2 = files w1" "faults w2 = faults w1"
    using rd log_ok_fault [OF ok1]
    by (cases d) (auto simp: checkIfMessageShouldBeAppended_def getLogLastLine_def os_ReadFile_def query_run should_def)
  note s2 = log_step_same [OF ok1 same(2,1)]
  show ?thesis
  proof (cases should)
    case False
    obtain h w3 where w3: "run_state (deferred_close OpenHandle ?p) w2 = (h, w3)" by fastforce
    then have "final (Append r m d) w = w3"
      using w1(1) w2 False by (simp add: Append_def Let_def)
    moreover have "append_spec ?n (maxFileBytes r) ?l d (log_get r w) = (log_get r w)(1 := Some ?c)"
      using False by (auto simp: append_spec_def should_def)
    ultimately show ?thesis
      using w1(2) quiet_steps(3) [OF w3] same by (simp add: does_quiet)
  next
    case True
    define ex where "ex = (int (length ?c) + int (length ?l) \<ge> maxFileBytes r)"
    have ok2: "log_ok r w2" "log_get r w2 = log_get r w1" using s2 by auto
    obtain w3 where w3: "run_state (checkIfLogFileSizeExceeded r (length ?l) ?p) w2 = (Inr ex, w3)"
      and same3: "files w3 = files w2" "faults w3 = faults w2"
      using rd same log_ok_fault [OF ok2(1)] by (auto simp: checkIfLogFileSizeExceeded_def query_run ex_def)
    note s3 = log_step_same [OF ok2(1) same3(2,1)]
    show ?thesis
    proof (cases ex)
      case True
      have "final (Append r m d) w = final (rotate_and_write r ?p ?l) w3"
        using w1(1) w2 w3 True \<open>should\<close> by (simp add: Append_def Let_def)
      moreover have "does r w3 (\<lambda>j. if j = 1 then Some ?l else log_get r w3 (j - 1)) (final (rotate_and_write r ?p ?l) w3)"
        using s3 rotate_and_write_does by blast
      moreover have "append_spec ?n (maxFileBytes r) ?l d (log_get r w) j
          = (if j = 1 then Some ?l else log_get r w3 (j - 1))" if "j \<in> {1..?n}" for j
      proof -
        have "log_get r w1 (j - 1) = log_get r w (j - 1)" if "j \<noteq> 1" "j \<noteq> 2"
          using that \<open>j \<in> {1..?n}\<close> by (intro gj) auto
        then show ?thesis
          using that True \<open>should\<close> s3 ok2(2) g1
          by (auto simp: append_spec_def should_def ex_def numeral_2_eq_2)
      qed
      ultimately show ?thesis by (auto simp: does_def)
    next
      case False
      obtain u w4 where w4: "run_state (write_line ?p ?l) w3 = (u, w4)" by (cases "run_state (write_line ?p ?l) w3")
      obtain h w5 where w5: "run_state (deferred_close OpenHandle ?p) w4 = (h, w5)" by fastforce
      have "final (Append r m d) w = w5"
        using w1(1) w2 w3 w4 w5 False \<open>should\<close> by (simp add: Append_def Let_def)
      moreover have "does r w3 ((log_get r w3)(1 := Some (text_of (log_get r w3 1) @ ?l))) w4"
        using s3 write_line_does w4 by (metis snd_conv)
      then have "does r w ((log_get r w)(1 := Some (?c @ ?l))) w4"
        using s3 ok2(2) g1 gj by (auto simp: does_def)
      moreover have "append_spec ?n (maxFileBytes r) ?l d (log_get r w) = (log_get r w)(1 := Some (?c @ ?l))"
        using False \<open>should\<close> by (auto simp: append_spec_def should_def ex_def)
      ultimately show ?thesis using quiet_steps(3) [OF w5] by (simp add: does_quiet)
    qed
  qed
qed

interpretation rot: log_store "log_ok r" "log_get r" "\<lambda>m d w. final (Append r m d) w" "logFilesCount r" "maxFileBytes r"
  for r
proof
  show "log_ok r w \<Longrightarrow> 0 < logFilesCount r" for w by (simp add: log_ok_def names_ok_def)
  show "log_ok r w \<Longrightarrow> log_ok r (final (Append r m d) w)" for w m d
    using Append_does [of r w m d] by (simp add: does_def)
  show "log_ok r w \<Longrightarrow> 1 \<le> i \<Longrightarrow> i \<le> logFilesCount r \<Longrightarrow>
      log_get r (final (Append r m d) w) i
        = append_spec (logFilesCount r) (maxFileBytes r) (TrimSpace m @ [nl]) d (log_get r w) i" for w i m d
    using Append_does [of r w m d] by (auto simp: does_def)
qed

text \<open>A sequence of calls of \<open>Append\<close>.\<close>

fun Append_all :: "RotatingLogger \<Rightarrow> (string \<times> bool) list \<Rightarrow> unit io" where
  "Append_all r [] = return ()"
| "Append_all r ((m, d) # ms) = do { _ \<leftarrow> Append r m d; Append_all r ms }"

lemma Append_all_final: "final (Append_all r ms) w = rot.app_all r ms w"
proof (induction ms arbitrary: w)
  case Nil
  then show ?case by simp
next
  case (Cons md ms)
  then show ?case by (cases md) (simp split: prod.split)
qed

text \<open>
  C10: the size of the log is bounded.  If every file is below the limit, and every message with its
  line end is, then after any sequence of \<open>Append\<close> calls in which the system calls succeed every
  file of the log is below the limit.
\<close>

theorem Append_bounded:
  assumes "log_ok r w" and "\<forall>i \<in> {1..logFilesCount r}. int (length (text_of (log_get r w i))) < maxFileBytes r"
    and "\<forall>(m, d) \<in> set ms. int (length (TrimSpace m @ [nl])) < maxFileBytes r"
  shows "\<forall>i \<in> {1..logFilesCount r}. int (length (text_of (log_get r (final (Append_all r ms) w) i))) < maxFileBytes r"
  unfolding Append_all_final using rot.app_all_bounded [OF assms] .

text \<open>
  C9: the log keeps the newest text, in order.  After any sequence of \<open>Append\<close> calls in which the
  system calls succeed, the files, read from the oldest to the newest, hold a suffix of what they held
  before followed by the lines appended, each once and in the order of the calls, where a line may be
  missing only if it was left out as a duplicate.
\<close>

theorem Append_keeps_newest:
  assumes "log_ok r w"
  shows "\<exists>ls. subseq ls (map (\<lambda>(m, d). TrimSpace m @ [nl]) ms)
    \<and> (list_all (\<lambda>(m, d). \<not> d) ms \<longrightarrow> ls = map (\<lambda>(m, d). TrimSpace m @ [nl]) ms)
    \<and> suffix (whole (logFilesCount r) (log_get r (final (Append_all r ms) w)))
        (whole (logFilesCount r) (log_get r w) @ concat ls)"
  using rot.app_all_suffix [OF assms, of ms] unfolding Append_all_final rot.added_def by blast

definition example_log :: RotatingLogger where
  "example_log = \<lparr>baseDirectory = ''/var/mqm/errors'', filenameFormat = (\<lambda>i. ''audit'' @ nat_digits i @ ''.json''),
     maxFileBytes = 20, logFilesCount = 3\<rparr>"

definition log_world :: world where
  "log_world = base_world\<lparr>files := [(''/var/mqm/errors'', DirNode)]\<rparr>"

lemma log_world_ok: "log_ok example_log log_world"
proof -
  have n: "{1..logFilesCount example_log} = {1, 2, 3}" by (auto simp: example_log_def)
  have i: "instanceFileName example_log 1 = ''/var/mqm/errors/audit1.json''"
    "instanceFileName example_log 2 = ''/var/mqm/errors/audit2.json''"
    "instanceFileName example_log 3 = ''/var/mqm/errors/audit3.json''" by code_simp+
  have "Clean ''/var/mqm/errors/audit1.json'' = ''/var/mqm/errors/audit1.json''"
    "Clean ''/var/mqm/errors/audit2.json'' = ''/var/mqm/errors/audit2.json''"
    "Clean ''/var/mqm/errors/audit3.json'' = ''/var/mqm/errors/audit3.json''"
    "Dir ''/var/mqm/errors/audit1.json'' = ''/var/mqm/errors''"
    "Dir ''/var/mqm/errors/audit2.json'' = ''/var/mqm/errors''"
    "Dir ''/var/mqm/errors/audit3.json'' = ''/var/mqm/errors''" by code_simp+
  with i show ?thesis
    unfolding log_ok_def names_ok_def n
    by (simp add: example_log_def log_world_def base_world_def file_or_none_def is_dir_def)
qed

theorem Append_bounded_witness:
  "int (length (text_of (log_get example_log
     (final (Append_all example_log [(''first line'', False), (''second line'', True)]) log_world) 1))) < maxFileBytes example_log"
proof -
  have "\<forall>i \<in> {1..logFilesCount example_log}. int (length (text_of (log_get example_log log_world i))) < maxFileBytes example_log"
    by (auto simp: log_get_def file_at_def log_world_def text_of_def example_log_def)
  moreover have "\<forall>(m, d) \<in> set [(''first line'', False), (''second line'', True)]. int (length (TrimSpace m @ [nl])) < maxFileBytes example_log"
    by code_simp
  ultimately show ?thesis
    using Append_bounded [OF log_world_ok] first_ok [OF log_world_ok] by blast
qed

theorem Append_keeps_newest_witness:
  "\<exists>ls. suffix (whole (logFilesCount example_log) (log_get example_log (final (Append_all example_log [(''first line'', False)]) log_world)))
        (whole (logFilesCount example_log) (log_get example_log log_world) @ concat ls)"
  using Append_keeps_newest [OF log_world_ok, of "[(''first line'', False)]"] by blast

text \<open>
  every rotation reports an error that did not happen.  Both deferred functions close the file
  that the variable holds at the end, so the second one closes a closed file: whenever a message
  causes a rotation, and even though no system call fails, \<open>Append\<close> ends by writing to the
  standard error that the log file could not be closed.
\<close>

theorem rotation_reports_close_error:
  assumes "log_ok r w"
    and "int (length (text_of (log_get r w 1))) + int (length (TrimSpace m @ [nl])) \<ge> maxFileBytes r"
  shows "last (trace (final (Append r m False) w)) =
    Stderr (''Error: close '' @ instanceFileName r 1 @ '': file already closed, Failed to close log file: ''
            @ instanceFileName r 1 @ [nl])"
proof -
  let ?p = "instanceFileName r 1" and ?l = "TrimSpace m @ [nl]" and ?c = "text_of (log_get r w 1)"
  from open_create_does [OF assms(1)] obtain w1 where
    w1: "run_state (open_create ?p) w = (Inr (), w1)" "does r w ((log_get r w)(1 := Some ?c)) w1" by blast
  then have ok1: "log_ok r w1" and g1: "log_get r w1 1 = Some ?c"
    using first_ok [OF assms(1)] unfolding does_def by fastforce+
  have "fs_read (files w1) ?p = Inr ?c"
    using log_file(2) [OF ok1 first_ok [OF ok1]] g1 by simp
  then obtain w3 where w3: "run_state (checkIfLogFileSizeExceeded r (length ?l) ?p) w1 = (Inr True, w3)"
    and same3: "files w3 = files w1" "faults w3 = faults w1"
    using assms(2) log_ok_fault [OF ok1] by (auto simp: checkIfLogFileSizeExceeded_def query_run)
  have "final (Append r m False) w = final (rotate_and_write r ?p ?l) w3"
    using w1(1) w3 by (simp add: Append_def Let_def checkIfMessageShouldBeAppended_def)
  moreover have "log_ok r w3" using log_step_same [OF ok1 same3(2,1)] by blast
  ultimately show ?thesis using rotate_and_write_does [of r w3 ?l] by simp
qed

theorem rotation_reports_close_error_witness:
  "last (trace (final (Append example_log ''a line too long for the file'' False) log_world)) =
    Stderr (''Error: close '' @ instanceFileName example_log 1 @ '': file already closed, Failed to close log file: ''
            @ instanceFileName example_log 1 @ [nl])"
  by (rule rotation_reports_close_error [OF log_world_ok]) code_simp


end
