(* ===== verification/Startup_Checks.thy ===== *)
theory Startup_Checks
  imports MQ_Version Queue_Manager_Config
begin

text \<open>
  What \<open>runmqserver\<close> finds out before it does anything: whether the license is accepted
  (\<open>license.go\<close>), whether it is the only instance (\<open>process.go\<close>), which versions it has
  (\<open>version.go\<close>) and whether FIPS cryptography is to be used (\<open>internal/fips\<close>).
\<close>

section \<open>The license\<close>

definition license_of_lang :: "string \<Rightarrow> string" where
  "license_of_lang lang =
    (if HasPrefix lang ''zh_TW'' then ''Chinese_TW.txt''
     else if HasPrefix lang ''zh'' then ''Chinese.txt''
     else if HasPrefix lang ''cs'' \<and> \<not> HasPrefix lang ''csb'' then ''Czech.txt''
     else if HasPrefix lang ''fr'' then ''French.txt''
     else if HasPrefix lang ''de'' then ''German.txt''
     else if HasPrefix lang ''el'' then ''Greek.txt''
     else if HasPrefix lang ''id'' then ''Indonesian.txt''
     else if HasPrefix lang ''it'' then ''Italian.txt''
     else if HasPrefix lang ''ja'' then ''Japanese.txt''
     else if HasPrefix lang ''ko'' \<and> \<not> HasPrefix lang ''kok'' then ''Korean.txt''
     else if HasPrefix lang ''lt'' then ''Lithuanian.txt''
     else if HasPrefix lang ''pl'' then ''Polish.txt''
     else if HasPrefix lang ''pt'' then ''Portugese.txt''
     else if HasPrefix lang ''ru'' then ''Russian.txt''
     else if HasPrefix lang ''sl'' then ''Slovenian.txt''
     else if HasPrefix lang ''es'' then ''Spanish.txt''
     else if HasPrefix lang ''tr'' then ''Turkish.txt''
     else ''English.txt'')"

definition resolveLicenseFile :: "string io" where
  "resolveLicenseFile = do {
     lang \<leftarrow> os_LookupEnv ''LANG'';
     return (case lang of None \<Rightarrow> ''English.txt'' | Some l \<Rightarrow> license_of_lang l)
   }"

definition checkLicense :: "(error + bool) io" where
  "checkLicense = do {
     lic \<leftarrow> os_LookupEnv ''LICENSE'';
     if lic = Some ''accept'' then return (Inr True)
     else if lic = Some ''view'' then do {
       f \<leftarrow> resolveLicenseFile;
       buf \<leftarrow> os_ReadFile (path_Join [''/opt/mqm/licenses'', f]);
       case buf of
         Inl err \<Rightarrow> do { log_Printf (error_text err); return (Inl err) }
       | Inr b \<Rightarrow> do { log_Printf b; return (Inr False) }
     } else do {
       log_Printf ''Error: Set environment variable LICENSE=accept to indicate acceptance of license terms and conditions.'';
       log_Printf ''License agreements and information can be viewed by setting the environment variable LICENSE=view.  You can also set the LANG environment variable to view the license in a different language.'';
       return (Inl (Errorf ''Set environment variable LICENSE=accept to indicate acceptance of license terms and conditions''))
     }
   }"

section \<open>The single process\<close>

definition determineExecutable :: "(error + string) io" where
  "determineExecutable = do {
     file \<leftarrow> ask executable;
     return (case file of Inl err \<Rightarrow> Inl err | Inr f \<Rightarrow> Inr (last_elem f))
   }"

definition verifyOnlyOne :: "string \<Rightarrow> (error + int) io" where
  "verifyOnlyOne programName = do {
     (out, rc, err) \<leftarrow> Run ''pgrep'' [programName];
     case err of
       Some e \<Rightarrow> do {
         log_Debug (''Failed to confirm single process: '' @ error_text e);
         return (Inr 1)
       }
     | None \<Rightarrow>
         let numOfProg = int (CountByte out nl) in
         return (if numOfProg \<noteq> 1
                 then Inl (Errorf (''Expected there to be only 1 instance of '' @ programName
                        @ '' but found '' @ Itoa numOfProg))
                 else Inr numOfProg)
   }"

definition verifySingleProcess :: "(error + unit) io" where
  "verifySingleProcess = do {
     programName \<leftarrow> determineExecutable;
     case programName of
       Inl err \<Rightarrow> return (Inl (Errorf (''Failed to determine name of this program - '' @ error_text err)))
     | Inr n \<Rightarrow> do {
         v \<leftarrow> verifyOnlyOne n;
         return (case v of
                   Inl err \<Rightarrow> Inl (Errorf ''You cannot run more than one instance of this program'')
                 | Inr _ \<Rightarrow> Inr ())
       }
   }"

section \<open>The versions\<close>

text \<open>The variables that the build of the image sets are arguments.\<close>

definition logDateStamp :: "string \<Rightarrow> unit io" where
  "logDateStamp imageCreated = log_Printf (''Image created: '' @ imageCreated)"

text \<open>The next two log nothing: their statements are commented out.\<close>

definition logGitRepo :: "unit io" where "logGitRepo = return ()"

definition logGitCommit :: "unit io" where "logGitCommit = return ()"

definition logImageTag :: "string \<Rightarrow> unit io" where
  "logImageTag imageTag = log_Printf (''Image tag: '' @ imageTag)"

definition log_on_error :: "error option \<Rightarrow> string \<Rightarrow> unit io" where
  "log_on_error err msg = (case err of None \<Rightarrow> return () | Some _ \<Rightarrow> log_Printf msg)"

text \<open>\<open>Get\<close> returns an empty text beside its error.\<close>

definition logMQVersion :: "unit io" where
  "logMQVersion = do {
     v \<leftarrow> Version_Get;
     mqVersion \<leftarrow> return (case v of Inl _ \<Rightarrow> [] | Inr s \<Rightarrow> s);
     log_on_error (case v of Inl e \<Rightarrow> Some e | Inr _ \<Rightarrow> None) (''Error Getting MQ version: '' @ TrimSuffix mqVersion [nl]);
     (mqBuild, rc, berr) \<leftarrow> Run ''dspmqver'' [''-b'', ''-f'', ''4''];
     log_on_error berr (''Error Getting MQ build: '' @ TrimSuffix mqBuild [nl]);
     (mqLicense, rc, lerr) \<leftarrow> Run ''dspmqver'' [''-b'', ''-f'', ''8192''];
     log_on_error lerr (''Error Getting MQ license: '' @ TrimSuffix mqLicense [nl]);
     log_Printf (''MQ version: '' @ TrimSuffix mqVersion [nl]);
     log_Printf (''MQ level: '' @ TrimSuffix mqBuild [nl]);
     log_Printf (''MQ license: '' @ TrimSuffix mqLicense [nl])
   }"

definition logVersionInfo :: "string \<Rightarrow> string \<Rightarrow> unit io" where
  "logVersionInfo imageCreated imageTag = do {
     logDateStamp imageCreated;
     logGitRepo;
     logGitCommit;
     logImageTag imageTag;
     logMQVersion
   }"

section \<open>FIPS\<close>

definition FIPS_ENABLED_OFF :: int where "FIPS_ENABLED_OFF = 0"
definition FIPS_ENABLED_PLATFORM :: int where "FIPS_ENABLED_PLATFORM = 1"
definition FIPS_ENABLED_ENV_VAR :: int where "FIPS_ENABLED_ENV_VAR = 2"

text \<open>The decision: the platform's setting and the value of \<open>MQ_ENABLE_FIPS\<close>; the flag says
  that the value is not recognised.\<close>

definition fips_decision :: "bool \<Rightarrow> string option \<Rightarrow> int \<times> bool" where
  "fips_decision platform override =
    (let t = (if platform then FIPS_ENABLED_PLATFORM else FIPS_ENABLED_OFF) in
     case override of
       None \<Rightarrow> (t, False)
     | Some v \<Rightarrow>
         if EqualFold v ''false'' \<or> EqualFold v ''0'' then (FIPS_ENABLED_OFF, False)
         else if EqualFold v ''true'' \<or> EqualFold v ''1''
         then (if t \<noteq> FIPS_ENABLED_PLATFORM then FIPS_ENABLED_ENV_VAR else t, False)
         else if EqualFold v ''auto'' then (t, False)
         else (t, True))"

definition ProcessFIPSType :: "unit io" where
  "ProcessFIPSType = do {
     (out, rc, err) \<leftarrow> Run ''sysctl'' [''crypto.fips_enabled''];
     platform \<leftarrow> return (err = None \<and> Contains out ''crypto.fips_enabled = 1'');
     override \<leftarrow> os_LookupEnv ''MQ_ENABLE_FIPS'';
     d \<leftarrow> return (fips_decision platform override);
     upd (\<lambda>w. w\<lparr>FIPSEnabledType := fst d\<rparr>);
     if snd d
     then log_Printf (''Invalid value '' @ [CHR 0x27] @ the override @ [CHR 0x27]
            @ '' was specified for MQ_ENABLE_FIPS. The value has been ignored.'' @ [nl])
     else return ()
   }"

definition IsFIPSEnabled :: "bool io" where
  "IsFIPSEnabled = ask (\<lambda>w. FIPSEnabledType w > FIPS_ENABLED_OFF)"

definition FIPS_PostInit :: "unit io" where
  "FIPS_PostInit = do {
     t \<leftarrow> ask FIPSEnabledType;
     log_Printf
       (if t = FIPS_ENABLED_PLATFORM
        then ''FIPS cryptography is enabled. FIPS cryptography setting on the host is '' @ [CHR 0x27] @ ''true'' @ [CHR 0x27] @ ''.''
        else if t = FIPS_ENABLED_ENV_VAR
        then ''FIPS cryptography is enabled. FIPS cryptography setting on the host is '' @ [CHR 0x27] @ ''false'' @ [CHR 0x27] @ ''.''
        else ''FIPS cryptography is not enabled.'')
   }"

section \<open>Properties\<close>

lemma resolveLicenseFile_emits [emits_intro]: "state_io_rel (emits E) resolveLicenseFile"
  unfolding resolveLicenseFile_def by (intro emits_intro)

lemma checkLicense_emits [emits_intro]:
  "(\<And>m. E (Log INFO m)) \<Longrightarrow> state_io_rel (emits E) checkLicense"
  unfolding checkLicense_def by (intro emits_intro)

lemma checkLicense_accept: "result checkLicense w = Inr True \<longleftrightarrow> map_of (env w) ''LICENSE'' = Some ''accept''"
  by (simp add: checkLicense_def split: prod.split sum.split)

lemma verifySingleProcess_emits [emits_intro]:
  "(\<And>l m. E (Log l m)) \<Longrightarrow> (\<And>a rc. E (Exec ''pgrep'' a rc)) \<Longrightarrow> state_io_rel (emits E) verifySingleProcess"
  unfolding verifySingleProcess_def determineExecutable_def verifyOnlyOne_def by (intro emits_intro)

lemma logVersionInfo_emits [emits_intro]:
  "(\<And>l m. E (Log l m)) \<Longrightarrow> (\<And>a rc. E (Exec ''dspmqver'' a rc)) \<Longrightarrow> state_io_rel (emits E) (logVersionInfo c t)"
  unfolding logVersionInfo_def logDateStamp_def logGitRepo_def logGitCommit_def logImageTag_def logMQVersion_def log_on_error_def
  by (intro emits_intro)

lemma ProcessFIPSType_emits [emits_intro]:
  "(\<And>l m. E (Log l m)) \<Longrightarrow> (\<And>a rc. E (Exec ''sysctl'' a rc)) \<Longrightarrow> state_io_rel (emits E) ProcessFIPSType"
  unfolding ProcessFIPSType_def by (intro emits_intro) simp_all

lemma FIPS_PostInit_emits [emits_intro]:
  "(\<And>l m. E (Log l m)) \<Longrightarrow> state_io_rel (emits E) FIPS_PostInit"
  unfolding FIPS_PostInit_def by (intro emits_intro)

lemma IsFIPSEnabled_emits [emits_intro]: "state_io_rel (emits E) IsFIPSEnabled"
  unfolding IsFIPSEnabled_def by (intro emits_intro)

text \<open>What the operating system says about FIPS, as \<open>sysctl\<close> reports it.\<close>

definition platform_fips :: "world \<Rightarrow> bool" where
  "platform_fips w \<longleftrightarrow>
    (case programs w (calls w) ''sysctl'' [''crypto.fips_enabled''] (env w) (files w) of
       (Exited out rc, _) \<Rightarrow> rc = 0 \<and> Contains out ''crypto.fips_enabled = 1''
     | _ \<Rightarrow> False)"

lemma Run_sysctl:
  assumes "run_state (Run ''sysctl'' [''crypto.fips_enabled'']) w = ((out, rc, err), w')"
  shows "(err = None \<and> Contains out ''crypto.fips_enabled = 1'') = platform_fips w" and "env w' = env w"
proof -
  obtain r f' where p: "programs w (calls w) ''sysctl'' [''crypto.fips_enabled''] (env w) (files w) = (r, f')"
    by (cases "programs w (calls w) ''sysctl'' [''crypto.fips_enabled''] (env w) (files w)")
  with assms show "(err = None \<and> Contains out ''crypto.fips_enabled = 1'') = platform_fips w" "env w' = env w"
    by (cases r; auto simp: Run_def RunContext_def exec_CombinedOutput_def platform_fips_def split: if_splits)+
qed

lemma ProcessFIPSType_final:
  "FIPSEnabledType (final ProcessFIPSType w) = fst (fips_decision (platform_fips w) (map_of (env w) ''MQ_ENABLE_FIPS''))"
proof -
  obtain out rc err w' where r: "run_state (Run ''sysctl'' [''crypto.fips_enabled'']) w = ((out, rc, err), w')"
    by (metis prod.collapse)
  show ?thesis
    using Run_sysctl [OF r] r by (simp add: ProcessFIPSType_def log_Printf_def)
qed

text \<open>
  FIPS mode follows the configuration.  After \<open>ProcessFIPSType\<close>, FIPS is enabled exactly if
  \<open>MQ_ENABLE_FIPS\<close> is (in any case) \<open>true\<close> or \<open>1\<close>, or is none of \<open>true\<close>, \<open>1\<close>, \<open>false\<close>,
  \<open>0\<close> and the operating system reports that it is enabled; an unrecognised value is the same as no
  value.  The message of \<open>PostInit\<close> says so: it is the one for disabled FIPS exactly if FIPS is not
  enabled.
\<close>

theorem FIPS_follows_configuration:
  "result IsFIPSEnabled (final ProcessFIPSType w) =
     (case map_of (env w) ''MQ_ENABLE_FIPS'' of
        None \<Rightarrow> platform_fips w
      | Some v \<Rightarrow> (EqualFold v ''true'' \<or> EqualFold v ''1'' \<or> platform_fips w)
                  \<and> \<not> (EqualFold v ''false'' \<or> EqualFold v ''0'')) \<and>
   (last (trace (final FIPS_PostInit (final ProcessFIPSType w))) = Log INFO ''FIPS cryptography is not enabled.'' \<longleftrightarrow>
      \<not> result IsFIPSEnabled (final ProcessFIPSType w))"
proof -
  let ?t = "FIPSEnabledType (final ProcessFIPSType w)"
  have "?t \<in> {0, 1, 2}"
    by (auto simp: ProcessFIPSType_final fips_decision_def Let_def FIPS_ENABLED_OFF_def FIPS_ENABLED_PLATFORM_def
        FIPS_ENABLED_ENV_VAR_def split: option.split)
  then have "last (trace (final FIPS_PostInit (final ProcessFIPSType w))) = Log INFO ''FIPS cryptography is not enabled.'' \<longleftrightarrow> \<not> 0 < ?t"
    by (auto simp: FIPS_PostInit_def log_Printf_def FIPS_ENABLED_PLATFORM_def FIPS_ENABLED_ENV_VAR_def)
  moreover have "0 < ?t \<longleftrightarrow> (case map_of (env w) ''MQ_ENABLE_FIPS'' of
        None \<Rightarrow> platform_fips w
      | Some v \<Rightarrow> (EqualFold v ''true'' \<or> EqualFold v ''1'' \<or> platform_fips w)
                  \<and> \<not> (EqualFold v ''false'' \<or> EqualFold v ''0''))"
    by (auto simp: ProcessFIPSType_final fips_decision_def Let_def FIPS_ENABLED_OFF_def FIPS_ENABLED_PLATFORM_def
        FIPS_ENABLED_ENV_VAR_def split: option.split)
  ultimately show ?thesis by (simp add: IsFIPSEnabled_def FIPS_ENABLED_OFF_def)
qed

end
