(* ===== verification/Volumes.thy ===== *)
theory Volumes
  imports Logger
begin

text \<open>
  Directories and files of the container: creating and cleaning volumes
  (\<open>cmd/runmqserver/crtmqvol.go\<close>), copying files (\<open>internal/copy\<close>), the check of their source
  (\<open>internal/filecheck\<close>) and files made from templates (\<open>internal/mqtemplate\<close>).
\<close>

section \<open>Creating and cleaning volumes\<close>

definition createVolume :: "string \<Rightarrow> (error + unit) io" where
  "createVolume dataPath = do {
     st \<leftarrow> os_Stat dataPath;
     case st of
       Inl err \<Rightarrow> if IsNotExist err then os_MkdirAll dataPath else return (Inl err)
     | Inr _ \<Rightarrow> return (Inr ())
   }"

definition cleanVolume :: "string \<Rightarrow> (error + unit) io" where
  "cleanVolume cleanPath = do {
     dirContents \<leftarrow> os_ReadDir cleanPath;
     case dirContents of
       Inl err \<Rightarrow> if \<not> IsNotExist err then return (Inl err) else return (Inr ())
     | Inr names \<Rightarrow> for_err (\<lambda>name. os_RemoveAll (path_Join [cleanPath, name])) names
   }"

text \<open>
  The paths that are not deleted: the loop adds a path and its parents as long as they start with
  the path to clean.  \<open>fuel\<close> bounds the number of rounds; a path has fewer parents than characters.
\<close>

fun skip_chain :: "nat \<Rightarrow> string \<Rightarrow> string \<Rightarrow> string list" where
  "skip_chain 0 cleanPath skipPath = []"
| "skip_chain (Suc fuel) cleanPath skipPath =
    (if skipPath \<noteq> ''.'' \<and> HasPrefix skipPath cleanPath
     then skipPath # skip_chain fuel cleanPath (Dir skipPath) else [])"

definition skipPathsMap :: "string \<Rightarrow> string list \<Rightarrow> string list" where
  "skipPathsMap cleanPath skipPaths =
    cleanPath # concat (map (\<lambda>p. skip_chain (Suc (length p)) cleanPath p) skipPaths)"

text \<open>The function that \<open>filepath.WalkDir\<close> calls; the result says \<open>filepath.SkipDir\<close>.\<close>

definition visit :: "string list \<Rightarrow> string \<Rightarrow> bool \<Rightarrow> bool io" where
  "visit skips path isDir =
    (if path \<in> set skips then do { log_Debug (''Skipping deletion of: '' @ path); return False }
     else do {
       log_Debug (''Removing: '' @ path);
       r \<leftarrow> os_RemoveAll path;
       case r of
         Inl err \<Rightarrow> do {
           log_Printf (''Warning: volume cleanup could not remove '' @ path @ '': '' @ error_text err);
           return False
         }
       | Inr _ \<Rightarrow> return isDir
     })"

text \<open>The entries of a directory with whether each is a directory itself.\<close>

definition fs_entries :: "fs \<Rightarrow> string \<Rightarrow> errno + (string \<times> bool) list" where
  "fs_entries f p =
    (case fs_readdir f p of
       Inl e \<Rightarrow> Inl e
     | Inr ns \<Rightarrow> Inr (map (\<lambda>n. (n, is_dir f (path_Join [p, n]))) ns))"

fun each :: "('a \<Rightarrow> unit io) \<Rightarrow> 'a list \<Rightarrow> unit io" where
  "each f [] = return ()"
| "each f (x # xs) = do { _ \<leftarrow> f x; each f xs }"

text \<open>
  \<open>filepath.WalkDir\<close> below a path: the function is called for the path and then, unless it says to
  skip it, for the entries of the directory in order; if the directory cannot be read the function is
  called once more.  \<open>fuel\<close> is the depth to which directories are nested, which is less than the
  number of files.
\<close>

primrec walkDir :: "nat \<Rightarrow> string list \<Rightarrow> string \<Rightarrow> bool \<Rightarrow> unit io" where
  "walkDir 0 skips path isDir = return ()"
| "walkDir (Suc fuel) skips path isDir = do {
     skip \<leftarrow> visit skips path isDir;
     if skip \<or> \<not> isDir then return ()
     else do {
       dirs \<leftarrow> query ''open'' fs_entries path;
       case dirs of
         Inl err \<Rightarrow> do { _ \<leftarrow> visit skips path isDir; return () }
       | Inr entries \<Rightarrow> each (\<lambda>(n, d). walkDir fuel skips (path_Join [path, n]) d) entries
     }
   }"

text \<open>\<open>os.Lstat\<close>: the node itself, not what a link points to.\<close>

definition fs_lstat :: "fs \<Rightarrow> string \<Rightarrow> errno + inode" where
  "fs_lstat f p = (case map_of f (Clean p) of None \<Rightarrow> Inl ENOENT | Some i \<Rightarrow> Inr i)"

definition cleanVolumeBestEffort :: "string \<Rightarrow> string list \<Rightarrow> unit io" where
  "cleanVolumeBestEffort cleanPath skipPaths = do {
     skips \<leftarrow> return (skipPathsMap cleanPath skipPaths);
     log_Debug (''Begin cleaning path: '' @ cleanPath);
     info \<leftarrow> query ''lstat'' fs_lstat cleanPath;
     depth \<leftarrow> ask (\<lambda>w. Suc (length (files w)));
     (case info of
        Inl err \<Rightarrow> do { _ \<leftarrow> visit skips cleanPath False; return () }
      | Inr i \<Rightarrow> walkDir depth skips cleanPath (i = DirNode));
     log_Debug (''Finished cleaning path: '' @ cleanPath)
   }"

section \<open>Copying files\<close>

definition filepath_Abs :: "string \<Rightarrow> string io" where
  "filepath_Abs p =
    (if IsAbs p then return (Clean p)
     else do {
       f \<leftarrow> syscall ''getwd'' [];
       d \<leftarrow> ask cwd;
       return (case f of Some _ \<Rightarrow> [] | None \<Rightarrow> path_Join [d, p])
     })"

definition forbidden_prefixes :: "string list" where
  "forbidden_prefixes = [''bin'', ''boot'', ''dev'', ''lib'', ''lib64'', ''proc'', ''sbin'', ''sys'']"

definition CheckFileSource :: "string \<Rightarrow> error option io" where
  "CheckFileSource fileName = do {
     absFile \<leftarrow> filepath_Abs fileName;
     return (if list_ex (\<lambda>pre. HasPrefix absFile (CleanPath [''/'', pre])) forbidden_prefixes
             then Some (Errorf (''Filename resolves to invalid path '' @ absFile))
             else None)
   }"

definition CopyFileMode :: "string \<Rightarrow> string \<Rightarrow> (error + unit) io" where
  "CopyFileMode src dest = do {
     chk \<leftarrow> CheckFileSource src;
     case chk of
       Some err \<Rightarrow> return (Inl (Errorf (''failed to open '' @ src @ '' for copy: '' @ error_text err)))
     | None \<Rightarrow> do {
         inp \<leftarrow> os_ReadFile src;
         case inp of
           Inl err \<Rightarrow> return (Inl (Errorf (''failed to open '' @ src @ '' for copy: '' @ error_text err)))
         | Inr c \<Rightarrow> do {
             out \<leftarrow> os_OverwriteFile dest [];
             case out of
               Inl err \<Rightarrow> return (Inl (Errorf (''failed to open '' @ dest @ '' for copy: '' @ error_text err)))
             | Inr _ \<Rightarrow> do {
                 cp \<leftarrow> os_OverwriteFile dest c;
                 case cp of
                   Inl err \<Rightarrow> return (Inl err)
                 | Inr _ \<Rightarrow> do {
                     cl \<leftarrow> syscall ''close'' dest;
                     return (case cl of Some e \<Rightarrow> Inl (PathError ''close'' dest e) | None \<Rightarrow> Inr ())
                   }
               }
           }
       }
   }"

definition CopyFile :: "string \<Rightarrow> string \<Rightarrow> (error + unit) io" where
  "CopyFile src dest = CopyFileMode src dest"

section \<open>Files made from templates\<close>

text \<open>
  The template engine is the parameter \<open>render\<close>: parsing the template's text fails, or executing it
  with the data writes a text and may fail.  The error of opening the destination is overwritten, and
  writing to the nil file fails.
\<close>

type_synonym template_engine = "string \<Rightarrow> (string \<times> string) list \<Rightarrow> error + string \<times> error option"

definition execute_to :: "string \<Rightarrow> string \<Rightarrow> error option \<Rightarrow> error option io" where
  "execute_to destFile t execErr = do {
     f \<leftarrow> os_OverwriteFile destFile [];
     case f of
       Inl _ \<Rightarrow> return (if t \<noteq> [] then Some (Errorf ''invalid argument'') else execErr)
     | Inr _ \<Rightarrow> do {
         r \<leftarrow> os_OverwriteFile destFile t;
         return (case r of Inl e \<Rightarrow> Some e | Inr _ \<Rightarrow> execErr)
       }
   }"

definition ProcessTemplateFile ::
  "template_engine \<Rightarrow> string \<Rightarrow> string \<Rightarrow> (string \<times> string) list \<Rightarrow> (error + unit) io" where
  "ProcessTemplateFile render templateFile destFile data = do {
     src \<leftarrow> os_ReadFile templateFile;
     case (case src of Inl err \<Rightarrow> Inl err | Inr s \<Rightarrow> render s data) of
       Inl err \<Rightarrow> do { log_Error (error_text err); return (Inl err) }
     | Inr (t, execErr) \<Rightarrow> do {
         st \<leftarrow> os_Stat (Dir destFile);
         mk \<leftarrow> (case st of
                 Inr _ \<Rightarrow> return (Inr ())
               | Inl err \<Rightarrow>
                   if IsNotExist err then do {
                     r \<leftarrow> os_MkdirAll (Dir destFile);
                     case r of
                       Inl e \<Rightarrow> do { log_Error (error_text e); return (Inl e) }
                     | Inr _ \<Rightarrow> return (Inr ())
                   } else return (Inl err));
         case mk of
           Inl err \<Rightarrow> return (Inl err)
         | Inr _ \<Rightarrow> do {
             e \<leftarrow> execute_to destFile t execErr;
             case e of
               Some err \<Rightarrow> do { log_Error (error_text err); return (Inl err) }
             | None \<Rightarrow> return (Inr ())
           }
       }
   }"

lemma execute_to_emits [emits_intro]: "E (Wrote d) \<Longrightarrow> state_io_rel (emits E) (execute_to d t e)"
  unfolding execute_to_def by (intro emits_intro)

lemma ProcessTemplateFile_emits [emits_intro]:
  "E (Wrote d) \<Longrightarrow> E (Wrote (Dir d)) \<Longrightarrow> (\<And>l m. E (Log l m)) \<Longrightarrow> state_io_rel (emits E) (ProcessTemplateFile render t d x)"
  unfolding ProcessTemplateFile_def by (intro emits_intro)

section \<open>Cleaning never removes what is to be kept\<close>

text \<open>A file system whose paths are all clean and absolute.\<close>

definition fs_clean :: "fs \<Rightarrow> bool" where
  "fs_clean f \<longleftrightarrow> (\<forall>p \<in> set (map fst f). list_all plain_elem (comps p) \<and> p = abs_path (comps p))"

text \<open>The paths in \<open>S\<close> are the same files before and after.\<close>

definition spares :: "string set \<Rightarrow> world \<Rightarrow> world \<Rightarrow> bool" where
  "spares S w w' \<longleftrightarrow>
    (fs_clean (files w) \<longrightarrow> fs_clean (files w') \<and> (\<forall>s \<in> S. map_of (files w') s = map_of (files w) s))"

interpretation sp: kept "spares S" for S
  by unfold_locales (auto simp: spares_def)

lemma map_of_filter_keep: "P k \<Longrightarrow> map_of (filter (\<lambda>(q, _). P q) f) k = map_of f k"
  by (induction f) auto

lemma RemoveAll_spares:
  assumes "\<forall>s \<in> S. \<not> below (Clean p) s"
  shows "state_io_rel (spares S) (os_RemoveAll p)"
proof (rule state_io_relI)
  fix r w w' assume r: "run_state (os_RemoveAll p) w = (r, w')"
  then consider "files w' = files w" | "files w' = filter (\<lambda>(q, _). \<not> below (Clean p) q) (files w)"
    by (cases "fault_of w ''unlinkat'' p")
       (auto simp: os_RemoveAll_def change_def query_run fs_removeall_def split: option.splits sum.splits)
  then show "spares S w w'"
  proof cases
    case 1
    then show ?thesis by (simp add: spares_def)
  next
    case 2
    with assms show ?thesis
      unfolding spares_def
      by (auto simp: map_of_filter_keep [where P = "\<lambda>q. \<not> below (Clean p) q"] fs_clean_def)
  qed
qed

lemma same_files_spares: "(\<And>w x w'. run_state m w = (x, w') \<Longrightarrow> files w' = files w) \<Longrightarrow> state_io_rel (spares S) m"
  by (rule state_io_relI) (auto simp: spares_def)

lemma log_spares: "state_io_rel (spares S) (log_Debug s)" "state_io_rel (spares S) (log_Printf s)"
  by (rule same_files_spares, auto simp: log_Debug_def log_Printf_def split: if_splits)+

lemma query_spares: "state_io_rel (spares S) (query oper f p)"
  by (rule same_files_spares) (auto simp: query_run)

lemmas sp_rules = sp.io_rules log_spares query_spares

lemma visit_spares:
  assumes "p \<in> set skips \<or> (\<forall>s \<in> S. \<not> below (Clean p) s)"
  shows "state_io_rel (spares S) (visit skips p d)"
  unfolding visit_def by (intro sp_rules RemoveAll_spares) (use assms in blast)

lemma each_spares: "(\<And>x. x \<in> set xs \<Longrightarrow> state_io_rel (spares S) (f x)) \<Longrightarrow> state_io_rel (spares S) (each f xs)"
  by (induction xs) (auto intro!: sp.io_bind sp.io_return)

text \<open>The names of the entries of a directory are plain.\<close>

lemma children_plain:
  assumes "fs_clean f" "n \<in> set (children f d)"
  shows "plain_elem n"
proof -
  from assms(2) obtain q where q: "q \<in> set (map fst f)" "q \<noteq> ''/''" "n = last_elem q"
    by (force simp: children_def)
  with assms(1) have c: "list_all plain_elem (comps q)" "q = abs_path (comps q)" by (auto simp: fs_clean_def)
  with q(2) have "comps q \<noteq> []" by (auto simp: abs_path_def)
  then obtain cs e where "comps q = cs @ [e]" by (metis rev_exhaust)
  with c(1) have e: "plain_elem e" by simp
  have "q = abs_path (cs @ [e])" using c(2) \<open>comps q = cs @ [e]\<close> by simp
  with q(3) e show ?thesis by (simp add: last_elem_abs_path)
qed

lemma entries_plain:
  assumes "fs_clean f" "fs_entries f p = Inr es" "(n, d) \<in> set es"
  shows "plain_elem n"
  using assms by (auto simp: fs_entries_def fs_readdir_def intro: children_plain split: sum.splits inode.splits)

lemma query_bind_spares:
  assumes "\<And>e. state_io_rel (spares S) (k (Inl e))"
    and "\<And>f x. fs_clean f \<Longrightarrow> g f p = Inr x \<Longrightarrow> state_io_rel (spares S) (k (Inr x))"
  shows "state_io_rel (spares S) (State_Monad.bind (query oper g p) k)"
proof (rule state_io_relI)
  fix y w w' assume r: "run_state (State_Monad.bind (query oper g p) k) w = (y, w')"
  let ?w1 = "w\<lparr>calls := Suc (calls w)\<rparr>"
  from r obtain x where x: "run_state (query oper g p) w = (x, ?w1)" "run_state (k x) ?w1 = (y, w')"
    by (auto simp: query_run)
  have "spares S ?w1 w' \<or> \<not> fs_clean (files w)"
  proof (cases x)
    case (Inl e)
    with assms(1) x show ?thesis by blast
  next
    case (Inr z)
    with x(1) have "g (files w) p = Inr z" by (auto simp: query_run split: option.splits sum.splits)
    with assms(2) [of "files w"] x Inr show ?thesis by blast
  qed
  then show "spares S w w'" by (auto simp: spares_def)
qed

text \<open>
  The walk spares \<open>S\<close> if every path below the starting point that lies above a path of \<open>S\<close> is
  skipped.
\<close>

definition guarded :: "string list \<Rightarrow> string set \<Rightarrow> string list \<Rightarrow> bool" where
  "guarded skips S bs \<longleftrightarrow> (\<forall>ds s. list_all plain_elem (bs @ ds) \<longrightarrow> s \<in> S \<longrightarrow>
     below (abs_path (bs @ ds)) s \<longrightarrow> abs_path (bs @ ds) \<in> set skips)"

lemma walkDir_spares:
  assumes "guarded skips S bs" "list_all plain_elem (bs @ ds)"
  shows "state_io_rel (spares S) (walkDir fuel skips (abs_path (bs @ ds)) d)"
  using assms(2)
proof (induction fuel arbitrary: ds d)
  case 0
  show ?case by (simp add: sp.io_return)
next
  case (Suc fuel)
  let ?p = "abs_path (bs @ ds)"
  have v: "state_io_rel (spares S) (visit skips ?p d)" for d
  proof (rule visit_spares)
    have "Clean ?p = ?p" using Suc.prems by simp
    then show "?p \<in> set skips \<or> (\<forall>s \<in> S. \<not> below (Clean ?p) s)"
      using assms(1) Suc.prems unfolding guarded_def by metis
  qed
  have step: "state_io_rel (spares S) (each (\<lambda>(n, d). walkDir fuel skips (path_Join [?p, n]) d) es)"
    if "fs_clean f" "fs_entries f ?p = Inr es" for f es
  proof (rule each_spares, clarify)
    fix n d' assume "(n, d') \<in> set es"
    with entries_plain [OF that] have n: "plain_elem n" .
    then have "path_Join [?p, n] = abs_path (bs @ (ds @ [n]))"
      using path_Join_child [OF Suc.prems n] by simp
    moreover have "state_io_rel (spares S) (walkDir fuel skips (abs_path (bs @ (ds @ [n]))) d')"
      using Suc.prems n by (intro Suc.IH) simp
    ultimately show "state_io_rel (spares S) (walkDir fuel skips (path_Join [?p, n]) d')" by simp
  qed
  show ?case
    by (simp only: walkDir.simps)
       (intro sp.io_bind v sp.io_if sp.io_return query_bind_spares; simp add: sp.io_bind v sp.io_return step)
qed

text \<open>The chain of parents.\<close>

lemma skip_chain_complete:
  assumes "list_all plain_elem (bs @ cs)" "bs \<noteq> []" "prefix ds cs" "length cs - length ds < n"
  shows "abs_path (bs @ ds) \<in> set (skip_chain n (abs_path bs) (abs_path (bs @ cs)))"
  using assms
proof (induction cs arbitrary: n rule: rev_induct)
  case Nil
  then show ?case by (cases n) (auto simp: go_defs abs_path_def)
next
  case (snoc c cs)
  obtain m where n: "n = Suc m" using snoc.prems(4) by (cases n) auto
  have pre: "HasPrefix (abs_path (bs @ cs @ [c])) (abs_path bs)"
    using prefix_abs_path [of bs "bs @ cs @ [c]"] snoc.prems(1,2) by (auto simp: go_defs dest: append_prefixD)
  have dot: "abs_path (bs @ cs @ [c]) \<noteq> ''.''" by (simp add: abs_path_def)
  have dir: "Dir (abs_path (bs @ cs @ [c])) = abs_path (bs @ cs)"
    using Dir_abs_path [of "bs @ cs" c] snoc.prems(1) by simp
  show ?case
  proof (cases "ds = cs @ [c]")
    case True
    with n pre dot show ?thesis by simp
  next
    case False
    with snoc.prems(3) have ds: "prefix ds cs" by (metis prefix_snoc)
    then have "length ds \<le> length cs" by (rule prefix_length_le)
    with ds snoc.prems n have "abs_path (bs @ ds) \<in> set (skip_chain m (abs_path bs) (abs_path (bs @ cs)))"
      by (intro snoc.IH) auto
    with n pre dot dir show ?thesis by simp
  qed
qed

lemma abs_path_longer: "list_all plain_elem cs \<Longrightarrow> length cs \<le> length (abs_path cs)"
proof (induction cs rule: rev_induct)
  case Nil
  show ?case by simp
next
  case (snoc c cs)
  then show ?case by (auto simp: abs_path_snoc)
qed

lemma skipPathsMap_guarded:
  assumes "list_all plain_elem bs" "bs \<noteq> []"
    and "\<forall>p \<in> set skipPaths. \<exists>cs. p = abs_path (bs @ cs) \<and> list_all plain_elem cs"
  shows "guarded (skipPathsMap (abs_path bs) skipPaths) (set skipPaths) bs"
  unfolding guarded_def
proof (intro allI impI)
  fix ds s assume ds: "list_all plain_elem (bs @ ds)" and s: "s \<in> set skipPaths"
    and b: "below (abs_path (bs @ ds)) s"
  from assms(3) s obtain cs where cs: "s = abs_path (bs @ cs)" "list_all plain_elem cs" by blast
  have "abs_path (bs @ ds) \<noteq> abs_path []"
    using abs_path_inj [of "bs @ ds" "[]"] assms(2) ds by auto
  then have "abs_path (bs @ ds) \<noteq> ''/''" by (simp add: abs_path_def)
  with b cs(1) have "prefix (bs @ ds) (bs @ cs)"
    using prefix_abs_path [of "bs @ ds" "bs @ cs"] assms(1,2) ds cs(2) by (auto simp: below_def)
  then have "prefix ds cs" by simp
  then have "abs_path (bs @ ds) \<in> set (skip_chain (Suc (length s)) (abs_path bs) s)"
    using skip_chain_complete [of bs cs ds "Suc (length s)"] assms(1,2) cs abs_path_longer [of "bs @ cs"] by simp
  with s show "abs_path (bs @ ds) \<in> set (skipPathsMap (abs_path bs) skipPaths)"
    by (auto simp: skipPathsMap_def)
qed


definition volume_world :: world where
  "volume_world = base_world\<lparr>files :=
    [(''/mnt'', DirNode), (''/mnt/mqm'', DirNode), (''/mnt/mqm/scratch'', DirNode),
     (''/mnt/mqm/scratch/old'', FileNode ''x''), (''/mnt/mqm/scratch/termination-log'', FileNode ''why'')]\<rparr>"


section \<open>Cleaning empties a volume\<close>

lemma RemoveAll_run:
  assumes "run_state (os_RemoveAll p) w = (Inr u, w')"
  shows "files w' = filter (\<lambda>(q, _). \<not> below (Clean p) q) (files w)"
  using assms by (auto simp: os_RemoveAll_def fs_removeall_def dest: change_run_Inr)

lemma RemoveAll_each:
  assumes "run_state (for_err (\<lambda>n. os_RemoveAll (g n)) ns) w = (Inr u, w')"
  shows "files w' = filter (\<lambda>(q, _). \<forall>n \<in> set ns. \<not> below (Clean (g n)) q) (files w)"
  using assms
proof (induction ns arbitrary: w)
  case Nil
  then show ?case by (simp add: case_prod_beta)
next
  case (Cons n ns)
  then obtain v w1 where n: "run_state (os_RemoveAll (g n)) w = (Inr v, w1)"
    "run_state (for_err (\<lambda>n. os_RemoveAll (g n)) ns) w1 = (Inr u, w')"
    by (auto split: prod.splits sum.splits)
  have "files w' = filter (\<lambda>(q, _). \<forall>n \<in> set ns. \<not> below (Clean (g n)) q) (filter (\<lambda>(q, _). \<not> below (Clean (g n)) q) (files w))"
    using Cons.IH [OF n(2)] RemoveAll_run [OF n(1)] by simp
  then show ?case by (simp add: case_prod_beta conj_commute)
qed

lemma below_child:
  assumes "list_all plain_elem cs" "below (abs_path (cs @ [n])) q"
  shows "below (abs_path cs) q"
proof -
  have pre: "prefix (abs_path (cs @ [n])) q"
    using assms(2) by (auto simp: below_def dest: append_prefixD split: if_splits)
  show ?thesis
  proof (cases "cs = []")
    case True
    with pre show ?thesis by (auto simp: below_def abs_path_def prefix_def)
  next
    case False
    then have "abs_path cs \<noteq> abs_path []" using abs_path_inj [of cs "[]"] assms(1) by auto
    then have "abs_path cs \<noteq> ''/''" by (simp add: abs_path_def)
    moreover have "prefix (abs_path cs @ ''/'') q"
      using pre False by (auto simp: abs_path_snoc prefix_def)
    ultimately show ?thesis by (simp add: below_def)
  qed
qed

text \<open>
  \<open>cleanVolume\<close> empties a directory.  If it returns without an error, the directory has no entry
  left; every file that was not below the directory is as it was.
\<close>

theorem cleanVolume_empties:
  assumes "fs_clean (files w)" and "list_all plain_elem cs" and "map_of (files w) (abs_path cs) = Some DirNode"
    and "run_state (cleanVolume (abs_path cs)) w = (Inr u, w')"
  shows "children (files w') (abs_path cs) = [] \<and>
    (\<forall>q. \<not> below (abs_path cs) q \<longrightarrow> map_of (files w') q = map_of (files w) q)"
proof -
  let ?d = "abs_path cs"
  have path: "fs_path (files w) ?d = Inr ?d"
    using assms(2,3) by (simp add: fs_path_def numeral_eq_Suc)
  then have rd: "fs_readdir (files w) ?d = Inr (children (files w) ?d)"
    using assms(3) by (auto simp: fs_readdir_def fs_stat_def)
  let ?ns = "children (files w) ?d" and ?w1 = "w\<lparr>calls := Suc (calls w)\<rparr>"
  from assms(4) rd have "run_state (for_err (\<lambda>n. os_RemoveAll (path_Join [?d, n])) ?ns) ?w1 = (Inr u, w')"
    by (auto simp: cleanVolume_def os_ReadDir_def query_run split: option.splits if_splits)
  from RemoveAll_each [OF this]
  have f': "files w' = filter (\<lambda>(q, _). \<forall>n \<in> set ?ns. \<not> below (Clean (path_Join [?d, n])) q) (files w)" by simp
  have child: "Clean (path_Join [?d, n]) = abs_path (cs @ [n])" if "n \<in> set ?ns" for n
    using children_plain [OF assms(1) that] assms(2) by (simp add: path_Join_child)
  show ?thesis
  proof (intro conjI allI impI)
    show "children (files w') ?d = []"
    proof (rule ccontr)
      assume "children (files w') ?d \<noteq> []"
      then have "filter (\<lambda>(q, _). q \<noteq> ''/'' \<and> Dir q = ?d) (files w') \<noteq> []"
        by (auto simp: children_def simp del: filter_False)
      then obtain q i where q: "(q, i) \<in> set (files w')" "q \<noteq> ''/''" "Dir q = ?d"
        by (auto simp: filter_empty_conv)
      then have qw: "(q, i) \<in> set (files w)" using f' by auto
      then have c: "list_all plain_elem (comps q)" "q = abs_path (comps q)"
        using assms(1) by (auto simp: fs_clean_def)
      with q(2) obtain ds e where de: "comps q = ds @ [e]" by (cases "comps q" rule: rev_cases) (auto simp: abs_path_def)
      with c have "Dir q = abs_path ds" "last_elem q = e"
        using Dir_abs_path [of ds e] last_elem_abs_path [of e ds] by (auto simp del: append_assoc)
      with q(3) c de assms(2) have "ds = cs" using abs_path_inj [of ds cs] by simp
      have "e \<in> set ?ns"
        using qw q(2,3) \<open>last_elem q = e\<close> by (force simp: children_def)
      with child have "Clean (path_Join [?d, e]) = q" using c(2) de \<open>ds = cs\<close> by simp
      with \<open>e \<in> set ?ns\<close> q(1) f' show False by (auto simp: below_def)
    qed
  next
    fix q assume nb: "\<not> below ?d q"
    have "\<not> below (abs_path (cs @ [n])) q" for n
      using nb below_child [OF assms(2)] by blast
    then show "map_of (files w') q = map_of (files w) q"
      unfolding f' using child by (intro map_of_filter_keep) auto
  qed
qed

theorem cleanVolume_empties_witness:
  "children (files (final (cleanVolume ''/mnt/mqm/scratch'') volume_world)) ''/mnt/mqm/scratch'' = []"
proof -
  let ?cs = "[''mnt'', ''mqm'', ''scratch'']"
  have p: "abs_path ?cs = ''/mnt/mqm/scratch''" by code_simp
  have h: "fs_clean (files volume_world)" "list_all plain_elem ?cs"
    "map_of (files volume_world) (abs_path ?cs) = Some DirNode"
    "result (cleanVolume (abs_path ?cs)) volume_world = Inr ()" by code_simp+
  from h(4) have "run_state (cleanVolume (abs_path ?cs)) volume_world
      = (Inr (), final (cleanVolume (abs_path ?cs)) volume_world)" by (metis prod.collapse)
  from cleanVolume_empties [OF h(1-3) this] show ?thesis unfolding p by blast
qed

section \<open>Copying\<close>

lemma CheckFileSource_run:
  assumes "run_state (CheckFileSource p) w = (x, w')"
  shows "files w' = files w \<and> trace w' = trace w"
  using assms by (auto simp: CheckFileSource_def filepath_Abs_def split: if_splits)

lemma CleanPath_forbidden:
  "map (\<lambda>p. CleanPath [''/'', p]) forbidden_prefixes = map (\<lambda>p. ''/'' @ p) forbidden_prefixes"
  by code_simp

lemma CheckFileSource_abs:
  assumes "IsAbs p" "result (CheckFileSource p) w = None" "comps p \<noteq> []"
  shows "hd (comps p) \<notin> set forbidden_prefixes"
proof
  assume h: "hd (comps p) \<in> set forbidden_prefixes"
  from assms(3) obtain c cs where c: "comps p = c # cs" by (cases "comps p") auto
  with assms(1) have "Clean p = ''/'' @ c @ (if cs = [] then [] else ''/'' @ Join cs ''/'')"
    by (cases cs) (simp_all add: Clean_def)
  then have "HasPrefix (Clean p) (''/'' @ c)" by (simp add: go_defs)
  moreover have "''/'' @ c \<in> set (map (\<lambda>p. CleanPath [''/'', p]) forbidden_prefixes)"
    using h c unfolding CleanPath_forbidden by (auto simp del: append.simps)
  ultimately have "list_ex (\<lambda>pre. HasPrefix (Clean p) (CleanPath [''/'', pre])) forbidden_prefixes"
    by (auto simp: list_ex_iff simp del: append.simps)
  with assms(1,2) show False by (simp add: CheckFileSource_def filepath_Abs_def)
qed

text \<open>
  what \<open>CopyFile\<close> does when it returns without an error: the destination starts with the
  contents of the source; if the destination existed and was longer, the rest of its old contents
  stays behind them, since the file is not truncated.  The source of a copy is never below one of the
  system directories, and when \<open>CopyFile\<close> refuses a source no file is changed.
\<close>

theorem CopyFile_contents:
  assumes "IsAbs src" "comps src \<noteq> []"
  shows "(result (CopyFile src dest) w = Inr () \<longrightarrow>
      hd (comps src) \<notin> set forbidden_prefixes \<and>
      (\<exists>c. fs_read (files w) src = Inr c \<and>
        fs_read (files (final (CopyFile src dest) w)) dest
          = Inr (overwrite c (case fs_read (files w) dest of Inr old \<Rightarrow> Some old | Inl _ \<Rightarrow> None)))) \<and>
    (hd (comps src) \<in> set forbidden_prefixes \<longrightarrow> files (final (CopyFile src dest) w) = files w)"
proof (intro conjI impI)
  obtain chk w1 where k: "run_state (CheckFileSource src) w = (chk, w1)" by (cases "run_state (CheckFileSource src) w")
  note same = CheckFileSource_run [OF k]
  have nf: "hd (comps src) \<notin> set forbidden_prefixes" if "chk = None"
    using CheckFileSource_abs [OF assms(1) _ assms(2), of w] k that by simp
  assume ok: "result (CopyFile src dest) w = Inr ()"
  with k have chk: "chk = None" by (auto simp: CopyFile_def CopyFileMode_def split: option.splits)
  with nf show "hd (comps src) \<notin> set forbidden_prefixes" by simp
  from ok k chk obtain c w2 u3 w3 u4 w4 where c: "run_state (os_ReadFile src) w1 = (Inr c, w2)"
    "run_state (os_OverwriteFile dest []) w2 = (Inr u3, w3)" "run_state (os_OverwriteFile dest c) w3 = (Inr u4, w4)"
    "files (final (CopyFile src dest) w) = files w4"
    by (auto simp: CopyFile_def CopyFileMode_def split: prod.splits sum.splits option.splits)
  from c(1) have "fs_read (files w1) src = Inr c" "files w2 = files w1"
    by (auto simp: os_ReadFile_def query_run split: option.splits sum.splits)
  moreover from c(2) have w3: "fs_write (overwrite []) (files w2) dest = Inr (files w3)"
    unfolding os_OverwriteFile_def by (rule change_run_Inr)
  moreover from c(3) have w4: "fs_write (overwrite c) (files w3) dest = Inr (files w4)"
    unfolding os_OverwriteFile_def by (rule change_run_Inr)
  ultimately show "\<exists>c. fs_read (files w) src = Inr c \<and>
      fs_read (files (final (CopyFile src dest) w)) dest
        = Inr (overwrite c (case fs_read (files w) dest of Inr old \<Rightarrow> Some old | Inl _ \<Rightarrow> None))"
    using fs_read_write [OF w3] fs_read_write [OF w4] same c(4)
    by (cases "fs_read (files w) dest") auto
next
  obtain chk w1 where k: "run_state (CheckFileSource src) w = (chk, w1)" by (cases "run_state (CheckFileSource src) w")
  assume "hd (comps src) \<in> set forbidden_prefixes"
  then have "chk \<noteq> None" using CheckFileSource_abs [OF assms(1) _ assms(2), of w] k by auto
  with k CheckFileSource_run [OF k] show "files (final (CopyFile src dest) w) = files w"
    by (auto simp: CopyFile_def CopyFileMode_def)
qed

definition copy_world :: world where
  "copy_world = base_world\<lparr>files :=
    [(''/etc'', DirNode), (''/run'', DirNode), (''/etc/new'', FileNode ''new''), (''/run/conf'', FileNode ''old text'')]\<rparr>"

theorem CopyFile_contents_witness:
  "fs_read (files (final (CopyFile ''/etc/new'' ''/run/conf'') copy_world)) ''/run/conf'' = Inr ''new text''"
proof -
  have "IsAbs ''/etc/new''" "comps ''/etc/new'' \<noteq> []" "result (CopyFile ''/etc/new'' ''/run/conf'') copy_world = Inr ()"
    "fs_read (files copy_world) ''/etc/new'' = Inr ''new''" "fs_read (files copy_world) ''/run/conf'' = Inr ''old text''"
    by code_simp+
  with CopyFile_contents [of "''/etc/new''" "''/run/conf''" copy_world] show ?thesis by auto
qed

end
