(* ===== verification/Container_Runtime.thy ===== *)
theory Container_Runtime
  imports Startup_Checks
begin

text \<open>
  What the programs find out about the container they run in: the packages
  \<open>internal/containerruntime\<close>, \<open>internal/user\<close> and \<open>pkg/containerruntimelogger\<close>.

  A Go map is an association list; ranging over it follows the list, which is one of the orders
  that Go may choose.  The third-party package \<open>gocapability\<close>, the system calls for the process,
  and the platform's names are the record \<open>platform\<close>, an argument of the functions that use it.
  \<open>GetMounts\<close> indexes the words of a line without looking how many there are; its panic is \<open>None\<close>.
\<close>

section \<open>Reading the system's files\<close>

definition readProc :: "string \<Rightarrow> (error + string) io" where
  "readProc filename = do {
     buf \<leftarrow> os_ReadFile filename;
     return (case buf of Inl err \<Rightarrow> Inl err | Inr b \<Rightarrow> Inr (TrimSpace b))
   }"

fun base_image_of :: "string list \<Rightarrow> string" where
  "base_image_of [] = ''unknown''"
| "base_image_of (l # ls) =
    (let words = Split l quote in
     if HasPrefix l ''PRETTY_NAME='' \<and> length words \<ge> 2 then words ! 1 else base_image_of ls)"

definition GetBaseImage :: "(error + string) io" where
  "GetBaseImage = do {
     buf \<leftarrow> os_ReadFile ''/etc/os-release'';
     return (case buf of
               Inl err \<Rightarrow> Inl (Errorf (''Failed to read /etc/os-release: '' @ error_text err))
             | Inr b \<Rightarrow> Inr (base_image_of (Split b nl)))
   }"

definition GetSecurityAttributes :: "string io" where
  "GetSecurityAttributes = do {
     a \<leftarrow> readProc ''/proc/self/attr/current'';
     return (case a of Inl _ \<Rightarrow> ''none'' | Inr s \<Rightarrow> if s = [] then ''none'' else s)
   }"

definition GetKernelVersion :: "(error + string) io" where
  "GetKernelVersion = readProc ''/proc/sys/kernel/osrelease''"

definition GetMaxFileHandles :: "(error + string) io" where
  "GetMaxFileHandles = readProc ''/proc/sys/fs/file-max''"

section \<open>Mounts and file systems\<close>

type_synonym mounts = "(string \<times> string) list"

fun mount_lines :: "string list \<Rightarrow> mounts \<Rightarrow> mounts option" where
  "mount_lines [] m = Some m"
| "mount_lines (l # ls) m =
    (let parts = Split l (CHR '' '') in
     if length parts < 3 then None
     else mount_lines ls (if Contains (parts ! 1) ''/mnt/mqm'' then AList.update (parts ! 1) (parts ! 2) m else m))"

definition GetMounts :: "(error + mounts) option io" where
  "GetMounts = do {
     a \<leftarrow> readProc ''/proc/mounts'';
     return (case a of
               Inl err \<Rightarrow> Some (Inl (Errorf (''Couldn'' @ [CHR 0x27] @ ''t read /proc/mounts'')))
             | Inr all \<Rightarrow> map_option Inr (mount_lines (Split all nl) []))
   }"

definition SupportedFilesystem :: "string \<Rightarrow> bool" where
  "SupportedFilesystem fsType \<longleftrightarrow> fsType \<notin> {''aufs'', ''overlayfs'', ''tmpfs''}"

definition ValidMultiInstanceFilesystem :: "string \<Rightarrow> bool" where
  "ValidMultiInstanceFilesystem fsType \<longleftrightarrow> SupportedFilesystem fsType"

definition fsTypes :: "(int \<times> string) list" where
  "fsTypes =
    [(0x61756673, ''aufs''), (0xef53, ''ext''), (0x6969, ''nfs''),
     (0x65735546, ''fuse''), (0x9123683e, ''btrfs''), (0x1021994, ''tmpfs''),
     (0x794c7630, ''overlayfs''), (0x58465342, ''xfs''), (0xadf5, ''adfs''),
     (0xadff, ''affs''), (0x5346414f, ''afs''), (0x187, ''autofs''),
     (0x73757245, ''coda''), (0x28cd3d45, ''cramfs''), (0x453dcd28, ''cramfs''),
     (0x64626720, ''debugfs''), (0x73636673, ''securityfs''), (0xf97cff8c, ''selinux''),
     (0x43415d53, ''smack''), (0x858458f6, ''ramfs''), (0x958458f6, ''hugetlbfs''),
     (0x73717368, ''squashfs''), (0xf15f, ''ecryptfs''), (0x414a53, ''efs''),
     (0xabba1974, ''xenfs''), (0x3434, ''nilfs''), (0xf2f52010, ''f2fs''),
     (0xf995e849, ''hpfs''), (0x9660, ''isofs''), (0x72b6, ''jffs2''),
     (0x6165676c, ''pstorefs''), (0xde5e81e4, ''efivarfs''), (0xc0ffee, ''hostfs''),
     (0x137f, ''minix_14''), (0x138f, ''minix_30''), (0x2468, ''minix2_14''),
     (0x2478, ''minix2_30''), (0x4d5a, ''minix3_60''), (0x4d44, ''msdos''),
     (0x564c, ''ncp''), (0x7461636f, ''ocfs2''), (0x9fa1, ''openprom''),
     (0x2f, ''qnx4''), (0x68191122, ''qnx6''), (0x6b414653, ''afs_fs''),
     (0x52654973, ''reiserfs''), (0x517b, ''smb''), (0x27e0eb, ''cgroup''),
     (0x63677270, ''cgroup2''), (0x7655821, ''rdtgroup''), (0x57ac6e9d, ''stack_end''),
     (0x74726163, ''tracefs''), (0x1021997, ''v9fs''), (0x62646576, ''bdevfs''),
     (0x64646178, ''daxfs''), (0x42494e4d, ''binfmtfs''), (0x1cd1, ''devpts''),
     (0xbad1dea, ''futexfs''), (0x50495045, ''pipefs''), (0x9fa0, ''proc''),
     (0x534f434b, ''sockfs''), (0x62656572, ''sysfs''), (0x9fa2, ''usbdevice''),
     (0x11307854, ''mtd_inode''), (0x9041934, ''anon_inode''), (0x73727279, ''btrfs''),
     (0x6e736673, ''nsfs''), (0xcafe4a11, ''bpf''), (0x5a3c69f0, ''aafs''),
     (0x15013346, ''udf''), (0x13661366, ''balloon_kvm''), (0x58295829, ''zsmalloc'')]"

text \<open>\<open>unix.Statfs\<close> is an argument: the type code of the file system of a path, or an error.\<close>

definition GetFilesystem :: "(string \<Rightarrow> error + int) \<Rightarrow> string \<Rightarrow> error + string" where
  "GetFilesystem statfs path =
    (case statfs path of
       Inl err \<Rightarrow> Inl err
     | Inr code \<Rightarrow> Inr (case map_of fsTypes code of None \<Rightarrow> ''unknown'' | Some t \<Rightarrow> t))"

section \<open>The container runtime\<close>

definition ContainerRuntimes :: "string list" where
  "ContainerRuntimes =
    [''docker'', ''rkt'', ''systemd-nspawn'', ''lxc'', ''lxc-libvirt'', ''openvz'', ''kube'', ''garden'', ''podman'']"

definition RuntimeNotFound :: string where "RuntimeNotFound = ''not-found''"

definition runtime_in :: "string \<Rightarrow> string" where
  "runtime_in input =
    (if length (TrimSpace input) < 1 then RuntimeNotFound
     else (case find (Contains input) ContainerRuntimes of None \<Rightarrow> RuntimeNotFound | Some r \<Rightarrow> r))"

text \<open>The \<open>fileExists\<close> of this package: any answer but that the file does not exist.\<close>

definition file_not_missing :: "string \<Rightarrow> bool io" where
  "file_not_missing file = do {
     r \<leftarrow> os_Stat file;
     return (case r of Inl err \<Rightarrow> \<not> IsNotExist err | Inr _ \<Rightarrow> True)
   }"

definition readFile :: "string \<Rightarrow> string option io" where
  "readFile file = do {
     ex \<leftarrow> file_not_missing file;
     if \<not> ex then return None
     else do {
       b \<leftarrow> os_ReadFile (Clean file);
       return (case b of Inl _ \<Rightarrow> None | Inr s \<Rightarrow> Some s)
     }
   }"

definition readFileString :: "string \<Rightarrow> string io" where
  "readFileString file = do {
     b \<leftarrow> readFile file;
     return (case b of None \<Rightarrow> [] | Some s \<Rightarrow> TrimSpace s)
   }"

definition GetContainerRuntime :: "int \<Rightarrow> int \<Rightarrow> string io" where
  "GetContainerRuntime tgid process = do {
     file \<leftarrow> return (if process > 0
               then (if tgid > 0 then ''/proc/'' @ Itoa tgid @ ''/task/'' @ Itoa process @ ''/cgroup''
                     else ''/proc/'' @ Itoa process @ ''/cgroup'')
               else ''/proc/self/cgroup'');
     a \<leftarrow> readFileString file;
     if runtime_in a \<noteq> RuntimeNotFound then return (runtime_in a)
     else do {
       vz \<leftarrow> file_not_missing ''/proc/vz'';
       bc \<leftarrow> (if vz then file_not_missing ''/proc/bc'' else return False);
       if vz \<and> \<not> bc then return ''openvz''
       else do {
         e \<leftarrow> os_Getenv ''container'';
         if runtime_in e \<noteq> RuntimeNotFound then return (runtime_in e)
         else do {
           r \<leftarrow> readFileString ''/run/systemd/container'';
           return (runtime_in r)
         }
       }
     }
   }"

definition DetectContainerRuntime :: "string io" where
  "DetectContainerRuntime = GetContainerRuntime 0 1"

section \<open>The platform\<close>

text \<open>
  A capability has a name and says whether it is set in the effective, permitted and inheritable
  sets, in the bounding set and in the ambient set.  The two \<open>Prctl\<close> calls say whether they fail
  with \<open>EINVAL\<close>.
\<close>

record capability =
  cap_name :: string
  in_caps :: bool
  in_bounding :: bool
  in_ambient :: bool

record User =
  UID :: int
  PrimaryGID :: int
  SupplementalGID :: "int list"

record platform =
  GOOS :: string
  GOARCH :: string
  capabilities :: "error + capability list"
  get_seccomp_EINVAL :: bool
  set_seccomp_EINVAL :: bool
  euid :: int
  gid :: int
  groups :: "error + int list"

definition GetUser :: "platform \<Rightarrow> User \<times> error option" where
  "GetUser pf =
    (case groups pf of
       Inl err \<Rightarrow> (\<lparr>UID = euid pf, PrimaryGID = gid pf, SupplementalGID = []\<rparr>, Some err)
     | Inr gs \<Rightarrow> (\<lparr>UID = euid pf, PrimaryGID = gid pf, SupplementalGID = gs\<rparr>, None))"

definition GetCapabilities :: "platform \<Rightarrow> error + (string \<times> string list) list" where
  "GetCapabilities pf =
    (case capabilities pf of
       Inl err \<Rightarrow> Inl err
     | Inr cs \<Rightarrow> Inr
         [(''EFFECTIVE | PERMITTED | INHERITABLE'', map cap_name (filter in_caps cs)),
          (''BOUNDING'', map cap_name (filter in_bounding cs)),
          (''AMBIENT'', map cap_name (filter in_ambient cs))])"

definition deleteEmpty :: "string list \<Rightarrow> string list" where
  "deleteEmpty s = filter (\<lambda>l. l \<noteq> []) (map TrimSpace s)"

text \<open>The first match of \<open>:(.*)\<close> in a line is the text after its first colon.\<close>

definition after_colon :: "string \<Rightarrow> string option" where
  "after_colon line = (case dropWhile (\<lambda>c. c \<noteq> CHR '':'') line of [] \<Rightarrow> None | _ # v \<Rightarrow> Some v)"

definition getStatusEntry :: "string \<Rightarrow> string \<Rightarrow> string" where
  "getStatusEntry input key =
    (case find (\<lambda>l. Contains l key \<and> after_colon l \<noteq> None) (deleteEmpty (Split input nl)) of
       None \<Rightarrow> []
     | Some l \<Rightarrow> TrimSpace (the (after_colon l)))"

definition seccompModes :: "(string \<times> string) list" where
  "seccompModes = [(''0'', ''disabled''), (''1'', ''strict''), (''2'', ''filtering'')]"

definition seccomp_of_status :: "platform \<Rightarrow> string \<Rightarrow> string" where
  "seccomp_of_status pf input =
    (case map_of seccompModes (getStatusEntry input ''Seccomp:'') of
       Some m \<Rightarrow> m
     | None \<Rightarrow> if \<not> get_seccomp_EINVAL pf \<and> \<not> set_seccomp_EINVAL pf then ''strict'' else ''disabled'')"

definition GetSeccompEnforcingMode :: "platform \<Rightarrow> int \<Rightarrow> string io" where
  "GetSeccompEnforcingMode pf process = do {
     s \<leftarrow> readFileString (if process > 0 then ''/proc/'' @ Itoa process @ ''/status'' else ''/proc/self/status'');
     return (seccomp_of_status pf s)
   }"

definition GetSeccomp :: "platform \<Rightarrow> string io" where
  "GetSeccomp pf = GetSeccompEnforcingMode pf 1"

section \<open>Logging the details\<close>

definition quoted :: "string \<Rightarrow> string" where
  "quoted s = [CHR 0x27] @ s @ [CHR 0x27]"

definition log_user :: "User \<times> error option \<Rightarrow> unit io" where
  "log_user r =
    (case r of
       (u, Some err) \<Rightarrow>
         log_Printf (''Error: '' @ error_text err @ [nl] @ ''User:'' @ [nl] @ ''  uid: '' @ Itoa (UID u) @ [nl]
           @ ''  gid: '' @ Itoa (PrimaryGID u) @ [nl] @ ''  supGid: ['' @ Join (map Itoa (SupplementalGID u)) '' '' @ '']'')
     | (u, None) \<Rightarrow>
         if SupplementalGID u = []
         then log_Printf (''Running as user ID '' @ Itoa (UID u) @ '' with primary group '' @ Itoa (PrimaryGID u))
         else log_Printf (''Running as user ID '' @ Itoa (UID u) @ '' with primary group '' @ Itoa (PrimaryGID u)
                @ '', and supplementary groups ''
                @ Trim (Join (Fields (''['' @ Join (map Itoa (SupplementalGID u)) '' '' @ '']'')) '','') ''[]''))"

fun log_caps :: "(string \<times> string list) list \<Rightarrow> bool \<Rightarrow> bool io" where
  "log_caps [] capLogged = return capLogged"
| "log_caps ((k, v) # cs) capLogged =
    (if v \<noteq> [] then do {
       log_Printf (''Capabilities ('' @ ToLower k @ '' set): '' @ Join v '','');
       log_caps cs True
     } else log_caps cs capLogged)"

definition log_capabilities :: "platform \<Rightarrow> unit io" where
  "log_capabilities pf =
    (case GetCapabilities pf of
       Inl err \<Rightarrow> log_Error (''Error getting capabilities: '' @ error_text err)
     | Inr caps \<Rightarrow> do {
         capLogged \<leftarrow> log_caps caps False;
         if \<not> capLogged then log_Printf ''Capabilities: none'' else return ()
       })"

fun check_mounts :: "mounts \<Rightarrow> (error + unit) io" where
  "check_mounts [] = return (Inr ())"
| "check_mounts ((mountPoint, fsType) # ms) = do {
     log_Printf (''Detected '' @ quoted fsType @ '' volume mounted to '' @ mountPoint);
     if \<not> SupportedFilesystem fsType
     then return (Inl (Errorf (mountPoint @ '' uses unsupported filesystem type: '' @ fsType)))
     else check_mounts ms
   }"

definition reqMounts :: "string list" where
  "reqMounts = [''/mnt/mqm'', ''/mnt/mqm-log'', ''/mnt/mqm-data'']"

fun check_required :: "mounts \<Rightarrow> string list \<Rightarrow> error + unit" where
  "check_required m [] = Inr ()"
| "check_required m (mountPoint # ps) =
    (case map_of m mountPoint of
       Some fsType \<Rightarrow>
         if \<not> ValidMultiInstanceFilesystem fsType
         then Inl (Errorf (mountPoint @ '' uses filesystem type '' @ quoted fsType
                @ '' which is invalid for a multi-instance queue manager''))
         else check_required m ps
     | None \<Rightarrow> Inl (Errorf (''Missing required mount '' @ quoted mountPoint @ '' for a multi-instance queue manager'')))"

definition check_multi_instance :: "mounts \<Rightarrow> (error + unit) io" where
  "check_multi_instance m = do {
     mi \<leftarrow> os_Getenv ''MQ_MULTI_INSTANCE'';
     if mi = ''true'' then do {
       log_Printf ''Multi-instance queue manager: enabled'';
       return (check_required m reqMounts)
     } else return (Inr ())
   }"

definition log_deprecated_format :: "unit io" where
  "log_deprecated_format = do {
     f \<leftarrow> os_Getenv ''MQ_LOGGING_CONSOLE_FORMAT'';
     l \<leftarrow> os_Getenv ''LOG_FORMAT'';
     if f = [] \<and> l \<noteq> []
     then log_Printf ''Environment variable LOG_FORMAT is deprecated. Use MQ_LOGGING_CONSOLE_FORMAT instead.''
     else return ()
   }"

definition mounts_and_instance :: "(error + mounts) option \<Rightarrow> (error + unit) option io" where
  "mounts_and_instance gm =
    (case gm of
       None \<Rightarrow> return None
     | Some r \<Rightarrow> do {
         c \<leftarrow> (case r of
                 Inl _ \<Rightarrow> return (Inr ())
               | Inr m \<Rightarrow>
                   if m = [] then do { log_Printf ''No volume detected. Persistent messages may be lost''; return (Inr ()) }
                   else check_mounts m);
         case c of
           Inl err \<Rightarrow> return (Some (Inl err))
         | Inr _ \<Rightarrow> do {
             mi \<leftarrow> check_multi_instance (case r of Inl _ \<Rightarrow> [] | Inr m \<Rightarrow> m);
             case mi of
               Inl err \<Rightarrow> return (Some (Inl err))
             | Inr _ \<Rightarrow> do { log_deprecated_format; return (Some (Inr ())) }
           }
       })"

text \<open>\<open>None\<close> is a panic.\<close>

definition LogContainerDetails :: "platform \<Rightarrow> (error + unit) option io" where
  "LogContainerDetails pf =
    (if GOOS pf \<noteq> ''linux'' then return (Some (Inl (Errorf (''Unsupported platform: '' @ GOOS pf))))
     else do {
       log_Printf (''CPU architecture: '' @ GOARCH pf);
       kv \<leftarrow> GetKernelVersion;
       (case kv of Inl _ \<Rightarrow> return () | Inr v \<Rightarrow> log_Printf (''Linux kernel version: '' @ v));
       bi \<leftarrow> GetBaseImage;
       (case bi of Inl _ \<Rightarrow> return () | Inr b \<Rightarrow> log_Printf (''Base image: '' @ b));
       log_user (GetUser pf);
       log_capabilities pf;
       sc \<leftarrow> GetSeccomp pf;
       log_Printf (''seccomp enforcing mode: '' @ sc);
       sa \<leftarrow> GetSecurityAttributes;
       log_Printf (''Process security attributes: '' @ sa);
       gm \<leftarrow> GetMounts;
       mounts_and_instance gm
     })"

section \<open>Properties\<close>

lemma log_caps_quiet [quiet_intro]: "state_io_rel quiet (log_caps cs b)"
  by (induction cs b rule: log_caps.induct) (auto intro!: quiet_intro)

lemma check_mounts_quiet [quiet_intro]: "state_io_rel quiet (check_mounts ms)"
  by (induction ms rule: check_mounts.induct) (auto intro!: quiet_intro)

lemma readFileString_quiet [quiet_intro]: "state_io_rel quiet (readFileString f)"
  unfolding readFileString_def readFile_def file_not_missing_def by (intro quiet_intro)

lemma GetMounts_quiet [quiet_intro]: "state_io_rel quiet GetMounts"
  unfolding GetMounts_def readProc_def by (intro quiet_intro)

lemmas details_defs = GetKernelVersion_def GetBaseImage_def log_user_def log_capabilities_def
  GetSeccomp_def GetSeccompEnforcingMode_def GetSecurityAttributes_def readProc_def

lemma mounts_and_instance_quiet [quiet_intro]: "state_io_rel quiet (mounts_and_instance gm)"
  unfolding mounts_and_instance_def check_multi_instance_def log_deprecated_format_def by (intro quiet_intro)

lemma LogContainerDetails_quiet [quiet_intro]: "state_io_rel quiet (LogContainerDetails pf)"
  unfolding LogContainerDetails_def details_defs by (intro quiet_intro)

lemma log_caps_emits [emits_intro]: "(\<And>l m. E (Log l m)) \<Longrightarrow> state_io_rel (emits E) (log_caps cs b)"
  by (induction cs b rule: log_caps.induct) (auto intro!: emits_intro)

lemma check_mounts_emits [emits_intro]: "(\<And>l m. E (Log l m)) \<Longrightarrow> state_io_rel (emits E) (check_mounts ms)"
  by (induction ms rule: check_mounts.induct) (auto intro!: emits_intro)

lemma GetMounts_emits [emits_intro]: "state_io_rel (emits E) GetMounts"
  unfolding GetMounts_def readProc_def by (intro emits_intro)

lemma LogContainerDetails_emits [emits_intro]:
  "(\<And>l m. E (Log l m)) \<Longrightarrow> state_io_rel (emits E) (LogContainerDetails pf)"
  unfolding LogContainerDetails_def details_defs readFileString_def readFile_def file_not_missing_def
    mounts_and_instance_def check_multi_instance_def log_deprecated_format_def
  by (intro emits_intro)

lemma check_mounts_ok:
  "result (check_mounts ms) w = Inr u \<Longrightarrow> \<forall>(p, t) \<in> set ms. SupportedFilesystem t"
  by (induction ms arbitrary: w rule: check_mounts.induct) (auto simp: log_Printf_def split: if_splits)

lemma check_required_ok:
  "check_required m ps = Inr u \<Longrightarrow> p \<in> set ps \<Longrightarrow> \<exists>t. map_of m p = Some t \<and> SupportedFilesystem t"
  by (induction m ps rule: check_required.induct)
     (auto simp: ValidMultiInstanceFilesystem_def split: option.splits if_splits)

lemma mounts_and_instance_ok:
  assumes "result (mounts_and_instance (Some (Inr m))) w = Some (Inr u)"
  shows "(\<forall>(p, t) \<in> set m. SupportedFilesystem t) \<and>
    (map_of (env w) ''MQ_MULTI_INSTANCE'' = Some ''true'' \<longrightarrow>
      (\<forall>p \<in> set reqMounts. \<exists>t. map_of m p = Some t \<and> SupportedFilesystem t))"
proof -
  let ?c = "if m = [] then do { log_Printf ''No volume detected. Persistent messages may be lost''; return (Inr ()) } else check_mounts m"
  obtain c w1 where c: "run_state ?c w = (c, w1)" by (cases "run_state ?c w")
  have "state_io_rel quiet ?c" by (intro quiet_intro)
  then have e: "env w1 = env w" using quietD [OF _ c] by (simp add: quiet_def)
  from assms c obtain u1 where u1: "c = Inr u1" by (cases c) (auto simp: mounts_and_instance_def)
  with c have 1: "\<forall>(p, t) \<in> set m. SupportedFilesystem t"
    using check_mounts_ok [of m w u1] by (cases "m = []") simp_all
  obtain mi w2 where mi: "run_state (check_multi_instance m) w1 = (mi, w2)" by (cases "run_state (check_multi_instance m) w1")
  with assms c u1 obtain u2 where "mi = Inr u2" by (cases mi) (auto simp: mounts_and_instance_def)
  with mi have 2: "map_of (env w) ''MQ_MULTI_INSTANCE'' = Some ''true'' \<longrightarrow> check_required m reqMounts = Inr u2"
    using e by (auto simp: check_multi_instance_def)
  from 1 2 check_required_ok show ?thesis by blast
qed


lemma mount_lines_None: "mount_lines ls m = None \<longleftrightarrow> (\<exists>l \<in> set ls. length (Split l (CHR '' '')) < 3)"
  by (induction ls m rule: mount_lines.induct) (auto simp: Let_def)

text \<open>
  when reading the mounts panics.  \<open>GetMounts\<close> panics exactly if \<open>/proc/mounts\<close> can be read and
  has a line of fewer than three words; so it panics in particular on an empty file.
\<close>

theorem GetMounts_panics:
  assumes "\<And>k oper p. faults w k oper p = None"
  shows "result GetMounts w = None \<longleftrightarrow>
    (\<exists>c. fs_read (files w) ''/proc/mounts'' = Inr c \<and>
       (\<exists>l \<in> set (Split (TrimSpace c) nl). length (Split l (CHR '' '')) < 3))"
  using assms
  by (auto simp: GetMounts_def readProc_def os_ReadFile_def query_run fault_of_def mount_lines_None split: sum.splits)

definition mounts_world :: "string \<Rightarrow> world" where
  "mounts_world c = base_world\<lparr>files := [(''/proc/mounts'', FileNode c)]\<rparr>"

theorem GetMounts_panics_witness: "result GetMounts (mounts_world []) = None"
proof -
  have "fs_read (files (mounts_world [])) ''/proc/mounts'' = Inr []"
    "length (Split [] (CHR '' '')) < 3" "[] \<in> set (Split (TrimSpace []) nl)" by code_simp+
  moreover have "faults (mounts_world []) k oper p = None" for k oper p
    by (simp add: mounts_world_def base_world_def)
  ultimately show ?thesis using GetMounts_panics [of "mounts_world []"] by blast
qed

definition example_platform :: platform where
  "example_platform = \<lparr>GOOS = ''linux'', GOARCH = ''amd64'', capabilities = Inr [], get_seccomp_EINVAL = True,
     set_seccomp_EINVAL = True, euid = 1001, gid = 0, groups = Inr []\<rparr>"


end
