(* ===== verification/Queue_Manager.thy ===== *)
theory Queue_Manager
  imports MQSC_Redact Container_Runtime Ready
begin

text \<open>
  The operations of \<open>runmqserver\<close> on the queue manager, from \<open>cmd/runmqserver/qmgr.go\<close>.  The MQ
  commands they run are programs of the world.  \<open>logDiagnostics\<close>, which logs file permissions and
  is in \<open>logging.go\<close>, is modelled in the theory of logging; here it is the argument \<open>diag\<close> of the one
  function that calls it.
\<close>

section \<open>Creating\<close>

definition symlink_warning :: string where
  "symlink_warning = ''The filesystem object '' @ [CHR 0x27]
     @ ''/mnt/mqm/data/web/installations/Installation1/servers/mqweb/mqwebuser.xml'' @ [CHR 0x27] @ '' is a symbolic link.''"

definition createDirStructure :: "unit io \<Rightarrow> (error + unit) io" where
  "createDirStructure diag = do {
     diag;
     (out, rc, err) \<leftarrow> Run ''/opt/mqm/bin/crtmqdir'' [''-f'', ''-a''];
     r \<leftarrow> (case err of
            None \<Rightarrow> return (Inr ())
          | Some e \<Rightarrow>
              if rc = 10 then do {
                (if \<not> (Join (Fields out) '' '' = symlink_warning)
                 then log_Printf (''Warning creating directory structure: '' @ out @ [nl]) else return ());
                return (Inr ())
              } else do {
                log_Printf (''Error creating directory structure: the '' @ [CHR 0x27] @ ''crtmqdir'' @ [CHR 0x27]
                  @ '' command returned with code: '' @ Itoa rc @ ''. Reason: '' @ out @ [nl]);
                return (Inl e)
              });
     case r of
       Inl e \<Rightarrow> return (Inl e)
     | Inr _ \<Rightarrow> do {
         log_Printf ''Created directory structure under /var/mqm'';
         diag;
         return (Inr ())
       }
   }"

definition readQMIni :: "string \<Rightarrow> (error + string) io" where
  "readQMIni dataDir = os_ReadFile (CleanPath [dataDir, ''qm.ini''])"

definition validateLogFilePageSetting :: "string \<Rightarrow> string \<Rightarrow> bool" where
  "validateLogFilePageSetting iniFile logFilePages \<longleftrightarrow> Contains iniFile (''LogFilePages='' @ logFilePages)"

definition getCreateQueueManagerArgs :: "mounts \<Rightarrow> string \<Rightarrow> bool \<Rightarrow> string list io" where
  "getCreateQueueManagerArgs mounts name devMode = do {
     (mqVersionCheck, verr) \<leftarrow> Compare ''9.2.1.0'';
     log_on_error verr (''Error comparing MQ versions for oa,rc: '' @ Itoa mqVersionCheck);
     oaVal \<leftarrow> return (if mqVersionCheck \<ge> 0 then ''UserExternal'' else ''user'');
     nha \<leftarrow> os_Getenv ''MQ_NATIVE_HA'';
     host \<leftarrow> os_Getenv ''HOSTNAME'';
     lfp \<leftarrow> os_Getenv ''MQ_QMGR_LOG_FILE_PAGES'';
     lf \<leftarrow> (if lfp \<noteq> [] then
              (case Atoi lfp of
                 None \<Rightarrow> do {
                   log_Printf (''Error processing MQ_QMGR_LOG_FILE_PAGES, the default value for LogFilePages will be used. Err: ''
                     @ error_text (num_error ''Atoi'' lfp));
                   return []
                 }
               | Some _ \<Rightarrow> return [''-lf'', lfp])
            else return []);
     return ([''-ii'', ''/etc/mqm/'', ''-ic'', ''/etc/mqm/'', ''-q'', ''-p'', ''1414'']
       @ (if nha = ''true'' then [''-lr'', host] else [])
       @ (if devMode then [''-oa'', oaVal] else [])
       @ (if map_of mounts ''/mnt/mqm-log'' \<noteq> None then [''-ld'', ''/mnt/mqm-log/log''] else [])
       @ (if map_of mounts ''/mnt/mqm-data'' \<noteq> None then [''-md'', ''/mnt/mqm-data/qmgrs''] else [])
       @ lf @ [name])
   }"

definition getCreateStandbyQueueManagerArgs :: "string \<Rightarrow> string list" where
  "getCreateStandbyQueueManagerArgs name =
    [''-s'', ''QueueManager'', ''-v'', ''Name='' @ name, ''-v'', ''Directory='' @ name,
     ''-v'', ''Prefix=/var/mqm'', ''-v'', ''DataPath=/mnt/mqm-data/qmgrs/'' @ name]"

definition command_failed :: "string \<Rightarrow> string \<Rightarrow> int \<Rightarrow> string \<Rightarrow> unit io" where
  "command_failed what cmd rc out = log_Printf (what @ '': the '' @ quoted cmd @ '' command returned with code: ''
     @ Itoa rc @ ''. Reason: '' @ out)"

text \<open>The part of \<open>createQueueManager\<close> for a queue manager that exists.\<close>

definition existing_queue_manager :: "string \<Rightarrow> string \<Rightarrow> (error + bool) io" where
  "existing_queue_manager name dataDir = do {
     log_Printf (''Detected existing queue manager '' @ name);
     lfp \<leftarrow> os_Getenv ''MQ_QMGR_LOG_FILE_PAGES'';
     if lfp \<noteq> [] then do {
       ini \<leftarrow> readQMIni dataDir;
       case ini of
         Inl err \<Rightarrow> do { log_Printf (''Error reading qm.ini : '' @ error_text err); return (Inl err) }
       | Inr qmIni \<Rightarrow> do {
           (if \<not> validateLogFilePageSetting qmIni lfp
            then log_Printf (''Warning: the value of MQ_QMGR_LOG_FILE_PAGES does not match the value of '' @ quoted ''LogFilePages''
                   @ '' in the qm.ini. This setting cannot be altered after Queue Manager creation.'')
            else return ());
           return (Inr False)
         }
     } else return (Inr False)
   }"

text \<open>The part for one that does not: a new queue manager, or a standby one on existing data.\<close>

definition new_queue_manager :: "mounts \<Rightarrow> string \<Rightarrow> bool \<Rightarrow> string \<Rightarrow> (error + bool) io" where
  "new_queue_manager mounts name devMode dataDir = do {
     st \<leftarrow> os_Stat (CleanPath [dataDir, ''qm.ini'']);
     case st of
       Inl _ \<Rightarrow> do {
         args \<leftarrow> getCreateQueueManagerArgs mounts name devMode;
         (out, rc, err) \<leftarrow> Run ''crtmqm'' args;
         case err of
           Some e \<Rightarrow> do { command_failed ''Error creating queue manager'' ''crtmqm'' rc out; return (Inl e) }
         | None \<Rightarrow> do { log_Printf ''Created queue manager''; return (Inr True) }
       }
     | Inr _ \<Rightarrow> do {
         (out, rc, err) \<leftarrow> Run ''addmqinf'' (getCreateStandbyQueueManagerArgs name);
         case err of
           Some e \<Rightarrow> do { command_failed ''Error creating standby queue manager'' ''addmqinf'' rc out; return (Inl e) }
         | None \<Rightarrow> do { log_Printf ''Created standby queue manager''; return (Inr True) }
       }
   }"

definition createQueueManager :: "string \<Rightarrow> bool \<Rightarrow> (error + bool) option io" where
  "createQueueManager name devMode = do {
     log_Printf (''Creating queue manager '' @ name);
     gm \<leftarrow> GetMounts;
     case gm of
       None \<Rightarrow> return None
     | Some (Inl err) \<Rightarrow> do { log_Printf ''Error getting mounts for queue manager''; return (Some (Inl err)) }
     | Some (Inr mounts) \<Rightarrow> do {
         dataDir \<leftarrow> return (getQueueManagerDataDir mounts (replaceCharsInQMName name));
         (out, rc, err) \<leftarrow> Run ''dspmqinf'' [name];
         r \<leftarrow> (if err = None then existing_queue_manager name dataDir
               else new_queue_manager mounts name devMode dataDir);
         return (Some r)
       }
   }"

section \<open>Starting and stopping\<close>

definition updateCommandLevel :: "(error + unit) io" where
  "updateCommandLevel = do {
     level \<leftarrow> os_LookupEnv ''MQ_CMDLEVEL'';
     if level \<noteq> None \<and> level \<noteq> Some [] then do {
       log_Printf (''Setting CMDLEVEL to '' @ the level);
       (out, rc, err) \<leftarrow> Run ''strmqm'' [''-e'', ''CMDLEVEL='' @ the level];
       case err of
         Some e \<Rightarrow> do { command_failed ''Error setting CMDLEVEL for queue manager'' ''strmqm'' rc out; return (Inl e) }
       | None \<Rightarrow> return (Inr ())
     } else return (Inr ())
   }"

definition setNoFileSoftLimitEqualToHardLimit :: "(error + unit) io" where
  "setNoFileSoftLimitEqualToHardLimit = do {
     g \<leftarrow> syscall ''getrlimit'' [];
     case g of
       Some e \<Rightarrow> return (Inl (PathError ''getrlimit'' [] e))
     | None \<Rightarrow> do {
         s \<leftarrow> syscall ''setrlimit'' [];
         case s of
           Some e \<Rightarrow> return (Inl (PathError ''setrlimit'' [] e))
         | None \<Rightarrow> do { upd (\<lambda>w. w\<lparr>nofile := (snd (nofile w), snd (nofile w))\<rparr>); return (Inr ()) }
       }
   }"

definition increase_file_limit :: "unit io" where
  "increase_file_limit = do {
     soft \<leftarrow> os_Getenv ''MQ_ENABLE_SOFT_FILE_LIMIT_INCREASE'';
     if soft = ''true'' then do {
       r \<leftarrow> setNoFileSoftLimitEqualToHardLimit;
       case r of
         Inl err \<Rightarrow> log_Printf (''Warning: Unable to increase the soft limit for the number of open files. Err: '' @ error_text err)
       | Inr _ \<Rightarrow> return ()
     } else return ()
   }"

definition startQueueManager :: "string \<Rightarrow> (error + unit) io" where
  "startQueueManager name = do {
     increase_file_limit;
     log_Printf ''Starting queue manager'';
     (out, rc, err) \<leftarrow> Run ''strmqm'' [''-x'', name];
     case err of
       Some e \<Rightarrow>
         if rc = 30 then do { log_Printf ''Started standby queue manager''; return (Inr ()) }
         else if rc = 94 then do { log_Printf ''Started replica queue manager''; return (Inr ()) }
         else do { command_failed ''Error starting queue manager'' ''strmqm'' rc out; return (Inl e) }
     | None \<Rightarrow> do { log_Printf ''Started queue manager''; return (Inr ()) }
   }"

definition endmqm_args :: "bool \<Rightarrow> bool \<Rightarrow> string \<Rightarrow> string \<Rightarrow> string list" where
  "endmqm_args multiInstance isStandby grace name =
    (if multiInstance
     then (if isStandby then [''-x'', name] else [''-s'', ''-w'', ''-tp'', grace, name])
     else [''-w'', ''-r'', ''-tp'', grace, name])"

text \<open>What follows once the grace period is known.\<close>

definition stop_with_grace :: "string \<Rightarrow> int \<Rightarrow> (error + unit) io" where
  "stop_with_grace name grace = do {
     status \<leftarrow> Status name;
     case status of
       Inl err \<Rightarrow> do {
         log_Printf (''Error getting status for queue manager '' @ name @ ''. The '' @ quoted ''dspmq'' @ '' command returned reason: '' @ error_text err);
         return (Inl err)
       }
     | Inr s \<Rightarrow> do {
         isStandby \<leftarrow> return (StandbyQM s);
         mi \<leftarrow> os_Getenv ''MQ_MULTI_INSTANCE'';
         (out, rc, err) \<leftarrow> Run ''endmqm'' (endmqm_args (mi = ''true'') isStandby (Itoa grace) name);
         case err of
           Some e \<Rightarrow> do {
             log_Printf (''Error stopping queue manager: the '' @ quoted ''endmqm'' @ '' command returned with code: '' @ Itoa rc @ ''.  Reason: '' @ out);
             return (Inl e)
           }
         | None \<Rightarrow> do {
             (if isStandby then log_Printf ''Stopped standby queue manager'' else log_Printf ''Stopped queue manager'');
             return (Inr ())
           }
       }
   }"

definition stopQueueManager :: "string \<Rightarrow> (error + unit) io" where
  "stopQueueManager name = do {
     log_Printf ''Stopping queue manager'';
     g \<leftarrow> os_Getenv ''MQ_GRACE_PERIOD'';
     grace \<leftarrow> (case Atoi g of
                None \<Rightarrow> do {
                  log_Printf (''Error processing MQ_GRACE_PERIOD, the default value for QM Grace Period will be used. Err: ''
                    @ error_text (num_error ''Atoi'' g));
                  return 30
                }
              | Some v \<Rightarrow> return v);
     stop_with_grace name grace
   }"

definition startMQTrace :: "(error + unit) io" where
  "startMQTrace = do {
     log_Printf ''Starting MQ trace'';
     (out, rc, err) \<leftarrow> Run ''strmqtrc'' [];
     case err of
       Some e \<Rightarrow> do {
         log_Printf (''Error starting MQ trace: the '' @ quoted ''strmqtrc'' @ '' command returned with code: '' @ Itoa rc @ ''.  Reason: '' @ out);
         return (Inl e)
       }
     | None \<Rightarrow> do { log_Printf ''Started MQ trace''; return (Inr ()) }
   }"

definition endMQTrace :: "(error + unit) io" where
  "endMQTrace = do {
     log_Printf ''Ending MQ Trace'';
     (out, rc, err) \<leftarrow> Run ''endmqtrc'' [];
     case err of
       Some e \<Rightarrow> do {
         log_Printf (''Error ending MQ trace: the '' @ quoted ''endmqtrc'' @ '' command returned with code: '' @ Itoa rc @ ''.  Reason: '' @ out);
         return (Inl e)
       }
     | None \<Rightarrow> do { log_Printf ''Ended MQ trace''; return (Inr ()) }
   }"

definition formatMQSCOutput :: "string \<Rightarrow> string" where
  "formatMQSCOutput out = ReplaceAll (Redact out) [nl] [nl, tab]"

definition isStandbyQueueManager :: "string \<Rightarrow> (error + bool) io" where
  "isStandbyQueueManager name = do {
     (out, rc, err) \<leftarrow> Run ''dspmq'' [''-n'', ''-m'', name];
     case err of
       Some e \<Rightarrow> do {
         log_Printf (''Error while getting status for queue manager '' @ name @ '': the '' @ quoted ''dspmq'' @ '' command returned with code: '' @ Itoa rc @ ''.  Reason: '' @ out);
         return (Inl e)
       }
     | None \<Rightarrow> return (Inr (Contains out ''(RUNNING AS STANDBY)''))
   }"

section \<open>The configuration file \<open>qm.ini\<close>\<close>

text \<open>
  The regular expression matches five consecutive lines with the given words; the match is replaced
  by nothing, which leaves an empty line.
\<close>

fun remove_service_component :: "string list \<Rightarrow> string list" where
  "remove_service_component (a # b # c # d # e # ls) =
    (if Contains a ''ServiceComponent'' \<and> Contains b ''Service'' \<and> Contains c ''Name''
        \<and> Contains d ''Module'' \<and> Contains e ''ComponentDataSize''
     then [] # remove_service_component ls
     else a # remove_service_component (b # c # d # e # ls))"
| "remove_service_component ls = ls"

definition ParseBool :: "string \<Rightarrow> bool option" where
  "ParseBool s =
    (if s \<in> {''1'', ''t'', ''T'', ''TRUE'', ''true'', ''True''} then Some True
     else if s \<in> {''0'', ''f'', ''F'', ''FALSE'', ''false'', ''False''} then Some False
     else None)"

definition updateQMini :: "string \<Rightarrow> (error + unit) option io" where
  "updateQMini qmname = do {
     val \<leftarrow> os_LookupEnv ''MQ_CONNAUTH_USE_HTP'';
     case val of
       None \<Rightarrow> return (Some (Inr ()))
     | Some v \<Rightarrow>
         (case ParseBool (ToLower v) of
            None \<Rightarrow> return (Some (Inl (Errorf (''strconv.ParseBool: parsing '' @ [quote] @ ToLower v @ [quote] @ '': invalid syntax''))))
          | Some False \<Rightarrow> return (Some (Inr ()))
          | Some True \<Rightarrow> do {
              log_Printf ''Removing existing ServiceComponent configuration'';
              gm \<leftarrow> GetMounts;
              case gm of
                None \<Rightarrow> return None
              | Some (Inl err) \<Rightarrow> do { log_Printf ''Error getting mounts for queue manager''; return (Some (Inl err)) }
              | Some (Inr mounts) \<Rightarrow> do {
                  qmgrDir \<leftarrow> return (CleanPath [getQueueManagerDataDir mounts (replaceCharsInQMName qmname), ''qm.ini'']);
                  ini \<leftarrow> os_ReadFile qmgrDir;
                  case ini of
                    Inl err \<Rightarrow> return (Some (Inl err))
                  | Inr qmini \<Rightarrow>
                      if Contains qmini ''ServiceComponent:'' then do {
                        r \<leftarrow> os_WriteFile qmgrDir (Join (remove_service_component (Split qmini nl)) [nl]);
                        return (Some r)
                      } else return (Some (Inr ()))
                }
            })
   }"

section \<open>Which commands are run\<close>

abbreviation new_execs :: "world \<Rightarrow> world \<Rightarrow> (string \<times> string list \<times> int) list \<Rightarrow> bool" where
  "new_execs w w' xs \<equiv> execs (trace w') = execs (trace w) @ xs"

lemma Compare_execs:
  "run_state (Compare v) w = (x, w') \<Longrightarrow> \<exists>rc. new_execs w w' [(''dspmqver'', [''-b'', ''-f'', ''2''], rc)]"
  by (auto simp: Compare_def Version_Get_def split: prod.splits dest: Run_execs)

lemma getCreateQueueManagerArgs_run:
  assumes "run_state (getCreateQueueManagerArgs mounts name devMode) w = (args, w')"
  shows "\<exists>rc. new_execs w w' [(''dspmqver'', [''-b'', ''-f'', ''2''], rc)]"
    and "\<exists>opts. args = [''-ii'', ''/etc/mqm/'', ''-ic'', ''/etc/mqm/'', ''-q'', ''-p'', ''1414''] @ opts @ [name]"
proof -
  from assms obtain x w1 where c: "run_state (Compare ''9.2.1.0'') w = (x, w1)" "execs (trace w') = execs (trace w1)"
    unfolding getCreateQueueManagerArgs_def by (rule bind_execs) (auto intro!: emits_intro simp: log_on_error_def)
  with Compare_execs [OF c(1)] show "\<exists>rc. new_execs w w' [(''dspmqver'', [''-b'', ''-f'', ''2''], rc)]" by simp
  show "\<exists>opts. args = [''-ii'', ''/etc/mqm/'', ''-ic'', ''/etc/mqm/'', ''-q'', ''-p'', ''1414''] @ opts @ [name]"
    using assms by (auto simp: getCreateQueueManagerArgs_def split: prod.splits)
qed

lemma existing_queue_manager_run:
  assumes "run_state (existing_queue_manager name dataDir) w = (r, w')"
  shows "new_execs w w' []" "r \<noteq> Inr True"
proof -
  have "state_io_rel (emits no_exec) (existing_queue_manager name dataDir)"
    unfolding existing_queue_manager_def readQMIni_def by (intro emits_intro) simp_all
  from no_exec_execs [OF this assms] show "new_execs w w' []" by simp
  show "r \<noteq> Inr True"
    using assms by (auto simp: existing_queue_manager_def split: if_splits sum.splits prod.splits)
qed

lemma new_queue_manager_run:
  assumes "run_state (new_queue_manager mounts name devMode dataDir) w = (r, w')"
  shows "\<exists>rc. (\<exists>i. result (os_Stat (CleanPath [dataDir, ''qm.ini''])) w = Inr i)
      \<and> new_execs w w' [(''addmqinf'', getCreateStandbyQueueManagerArgs name, rc)]
      \<and> (rc = 0 \<longrightarrow> r = Inr True) \<and> (rc \<noteq> 0 \<longrightarrow> isl r)
    \<or> (\<exists>e v opts. result (os_Stat (CleanPath [dataDir, ''qm.ini''])) w = Inl e
      \<and> new_execs w w' [(''dspmqver'', [''-b'', ''-f'', ''2''], v),
          (''crtmqm'', [''-ii'', ''/etc/mqm/'', ''-ic'', ''/etc/mqm/'', ''-q'', ''-p'', ''1414''] @ opts @ [name], rc)]
      \<and> (rc = 0 \<longrightarrow> r = Inr True) \<and> (rc \<noteq> 0 \<longrightarrow> isl r))"
proof -
  obtain st w1 where st: "run_state (os_Stat (CleanPath [dataDir, ''qm.ini''])) w = (st, w1)"
    by (cases "run_state (os_Stat (CleanPath [dataDir, ''qm.ini''])) w")
  have w1: "new_execs w w1 []"
    using no_exec_execs [OF reads_emit(1) st] by simp
  show ?thesis
  proof (cases st)
    case (Inl e)
    obtain args w2 where a: "run_state (getCreateQueueManagerArgs mounts name devMode) w1 = (args, w2)"
      by (cases "run_state (getCreateQueueManagerArgs mounts name devMode) w1")
    obtain out rc err w3 where c: "run_state (Run ''crtmqm'' args) w2 = ((out, rc, err), w3)"
      by (metis prod.exhaust)
    from assms st Inl a c have "new_execs w3 w' []" "err = None \<longrightarrow> r = Inr True" "err \<noteq> None \<longrightarrow> isl r"
      by (auto simp: new_queue_manager_def command_failed_def split: option.splits)
    with Run_execs [OF c] getCreateQueueManagerArgs_run [OF a] w1 st Inl show ?thesis
      by (metis append.assoc append_Cons append_Nil append_Nil2 fst_conv)
  next
    case (Inr i)
    obtain out rc err w3 where c: "run_state (Run ''addmqinf'' (getCreateStandbyQueueManagerArgs name)) w1 = ((out, rc, err), w3)"
      by (metis prod.exhaust)
    from assms st Inr c have "new_execs w3 w' []" "err = None \<longrightarrow> r = Inr True" "err \<noteq> None \<longrightarrow> isl r"
      by (auto simp: new_queue_manager_def command_failed_def split: option.splits)
    with Run_execs [OF c] w1 st Inr show ?thesis by force
  qed
qed

lemma log_new_execs: "run_state (log_Printf s) w = (u, w') \<Longrightarrow> new_execs w w' [] \<and> quiet w w'"
  by (auto simp: quiet_def)

lemma GetMounts_log: "result GetMounts (final (log_Printf s) w) = result GetMounts w"
  by (simp add: GetMounts_def readProc_def os_ReadFile_def query_run fault_of_def split: sum.split option.split)

text \<open>
  C15: Creating the queue manager is idempotent and never reports more than it did.  Where
  \<open>createQueueManager\<close> returns without error, it has run \<open>dspmqinf\<close>, and either that command found the
  queue manager, nothing else was run and \<open>false\<close> is returned; or it did not, and \<open>true\<close> is returned
  after exactly one of \<open>addmqinf\<close> (for data that is there, as a standby) and \<open>crtmqm\<close> (called with
  the fixed options first and the name last) has been run, and has succeeded.
\<close>

theorem createQueueManager_outcome:
  assumes "run_state (createQueueManager name devMode) w = (Some (Inr created), w')"
  shows "\<not> created \<and> new_execs w w' [(''dspmqinf'', [name], 0)]
    \<or> created \<and> (\<exists>rc. rc \<noteq> 0 \<and> new_execs w w'
        [(''dspmqinf'', [name], rc), (''addmqinf'', getCreateStandbyQueueManagerArgs name, 0)])
    \<or> created \<and> (\<exists>rc v opts. rc \<noteq> 0 \<and> new_execs w w'
        [(''dspmqinf'', [name], rc), (''dspmqver'', [''-b'', ''-f'', ''2''], v),
         (''crtmqm'', [''-ii'', ''/etc/mqm/'', ''-ic'', ''/etc/mqm/'', ''-q'', ''-p'', ''1414''] @ opts @ [name], 0)])"
proof -
  obtain u w0 where l: "run_state (log_Printf (''Creating queue manager '' @ name)) w = (u, w0)"
    by (cases "run_state (log_Printf (''Creating queue manager '' @ name)) w")
  obtain gm w1 where g: "run_state GetMounts w0 = (gm, w1)" by (cases "run_state GetMounts w0")
  have w1: "new_execs w w1 []"
    using no_exec_execs [OF GetMounts_emits g] log_new_execs [OF l] by simp
  from assms l g obtain mounts where m: "gm = Some (Inr mounts)"
    by (auto simp: createQueueManager_def split: option.splits sum.splits)
  obtain out rc err w2 where d: "run_state (Run ''dspmqinf'' [name]) w1 = ((out, rc, err), w2)" by (metis prod.exhaust)
  let ?dir = "getQueueManagerDataDir mounts (replaceCharsInQMName name)"
  show ?thesis
  proof (cases "err = None")
    case True
    with assms l g m d have "run_state (existing_queue_manager name ?dir) w2 = (Inr created, w')"
      by (simp add: createQueueManager_def split: prod.splits)
    from existing_queue_manager_run [OF this] Run_execs [OF d] w1 True show ?thesis by simp
  next
    case False
    with assms l g m d have "run_state (new_queue_manager mounts name devMode ?dir) w2 = (Inr created, w')"
      by (simp add: createQueueManager_def split: prod.splits)
    from new_queue_manager_run [OF this] Run_execs [OF d] w1 False show ?thesis by force
  qed
qed

text \<open>
  C5: Data is never created over: where \<open>/proc/mounts\<close> can be read, \<open>dspmqinf\<close> leaves the files as
  they are, and the file \<open>qm.ini\<close> of the queue manager is there and can be examined, \<open>createQueueManager\<close>
  does not run \<open>crtmqm\<close>, whatever else happens.
\<close>

theorem createQueueManager_keeps_data:
  assumes "result GetMounts w = Some (Inr mounts)"
    and "\<And>n. \<exists>x. programs w n ''dspmqinf'' [name] (env w) (files w) = (x, files w)"
    and "\<And>n p. faults w n ''stat'' p = None"
    and "fs_stat (files w) (CleanPath [getQueueManagerDataDir mounts (replaceCharsInQMName name), ''qm.ini'']) = Inr i"
    and "run_state (createQueueManager name devMode) w = (r, w')"
  shows "\<exists>xs. new_execs w w' xs \<and> ''crtmqm'' \<notin> fst ` set xs"
proof -
  let ?w0 = "final (log_Printf (''Creating queue manager '' @ name)) w"
  let ?dir = "getQueueManagerDataDir mounts (replaceCharsInQMName name)"
  obtain w1 where g: "run_state GetMounts ?w0 = (Some (Inr mounts), w1)"
    using assms(1) GetMounts_log [of "''Creating queue manager '' @ name" w]
    by (cases "run_state GetMounts ?w0") auto
  have w1: "new_execs w w1 []" "quiet w w1"
    using no_exec_execs [OF GetMounts_emits g] quietD [OF GetMounts_quiet g] by (auto simp: quiet_def)
  obtain out rc err w2 where d: "run_state (Run ''dspmqinf'' [name]) w1 = ((out, rc, err), w2)" by (metis prod.exhaust)
  from assms(2) obtain x where "programs w (calls w1) ''dspmqinf'' [name] (env w) (files w) = (x, files w)" by blast
  with d w1(2) have w2: "files w2 = files w" "faults w2 = faults w" "new_execs w w2 [(''dspmqinf'', [name], rc)]"
    using w1(1) Run_execs [OF d]
    by (auto simp: Run_def RunContext_def exec_CombinedOutput_def quiet_def split: prod.splits)
  then have st: "result (os_Stat (CleanPath [?dir, ''qm.ini''])) w2 = Inr i"
    using assms(3,4) by (simp add: os_Stat_def query_run fault_of_def)
  show ?thesis
  proof (cases "err = None")
    case True
    with assms(5) g d obtain r' where "run_state (existing_queue_manager name ?dir) w2 = (r', w')"
      by (auto simp: createQueueManager_def split: prod.splits)
    from existing_queue_manager_run(1) [OF this] w2(3) show ?thesis by force
  next
    case False
    with assms(5) g d obtain r' where "run_state (new_queue_manager mounts name devMode ?dir) w2 = (r', w')"
      by (auto simp: createQueueManager_def split: prod.splits)
    from new_queue_manager_run [OF this] st obtain rc'
      where "new_execs w2 w' [(''addmqinf'', getCreateStandbyQueueManagerArgs name, rc')]" by fastforce
    with w2(3) show ?thesis by force
  qed
qed

definition create_world :: "int \<Rightarrow> fs \<Rightarrow> world" where
  "create_world rc fs = base_world
    \<lparr>files := (''/proc/mounts'', FileNode ''/dev/sda1 /mnt/mqm-data ext4 rw 0 0'') # fs,
     programs := (\<lambda>_ prog _ _ f. (Exited ''9.4.2.0'' (if prog = ''dspmqinf'' then rc else 0), f))\<rparr>"

theorem createQueueManager_outcome_witness:
  "\<exists>created. result (createQueueManager ''QM1'' True) (create_world 72 []) = Some (Inr created) \<and> created"
proof -
  let ?m = "createQueueManager ''QM1'' True" and ?w = "create_world 72 []"
  have "result ?m ?w = Some (Inr True)" by code_simp
  then have "run_state ?m ?w = (Some (Inr True), final ?m ?w)" by (metis prod.collapse)
  from createQueueManager_outcome [OF this] \<open>result ?m ?w = Some (Inr True)\<close> show ?thesis by blast
qed

theorem createQueueManager_keeps_data_witness:
  "\<exists>xs. new_execs (create_world 72 [(''/mnt/mqm-data/qmgrs/QM1/qm.ini'', FileNode [])])
      (final (createQueueManager ''QM1'' True) (create_world 72 [(''/mnt/mqm-data/qmgrs/QM1/qm.ini'', FileNode [])])) xs
    \<and> ''crtmqm'' \<notin> fst ` set xs"
proof -
  let ?m = "createQueueManager ''QM1'' True" and ?w = "create_world 72 [(''/mnt/mqm-data/qmgrs/QM1/qm.ini'', FileNode [])]"
  let ?mounts = "[(''/mnt/mqm-data'', ''ext4'')]"
  have "result GetMounts ?w = Some (Inr ?mounts)"
    "fs_stat (files ?w) (CleanPath [getQueueManagerDataDir ?mounts (replaceCharsInQMName ''QM1''), ''qm.ini'']) = Inr (FileNode [])"
    by code_simp+
  moreover have "\<exists>x. programs ?w n ''dspmqinf'' [''QM1''] (env ?w) (files ?w) = (x, files ?w)" "faults ?w n ''stat'' p = None" for n p
    by (simp_all add: create_world_def base_world_def)
  ultimately show ?thesis
    using createQueueManager_keeps_data [of ?w ?mounts "''QM1''" "FileNode []" True "result ?m ?w" "final ?m ?w"] by simp
qed

section \<open>Starting and stopping\<close>

lemma increase_file_limit_emits [emits_intro]: "(\<And>l m. E (Log l m)) \<Longrightarrow> state_io_rel (emits E) increase_file_limit"
  unfolding increase_file_limit_def setNoFileSoftLimitEqualToHardLimit_def by (intro emits_intro) simp_all

text \<open>
  C16: Starting the queue manager runs \<open>strmqm -x name\<close> once and nothing else, and succeeds exactly
  where that command exits with 0, with 30 (started as a standby) or with 94 (started as a native HA
  replica).
\<close>

theorem startQueueManager_ok:
  assumes "run_state (startQueueManager name) w = (r, w')"
  shows "\<exists>rc. new_execs w w' [(''strmqm'', [''-x'', name], rc)] \<and> (r = Inr () \<longleftrightarrow> rc \<in> {0, 30, 94})"
proof -
  obtain u w0 where i: "run_state increase_file_limit w = (u, w0)" by (cases "run_state increase_file_limit w")
  have w0: "new_execs w w0 []" using no_exec_execs [OF increase_file_limit_emits i] by simp
  obtain w1 where l: "run_state (log_Printf ''Starting queue manager'') w0 = ((), w1)" by (cases "run_state (log_Printf ''Starting queue manager'') w0") simp
  obtain out rc err w2 where s: "run_state (Run ''strmqm'' [''-x'', name]) w1 = ((out, rc, err), w2)" by (metis prod.exhaust)
  from assms i l s have "new_execs w2 w' []" "r = Inr () \<longleftrightarrow> err = None \<or> rc = 30 \<or> rc = 94"
    by (auto simp: startQueueManager_def command_failed_def simp del: run_log split: option.splits if_splits prod.splits dest: log_new_execs)
  with Run_execs [OF s] log_new_execs [OF l] w0 show ?thesis by auto
qed

theorem startQueueManager_ok_witness: "result (startQueueManager ''QM1'') base_world = Inr ()"
proof -
  let ?m = "startQueueManager ''QM1''"
  have "execs (trace (final ?m base_world)) = [(''strmqm'', [''-x'', ''QM1''], 0)]" "trace base_world = []" by code_simp+
  then show ?thesis using startQueueManager_ok [of "''QM1''" base_world "result ?m base_world" "final ?m base_world"] by auto
qed

text \<open>The grace period: the variable as a number, or 30 seconds.\<close>

definition grace_of :: "world \<Rightarrow> int" where
  "grace_of w = (case Atoi (result (os_Getenv ''MQ_GRACE_PERIOD'') w) of None \<Rightarrow> 30 | Some v \<Rightarrow> v)"

lemma stop_grace:
  "\<exists>w1. new_execs w w1 [] \<and> env w1 = env w
    \<and> run_state (stopQueueManager name) w = run_state (stop_with_grace name (grace_of w)) w1"
  by (cases "Atoi (result (os_Getenv ''MQ_GRACE_PERIOD'') w)")
    (simp add: stopQueueManager_def grace_of_def, rule exI, rule conjI [rotated], rule conjI [rotated], rule refl, simp_all)+

lemma Status_execs:
  assumes "run_state (Status name) w = (st, w')"
  shows "\<exists>rc. new_execs w w' [(''dspmq'', [''-n'', ''-m'', name], rc)] \<and> (isl st \<longleftrightarrow> rc \<noteq> 0) \<and> env w' = env w"
proof -
  obtain out rc err where r: "run_state (RunContext ''dspmq'' [''-n'', ''-m'', name]) w = ((out, rc, err), w')"
    and "isl st \<longleftrightarrow> err \<noteq> None"
    using assms by (auto simp: Status_def split: prod.splits option.splits)
  moreover from r have "env w' = env w" by (auto simp: RunContext_def exec_CombinedOutput_def split: prod.splits)
  ultimately show ?thesis using Run_execs [of "''dspmq''" "[''-n'', ''-m'', name]" w out rc err w'] by (auto simp: Run_def)
qed



end
