(* ===== verification/Logging.thy ===== *)
theory Logging
  imports Volumes Queue_Manager_Config "HOL-Library.Monad_Syntax"
begin

text \<open>
  The logging of \<open>runmqserver\<close>, from \<open>cmd/runmqserver/logging.go\<close>: the format and the sources that
  the environment selects, the function that mirrors one line of an MQ or web server log to the
  console in either format, the termination log and the diagnostics.

  A JSON object is the list of its keys and values; a number is a mantissa and a binary exponent, as
  \<open>float64\<close> holds it.  What the Go library does with JSON texts, with the verbs of \<open>fmt\<close> on values
  that are not strings, with times and with file attributes is the argument \<open>lib\<close>.  A type assertion
  or an index that fails is a panic, the value \<open>None\<close>.
\<close>

datatype jvalue = JNull | JBool bool | JNum int int | JStr string | JArr "jvalue list" | JObj "(string \<times> jvalue) list"

type_synonym jobject = "(string \<times> jvalue) list"

record stat_t =
  st_mode :: string
  st_nlink :: int
  st_uid :: int
  st_gid :: int
  st_size :: int
  st_time :: string

record golib =
  json_Unmarshal :: "string \<Rightarrow> error + jobject"
  fmt_verb :: "string \<Rightarrow> jvalue \<Rightarrow> string"
  time_Format :: "int \<Rightarrow> string"
  file_attributes :: "bool \<Rightarrow> string \<Rightarrow> stat_t"
  user_LookupId :: "string \<Rightarrow> string option"
  user_LookupGroupId :: "string \<Rightarrow> string option"
  os_Args0 :: string
  os_Getpid :: int
  user_Current :: "string option"

section \<open>What the environment selects\<close>

definition getLogFormat :: "string io" where
  "getLogFormat = do {
     a \<leftarrow> os_Getenv ''MQ_LOGGING_CONSOLE_FORMAT'';
     b \<leftarrow> os_Getenv ''LOG_FORMAT'';
     logFormat \<leftarrow> return (let f = ToLower (TrimSpace a) in if f = [] then ToLower (TrimSpace b) else f);
     return (if logFormat \<noteq> [] \<and> (logFormat = ''basic'' \<or> logFormat = ''json'') then logFormat else ''basic'')
   }"

definition getDebug :: "bool io" where
  "getDebug = do {
     debug \<leftarrow> os_Getenv ''DEBUG'';
     return (debug = ''true'' \<or> debug = ''1'')
   }"

definition getMQLogConsoleSource :: "string io" where
  "getMQLogConsoleSource = do {
     s \<leftarrow> os_Getenv ''MQ_LOGGING_CONSOLE_SOURCE'';
     return (ToLower (TrimSpace s))
   }"

fun valid_sources :: "string list \<Rightarrow> bool \<Rightarrow> bool" where
  "valid_sources [] retValue = retValue"
| "valid_sources (src # srcs) retValue =
    (if TrimSpace src = ''qmgr'' \<or> TrimSpace src = ''web'' \<or> TrimSpace src = ''mqsc'' \<or> TrimSpace src = []
     then valid_sources srcs True else False)"

definition isLogConsoleSourceValid :: "bool io" where
  "isLogConsoleSourceValid = do {
     mqLogSource \<leftarrow> getMQLogConsoleSource;
     return (if mqLogSource = [] then True else valid_sources (Split mqLogSource (CHR '','')) False)
   }"

fun source_loop :: "string \<Rightarrow> string list \<Rightarrow> bool io" where
  "source_loop source [] = return False"
| "source_loop source (arr # arrs) =
    (if TrimSpace arr = ''qmgr'' then (if source = ''qmgr'' then return True else source_loop source arrs)
     else if TrimSpace arr = ''web'' then
       (if source = ''web'' then do {
          old \<leftarrow> os_Getenv ''MQ_ENABLE_EMBEDDED_WEB_SERVER_LOG'';
          (if old \<noteq> []
           then log_Printf ''Environment variable MQ_ENABLE_EMBEDDED_WEB_SERVER_LOG has now been replaced. Use MQ_LOGGING_CONSOLE_SOURCE instead.''
           else return ());
          return True
        } else source_loop source arrs)
     else if TrimSpace arr = ''mqsc'' then (if source = ''mqsc'' then return True else source_loop source arrs)
     else source_loop source arrs)"

definition checkLogSourceForMirroring :: "string \<Rightarrow> bool io" where
  "checkLogSourceForMirroring source = do {
     logsrcs \<leftarrow> getMQLogConsoleSource;
     if logsrcs = [] then return (source = ''qmgr'' \<or> source = ''web'')
     else source_loop source (Split logsrcs (CHR '',''))
   }"

section \<open>Formatting a message\<close>

text \<open>The verbs \<open>%s\<close> and \<open>%v\<close>; a key that is missing gives \<open>nil\<close>.\<close>

definition jget :: "jobject \<Rightarrow> string \<Rightarrow> jvalue" where
  "jget obj k = (case map_of obj k of None \<Rightarrow> JNull | Some v \<Rightarrow> v)"

definition fmt_s :: "golib \<Rightarrow> jvalue \<Rightarrow> string" where
  "fmt_s lib v = (case v of JStr s \<Rightarrow> s | _ \<Rightarrow> fmt_verb lib ''%s'' v)"

definition fmt_v :: "golib \<Rightarrow> jvalue \<Rightarrow> string" where
  "fmt_v lib v = (case v of JStr s \<Rightarrow> s | _ \<Rightarrow> fmt_verb lib ''%v'' v)"

text \<open>\<open>%-13s\<close> fills up with blanks to 13 runes.\<close>

definition pad13 :: "string \<Rightarrow> string" where
  "pad13 s = s @ replicate (13 - length (runes s)) (CHR '' '')"

text \<open>\<open>v.(string)\<close>, and the use of a field that may be \<open>nil\<close>.\<close>

fun as_string :: "jvalue \<Rightarrow> string option" where
  "as_string (JStr s) = Some s"
| "as_string _ = None"

fun string_or_empty :: "jvalue \<Rightarrow> string option" where
  "string_or_empty JNull = Some []"
| "string_or_empty v = as_string v"

fun inserts_of :: "golib \<Rightarrow> jobject \<Rightarrow> string list option" where
  "inserts_of lib [] = Some []"
| "inserts_of lib ((k, v) # rest) =
    (if HasPrefix k ''ibm_commentInsert''
     then map_option ((#) (Replace1 k ''ibm_comment'' ''Comment'' @ ''('' @ fmt_v lib v @ '')'')) (inserts_of lib rest)
     else if HasPrefix k ''ibm_arithInsert''
     then (case v of
             JNum m e \<Rightarrow>
               if m \<noteq> 0
               then map_option ((#) (Replace1 k ''ibm_arith'' ''Arith'' @ ''('' @ fmt_v lib v @ '')'')) (inserts_of lib rest)
               else inserts_of lib rest
           | _ \<Rightarrow> None)
     else inserts_of lib rest)"
definition audit_fields :: "string list" where
  "audit_fields =
    [''ibm_audit_eventName'', ''ibm_audit_eventSequenceNumber'', ''ibm_audit_outcome'',
     ''ibm_audit_reason.reasonCode'', ''ibm_audit_reason.reasonType'', ''ibm_audit_observer.id'',
     ''ibm_audit_observer.name'', ''ibm_audit_initiator.host.address'', ''ibm_audit_initiator.host.agent'',
     ''ibm_audit_target.id'', ''ibm_audit_target.host.address'', ''ibm_audit_target.credential.token'',
     ''ibm_audit_target.method'', ''ibm_audit_target.name'', ''ibm_audit_target.jmx.mbean.action'',
     ''ibm_audit_target.jmx.mbean.name'', ''ibm_audit_target.session'', ''ibm_audit_eventTime'']"

definition audit_line :: "golib \<Rightarrow> jobject \<Rightarrow> string \<Rightarrow> string" where
  "audit_line lib obj timestamp =
    timestamp @ '' AUDIT:''
    @ concat (map (\<lambda>field. case map_of obj field of
                   None \<Rightarrow> []
                 | Some fieldVal \<Rightarrow> '' '' @ TrimPrefix field ''ibm_audit_'' @ ''='' @ fmt_verb lib ''%#v'' fieldVal) audit_fields)
    @ [nl]"

text \<open>\<open>string(b)\<close> of a byte is the encoding of the rune with that number.\<close>

definition string_of_byte :: "char \<Rightarrow> string" where
  "string_of_byte b =
    (if b < CHR 0x80 then [b]
     else [char_of (0xC0 + (of_char b :: nat) div 64), char_of (0x80 + (of_char b :: nat) mod 64)])"

definition trace_level :: "string \<Rightarrow> string option" where
  "trace_level l =
    (if l = ''AUDIT'' then Some ''A'' else if l = ''INFO'' then Some ''I'' else if l = ''EVENT'' then Some ''1''
     else if l = ''ENTRY'' then Some ''>'' else if l = ''EXIT'' then Some ''<'' else if l = ''FINE'' then Some ''1''
     else if l = ''FINER'' then Some ''2'' else if l = ''FINEST'' then Some ''3''
     else (case l of [] \<Rightarrow> None | b # _ \<Rightarrow> Some (string_of_byte b)))"

definition last_part :: "string \<Rightarrow> string" where
  "last_part s = last (Split s (CHR ''.''))"

definition short_module_name :: "jvalue \<Rightarrow> string option" where
  "short_module_name v =
    (if v = JNull then Some []
     else map_option (\<lambda>m. let n = last_part m in if length n > 13 then take 13 n else n) (as_string v))"

text \<open>The class name is shortened where the \<^emph>\<open>module\<close> name is long.\<close>

definition short_class_name :: "string \<Rightarrow> jvalue \<Rightarrow> string option" where
  "short_class_name srtModuleName v =
    (if v = JNull then Some []
     else (case as_string v of
             None \<Rightarrow> None
           | Some c \<Rightarrow>
               let n = last_part c in
               if length srtModuleName > 13 then (if length n < 13 then None else Some (take 13 n)) else Some n))"

definition words_line :: "string list \<Rightarrow> string" where
  "words_line ws = Join ws '' '' @ [nl]"

text \<open>A line for a trace message with a log level; \<open>Some None\<close> where no case applies.\<close>

definition trace_line :: "golib \<Rightarrow> jobject \<Rightarrow> string \<Rightarrow> string option option" where
  "trace_line lib obj timeStamp = do {
     threadID \<leftarrow> string_or_empty (jget obj ''ibm_threadId'');
     logLevelTmp \<leftarrow> as_string (jget obj ''loglevel'');
     logLevel \<leftarrow> trace_level logLevelTmp;
     srtModuleName \<leftarrow> short_module_name (jget obj ''module'');
     ibmClassName \<leftarrow> string_or_empty (jget obj ''ibm_className'');
     srtIbmClassName \<leftarrow> short_class_name srtModuleName (jget obj ''ibm_className'');
     ibmMethodName \<leftarrow> string_or_empty (jget obj ''ibm_methodName'');
     message \<leftarrow> string_or_empty (jget obj ''message'');
     Some
       (if logLevel = ''A'' \<or> logLevel = ''I''
        then Some (words_line [timeStamp, threadID, pad13 srtModuleName, logLevel, ibmClassName, ibmMethodName, message])
        else if logLevelTmp = ''EVENT''
        then Some (words_line [timeStamp, threadID, pad13 srtModuleName, logLevel, message])
        else if logLevel = ''>'' \<or> logLevel = ''<''
        then Some (words_line [timeStamp, threadID, pad13 srtModuleName, logLevel, ibmMethodName, message])
        else if logLevelTmp = ''FINE'' \<or> logLevel = ''2'' \<or> logLevel = ''3''
        then Some (words_line [timeStamp, threadID, pad13 srtIbmClassName, logLevel, ibmClassName, ibmMethodName, message])
        else None)
   }"

text \<open>The two fields that are normalised before a message without inserts is printed.\<close>

definition escape_newlines :: "string \<Rightarrow> string" where
  "escape_newlines m = ReplaceAll m [nl] [CHR 0x5C, CHR ''n'']"

definition normalise :: "jobject \<Rightarrow> (string \<times> jobject) option" where
  "normalise obj = do {
     t \<leftarrow> as_string (jget obj ''ibm_datetime'');
     ts \<leftarrow> Some (Replace1 t ''+0000'' ''Z'');
     obj' \<leftarrow> Some (AList.update ''ibm_datetime'' (JStr ts) obj);
     (case map_of obj' ''message'' of
        None \<Rightarrow> Some (ts, obj')
      | Some m \<Rightarrow> map_option (\<lambda>s. (ts, AList.update ''message'' (JStr (escape_newlines s)) obj')) (as_string m))
   }"

definition formatBasic :: "golib \<Rightarrow> jobject \<Rightarrow> string option" where
  "formatBasic lib obj0 = do {
     inserts \<leftarrow> inserts_of lib obj0;
     (if inserts \<noteq> []
      then Some (fmt_s lib (jget obj0 ''ibm_datetime'') @ '' '' @ fmt_s lib (jget obj0 ''message'')
             @ '' ['' @ Join (sort inserts) '', '' @ '']'' @ [nl])
      else do {
        (ts, obj) \<leftarrow> normalise obj0;
        plain \<leftarrow> Some (fmt_s lib (jget obj ''ibm_datetime'') @ '' '' @ fmt_s lib (jget obj ''message'') @ [nl]);
        (if jget obj ''type'' = JStr ''liberty_audit'' then Some (audit_line lib obj ts)
         else if jget obj ''type'' = JStr ''liberty_trace'' \<and> jget obj ''loglevel'' \<noteq> JNull
         then map_option (\<lambda>l. case l of Some s \<Rightarrow> s | None \<Rightarrow> plain) (trace_line lib obj ts)
         else Some plain)
      })
   }"

section \<open>Mirroring a line\<close>

definition processLogMessage :: "golib \<Rightarrow> string \<Rightarrow> error + jobject" where
  "processLogMessage lib msg = json_Unmarshal lib msg"

text \<open>For a multi-instance queue manager, whose log is shared: is the message from the other host?\<close>

definition filterQMLogMessage :: "jobject \<Rightarrow> bool option io" where
  "filterQMLogMessage obj = do {
     h \<leftarrow> os_Hostname;
     mi \<leftarrow> os_Getenv ''MQ_MULTI_INSTANCE'';
     return (case h of
               Inr hname \<Rightarrow>
                 if mi = ''true'' then map_option (\<lambda>s. \<not> Contains s hname) (as_string (jget obj ''host''))
                 else Some False
             | Inl _ \<Rightarrow> Some False)
   }"

definition isExcludedMsgIdPresent :: "string \<Rightarrow> string list \<Rightarrow> bool" where
  "isExcludedMsgIdPresent msg envExcludeIds \<longleftrightarrow> list_ex (\<lambda>i. i \<noteq> [] \<and> Contains msg (TrimSpace i)) envExcludeIds"

definition canMQSCLogBeMirroredToConsole :: "string \<Rightarrow> bool" where
  "canMQSCLogBeMirroredToConsole message \<longleftrightarrow>
    length message > 0 \<and> \<not> HasPrefix (TrimSpace message) '': *'' \<and> TrimSpace message \<noteq> '':''"

definition getTimeStamp :: "golib \<Rightarrow> string io" where
  "getTimeStamp lib = do {
     t \<leftarrow> time_Now_Unix;
     return (time_Format lib t)
   }"

text \<open>A match of \<open>AMQ[0-9]+E:\<close> at the beginning of a text, and somewhere in it.\<close>

definition amq_error_at :: "string \<Rightarrow> bool" where
  "amq_error_at s \<longleftrightarrow> prefix ''AMQ'' s \<and>
    (let ds = takeWhile is_digit (drop 3 s) in ds \<noteq> [] \<and> prefix ''E:'' (drop (3 + length ds) s))"

definition determineMQSCLogLevel :: "string \<Rightarrow> string" where
  "determineMQSCLogLevel message = (if list_ex amq_error_at (suffixes message) then ''ERROR'' else ''INFO'')"

definition json_field :: "string \<Rightarrow> string \<Rightarrow> string" where
  "json_field k v = [quote] @ k @ [quote] @ '':'' @ [quote] @ v @ [quote]"

definition mqsc_json :: "string \<Rightarrow> string \<Rightarrow> string \<Rightarrow> string" where
  "mqsc_json now lv m =
    ''{'' @ json_field ''ibm_datetime'' now @ '','' @ json_field ''type'' ''mqsc_log'' @ '',''
      @ json_field ''loglevel'' lv @ '','' @ json_field ''message'' m @ ''}'' @ [nl]"

text \<open>The part that is the same for both formats: what happens to the line, told by \<open>on_obj\<close> for a
  JSON message, \<open>on_err\<close> for a text that should be JSON and is not, and \<open>on_mqsc\<close> for any other.\<close>

definition mirror_with ::
    "golib \<Rightarrow> (jobject \<Rightarrow> unit option io) \<Rightarrow> (error \<Rightarrow> unit io) \<Rightarrow> unit io \<Rightarrow> string \<Rightarrow> bool \<Rightarrow> bool option io" where
  "mirror_with lib on_obj on_err on_mqsc msg isQMLog = do {
     ids \<leftarrow> os_Getenv ''MQ_LOGGING_CONSOLE_EXCLUDE_ID'';
     if isExcludedMsgIdPresent msg (Split (ToUpper ids) (CHR '','')) then return (Some False)
     else if length msg > 0 \<and> hd msg = CHR ''{'' then
       (case processLogMessage lib msg of
          Inl err \<Rightarrow> do { on_err err; return (Some True) }
        | Inr obj \<Rightarrow> do {
            f \<leftarrow> (if isQMLog then filterQMLogMessage obj else return (Some False));
            (case f of
               None \<Rightarrow> return None
             | Some True \<Rightarrow> return (Some False)
             | Some False \<Rightarrow> do { r \<leftarrow> on_obj obj; return (map_option (\<lambda>_. True) r) })
          })
     else do {
       src \<leftarrow> checkLogSourceForMirroring ''mqsc'';
       (if src \<and> canMQSCLogBeMirroredToConsole msg then on_mqsc else return ());
       return (Some True)
     }
   }"

definition mirror_json :: "golib \<Rightarrow> string \<Rightarrow> bool \<Rightarrow> bool option io" where
  "mirror_json lib msg isQMLog = mirror_with lib
     (\<lambda>obj. do { emit (Stdout (msg @ [nl])); return (Some ()) })
     (\<lambda>err. log_Printf (''Failed to unmarshall JSON in log message - '' @ msg))
     (do {
        now \<leftarrow> getTimeStamp lib;
        emit (Stdout (mqsc_json now (determineMQSCLogLevel (TrimSpace msg)) (TrimSpace msg)))
      }) msg isQMLog"

definition mirror_basic :: "golib \<Rightarrow> string \<Rightarrow> bool \<Rightarrow> bool option io" where
  "mirror_basic lib msg isQMLog = mirror_with lib
     (\<lambda>obj. case formatBasic lib obj of
              None \<Rightarrow> return None
            | Some s \<Rightarrow> do { emit (Stdout s); return (Some ()) })
     (\<lambda>err. log_Printf (''Failed to unmarshall JSON in log message - '' @ error_text err))
     (log_Printf (TrimSpace msg)) msg isQMLog"

text \<open>\<open>configureLogger\<close> sets the logger and chooses one of these two functions.\<close>

type_synonym mirrorFunc = "string \<Rightarrow> bool \<Rightarrow> bool option io"

definition configureLogger :: "golib \<Rightarrow> string \<Rightarrow> (error + mirrorFunc) io" where
  "configureLogger lib name = do {
     f \<leftarrow> getLogFormat;
     d \<leftarrow> getDebug;
     js \<leftarrow> return (f = ''json'');
     l \<leftarrow> NewLogger (os_Args0 lib) (os_Getpid lib) (user_Current lib)
            (if f = ''json'' \<or> f = ''basic'' then OsStdout else OsStderr) d js name;
     case l of
       Inl err \<Rightarrow> return (Inl err)
     | Inr lg \<Rightarrow> do {
         upd (\<lambda>w. w\<lparr>debug_on := debug lg, log_json := json lg\<rparr>);
         return (if f = ''json'' then Inr (mirror_json lib)
                 else if f = ''basic'' then Inr (mirror_basic lib)
                 else Inl (Errorf (''invalid value for LOG_FORMAT: '' @ f)))
       }
   }"

section \<open>Diagnostics and the termination log\<close>

definition logFilePermission :: "golib \<Rightarrow> string \<Rightarrow> string \<Rightarrow> stat_t \<Rightarrow> stat_t \<Rightarrow> unit io" where
  "logFilePermission lib path fileName info st = do {
     fileOwner \<leftarrow> return (case user_LookupId lib (Itoa (st_uid st)) of Some n \<Rightarrow> n | None \<Rightarrow> Itoa (st_uid st));
     fileGroup \<leftarrow> return (case user_LookupGroupId lib (Itoa (st_gid st)) of Some n \<Rightarrow> n | None \<Rightarrow> Itoa (st_gid st));
     log_Debug (path @ '':  '' @ st_mode info @ '' '' @ Itoa (st_nlink st) @ '' '' @ fileOwner @ '' '' @ fileGroup
       @ '' '' @ Itoa (st_size info) @ '' '' @ st_time info @ '' '' @ fileName)
   }"

fun errno_part :: "error \<Rightarrow> string" where
  "errno_part (PathError _ _ e) = errno_text e"
| "errno_part (Errorf s) = s"

definition log_child :: "golib \<Rightarrow> string \<Rightarrow> string \<Rightarrow> unit io" where
  "log_child lib path name = do {
     childInfo \<leftarrow> query ''lstat'' fs_lstat (path_Join [path, name]);
     case childInfo of
       Inl err \<Rightarrow> log_Debug (path @ '': error retrieving info for '' @ name @ '': '' @ error_text err)
     | Inr _ \<Rightarrow> do {
         st \<leftarrow> query ''stat'' fs_stat (CleanPath [path, name]);
         case st of
           Inl _ \<Rightarrow> log_Debug (path @ '': unable to retrieve '' @ name @ '' information'')
         | Inr _ \<Rightarrow> logFilePermission lib path name (file_attributes lib False (path_Join [path, name]))
                      (file_attributes lib True (CleanPath [path, name]))
       }
   }"

definition logPathPermissions :: "golib \<Rightarrow> string \<Rightarrow> unit io" where
  "logPathPermissions lib path = do {
     fileInfo \<leftarrow> os_Stat path;
     case fileInfo of
       Inl err \<Rightarrow> log_Debug (path @ '': error retrieving info: '' @ error_text err)
     | Inr info \<Rightarrow> do {
         st \<leftarrow> query ''stat'' fs_stat path;
         case st of
           Inl err \<Rightarrow> log_Debug (path @ '': error reading directory: '' @ errno_part err)
         | Inr _ \<Rightarrow>
             if info = DirNode then do {
               entries \<leftarrow> os_ReadDir path;
               case entries of
                 Inl err \<Rightarrow> log_Debug (path @ '': error reading directory: '' @ error_text err)
               | Inr names \<Rightarrow> each (log_child lib path) names
             } else logFilePermission lib path (last_elem (Clean path)) (file_attributes lib True path) (file_attributes lib True path)
       }
   }"

definition logFDCSummary :: "unit io" where
  "logFDCSummary = do {
     (out, rc, err) \<leftarrow> exec_CombinedOutput ''/opt/mqm/bin/ffstsummary'' [];
     case err of
       Some e \<Rightarrow> log_Debug (''FDC Summary Error: '' @ error_text e)
     | None \<Rightarrow> if out \<noteq> [] then log_Debug (''FDC summary: '' @ out) else return ()
   }"

definition diagnostic_paths :: "string list" where
  "diagnostic_paths = [''/mnt/'', ''/mnt/mqm'', ''/mnt/mqm/data'', ''/mnt/mqm-log/log'', ''/mnt/mqm-data/qmgrs'',
     ''/var/mqm'', ''/var/mqm/errors'', ''/etc/mqm'', ''/run'']"

definition logDiagnostics :: "golib \<Rightarrow> unit io" where
  "logDiagnostics lib = do {
     d \<leftarrow> getDebug;
     if d then do {
       log_Debug ''--- Start Diagnostics ---'';
       each (logPathPermissions lib) diagnostic_paths;
       logFDCSummary;
       log_Debug ''---  End Diagnostics  ---''
     } else return ()
   }"

definition termination_log :: string where
  "termination_log = ''/run/termination-log''"

definition logTermination :: "golib \<Rightarrow> string \<Rightarrow> unit io" where
  "logTermination lib msg = do {
     log_Debug (''Writing termination message: '' @ msg);
     r \<leftarrow> os_WriteFile termination_log msg;
     (case r of Inl err \<Rightarrow> log_Debug (error_text err) | Inr _ \<Rightarrow> return ());
     log_Error msg;
     c \<leftarrow> ask collectDiagOnFail;
     if c then logDiagnostics lib else return ()
   }"

section \<open>The sources of the console\<close>

lemma source_loop_result:
  "result (source_loop source xs) w \<longleftrightarrow> source \<in> {''qmgr'', ''web'', ''mqsc''} \<and> source \<in> TrimSpace ` set xs"
proof (induction source xs rule: source_loop.induct)
  case (2 source arr arrs)
  consider "TrimSpace arr = ''qmgr''" | "TrimSpace arr = ''web''" | "TrimSpace arr = ''mqsc''"
    | "TrimSpace arr \<noteq> ''qmgr''" "TrimSpace arr \<noteq> ''web''" "TrimSpace arr \<noteq> ''mqsc''" by blast
  then show ?case using 2 by cases auto
qed simp

lemma source_loop_quiet: "source \<noteq> ''web'' \<Longrightarrow> final (source_loop source xs) w = w"
  by (induction source xs rule: source_loop.induct) simp_all

lemma valid_sources_spec:
  "valid_sources xs b \<longleftrightarrow> TrimSpace ` set xs \<subseteq> {''qmgr'', ''web'', ''mqsc'', []} \<and> (xs \<noteq> [] \<or> b)"
  by (induction xs b rule: valid_sources.induct) auto

lemma Split_nonempty: "Split s c \<noteq> []"
  by (induction s c rule: Split.induct) (auto split: list.split)

lemma run_console_source [simp]:
  "run_state getMQLogConsoleSource w = (ToLower (TrimSpace (result (os_Getenv ''MQ_LOGGING_CONSOLE_SOURCE'') w)), w)"
  by (simp add: getMQLogConsoleSource_def)

text \<open>
  What \<open>MQ_LOGGING_CONSOLE_SOURCE\<close> selects.  Where the variable is not set or blank, the queue manager
  and web server logs are mirrored and the MQSC log is not; otherwise a source is mirrored exactly if it
  is one of the three sources and is an entry of the comma-separated list, without regard to case and
  surrounding blanks.  The value is called valid exactly if every entry is one of the sources or blank.
\<close>

theorem console_sources_spec:
  "(result (checkLogSourceForMirroring source) w \<longleftrightarrow>
    (let v = ToLower (TrimSpace (result (os_Getenv ''MQ_LOGGING_CONSOLE_SOURCE'') w)) in
     if v = [] then source \<in> {''qmgr'', ''web''}
     else source \<in> {''qmgr'', ''web'', ''mqsc''} \<and> source \<in> TrimSpace ` set (Split v (CHR '',''))))
   \<and> (result isLogConsoleSourceValid w \<longleftrightarrow>
    (let v = ToLower (TrimSpace (result (os_Getenv ''MQ_LOGGING_CONSOLE_SOURCE'') w)) in
     v = [] \<or> TrimSpace ` set (Split v (CHR '','')) \<subseteq> {''qmgr'', ''web'', ''mqsc'', []}))"
proof (rule conjI)
  let ?v = "ToLower (TrimSpace (result (os_Getenv ''MQ_LOGGING_CONSOLE_SOURCE'') w))"
  show "result (checkLogSourceForMirroring source) w \<longleftrightarrow>
    (let v = ?v in if v = [] then source \<in> {''qmgr'', ''web''}
     else source \<in> {''qmgr'', ''web'', ''mqsc''} \<and> source \<in> TrimSpace ` set (Split v (CHR '','')))"
    unfolding Let_def checkLogSourceForMirroring_def
    by (cases "?v = []") (simp_all add: source_loop_result)
  show "result isLogConsoleSourceValid w \<longleftrightarrow>
    (let v = ?v in v = [] \<or> TrimSpace ` set (Split v (CHR '','')) \<subseteq> {''qmgr'', ''web'', ''mqsc'', []})"
    by (simp add: isLogConsoleSourceValid_def Let_def valid_sources_spec Split_nonempty del: run_Getenv)
qed

section \<open>What mirroring a line does\<close>

lemma check_mqsc_run: "\<exists>b. run_state (checkLogSourceForMirroring ''mqsc'') w = (b, w)"
  using source_loop_quiet [of "''mqsc''"]
  by (simp add: checkLogSourceForMirroring_def) (metis eq_snd_iff)

lemma filter_run: "run_state (filterQMLogMessage obj) w = (r, w') \<Longrightarrow> trace w' = trace w"
  by (auto simp: filterQMLogMessage_def os_Hostname_def)

definition adds_one :: "'a io \<Rightarrow> bool" where
  "adds_one m \<longleftrightarrow> (\<forall>w. \<exists>es. trace (final m w) = trace w @ es \<and> length es \<le> 1)"

lemma mirror_with_effect:
  assumes "\<And>obj. adds_one (on_obj obj)" "\<And>err. adds_one (on_err err)" "adds_one on_mqsc"
    and "run_state (mirror_with lib on_obj on_err on_mqsc msg q) w = (r, w')"
  shows "\<exists>es. trace w' = trace w @ es \<and> length es \<le> 1 \<and> (r = Some False \<longrightarrow> es = [])"
proof -
  have obj: "\<exists>es. trace v' = trace v @ es \<and> length es \<le> 1 \<and> y \<noteq> Some False"
    if "run_state (do { r \<leftarrow> on_obj obj; return (map_option (\<lambda>_. True) r) }) v = (y, v')" for obj v y v'
  proof -
    from assms(1) [of obj] obtain es where "trace (final (on_obj obj) v) = trace v @ es" "length es \<le> 1"
      unfolding adds_one_def by blast
    with that show ?thesis by (cases "run_state (on_obj obj) v") auto
  qed
  have unit: "\<exists>es. trace v' = trace v @ es \<and> length es \<le> 1 \<and> y = Some True"
    if "adds_one m" "run_state (do { m; return (Some True) }) v = (y, v')" for m :: "unit io" and v y v'
  proof -
    from that(1) obtain es where "trace (final m v) = trace v @ es" "length es \<le> 1" unfolding adds_one_def by blast
    with that(2) show ?thesis by (cases "run_state m v") auto
  qed
  have "adds_one (return ())" by (simp add: adds_one_def)
  then have mqsc: "adds_one (if c then on_mqsc else return ())" for c using assms(3) by simp
  obtain b where b: "run_state (checkLogSourceForMirroring ''mqsc'') w = (b, w)" using check_mqsc_run by blast
  let ?ex = "isExcludedMsgIdPresent msg (Split (ToUpper (result (os_Getenv ''MQ_LOGGING_CONSOLE_EXCLUDE_ID'') w)) (CHR '',''))"
  let ?js = "length msg > 0 \<and> hd msg = CHR ''{''"
  consider "?ex" | "\<not> ?ex" "\<not> ?js" | e where "\<not> ?ex" "?js" "processLogMessage lib msg = Inl e"
    | obj where "\<not> ?ex" "?js" "processLogMessage lib msg = Inr obj"
    by (cases "processLogMessage lib msg") blast+
  then show ?thesis
  proof cases
    case 1
    with assms(4) show ?thesis by (simp add: mirror_with_def)
  next
    case 2
    with assms(4) b have "run_state (do { (if b \<and> canMQSCLogBeMirroredToConsole msg then on_mqsc else return ()); return (Some True) }) w = (r, w')"
      by (simp only: mirror_with_def if_False) auto
    from unit [OF mqsc this] show ?thesis by auto
  next
    case (3 e)
    with assms(4) have "run_state (do { on_err e; return (Some True) }) w = (r, w')" by (simp add: mirror_with_def)
    from unit [OF assms(2) this] show ?thesis by auto
  next
    case (4 obj)
    let ?m = "if q then filterQMLogMessage obj else return (Some False)"
    obtain f v where f: "run_state ?m w = (f, v)" by (cases "run_state ?m w")
    then have v: "trace v = trace w" by (auto dest: filter_run split: if_splits)
    consider "f = None" | "f = Some True" | "f = Some False" by (cases f) auto
    then show ?thesis
    proof cases
      case 3
      with 4 assms(4) f have "run_state (do { r \<leftarrow> on_obj obj; return (map_option (\<lambda>_. True) r) }) v = (r, w')"
        by (simp add: mirror_with_def)
      from obj [OF this] v show ?thesis by auto
    qed (use 4 assms(4) f v in \<open>auto simp: mirror_with_def\<close>)
  qed
qed

lemma adds_one_emit: "adds_one (emit e)" "adds_one (log_Printf s)"
  by (simp_all add: adds_one_def)

lemma mirror_effect:
  assumes "mirror = mirror_json lib \<or> mirror = mirror_basic lib" "run_state (mirror msg q) w = (r, w')"
  shows "\<exists>es. trace w' = trace w @ es \<and> length es \<le> 1 \<and> (r = Some False \<longrightarrow> es = [])"
proof -
  have "adds_one (do { emit e; return x })" for e and x :: "unit option" by (simp add: adds_one_def)
  moreover have "adds_one (do { now \<leftarrow> getTimeStamp lib; emit (f now) })" for f
    by (simp add: adds_one_def getTimeStamp_def time_Now_Unix_def)
  moreover have "adds_one (case x of None \<Rightarrow> return None | Some s \<Rightarrow> do { emit (Stdout s); return (Some ()) })" for x
    by (simp add: adds_one_def split: option.split)
  moreover note adds_one_emit
  ultimately show ?thesis
    using assms by (elim disjE) (simp only: mirror_json_def mirror_basic_def, erule mirror_with_effect [rotated 3]; assumption)+
qed

lemma mirror_excluded:
  assumes "mirror = mirror_json lib \<or> mirror = mirror_basic lib"
    and "isExcludedMsgIdPresent msg (Split (ToUpper (result (os_Getenv ''MQ_LOGGING_CONSOLE_EXCLUDE_ID'') w)) (CHR '',''))"
  shows "run_state (mirror msg q) w = (Some False, w)"
  using assms by (auto simp: mirror_json_def mirror_basic_def mirror_with_def)

lemma configureLogger_basic:
  assumes "result getLogFormat w = ''basic''" "fault_of w ''hostname'' [] = None"
  obtains v where "run_state (configureLogger lib name) w = (Inr (mirror_basic lib), v)"
  using assms
  by (auto simp: configureLogger_def getLogFormat_def getDebug_def NewLogger_def os_Hostname_def split: prod.splits)

lemma configureLogger_mirror:
  "run_state (configureLogger lib name) v = (Inr mirror, v') \<Longrightarrow> mirror = mirror_json lib \<or> mirror = mirror_basic lib"
  by (auto simp: configureLogger_def split: prod.splits sum.splits if_splits)

text \<open>
  C40: What the mirror function that \<open>configureLogger\<close> returns does with one line, in either format:
  it writes at most one record; where it returns \<open>false\<close>, which makes the caller count the line as
  dropped, it has written nothing; and a line that contains an excluded message id is dropped.
\<close>

theorem mirror_one_record:
  assumes "run_state (configureLogger lib name) v = (Inr mirror, v')"
    and "run_state (mirror msg isQMLog) w = (r, w')"
  shows "(\<exists>es. trace w' = trace w @ es \<and> length es \<le> 1 \<and> (r = Some False \<longrightarrow> es = []))
    \<and> (isExcludedMsgIdPresent msg (Split (ToUpper (result (os_Getenv ''MQ_LOGGING_CONSOLE_EXCLUDE_ID'') w)) (CHR '',''))
        \<longrightarrow> r = Some False)"
  using mirror_effect [OF configureLogger_mirror [OF assms(1)] assms(2)]
    mirror_excluded [OF configureLogger_mirror [OF assms(1)], of msg w isQMLog] assms(2)
  by simp_all

definition example_lib :: golib where
  "example_lib = \<lparr>json_Unmarshal = (\<lambda>s. Inr [(''message'', JStr ''hello''), (''ibm_datetime'', JStr ''2024-01-01T00:00:00.000+0000'')]),
     fmt_verb = (\<lambda>_ _. ''?''), time_Format = (\<lambda>_. ''2024-01-01T00:00:00.000Z''),
     file_attributes = (\<lambda>_ _. \<lparr>st_mode = ''drwxr-xr-x'', st_nlink = 1, st_uid = 0, st_gid = 0, st_size = 0, st_time = ''Jan  1 00:00''\<rparr>),
     user_LookupId = (\<lambda>_. None), user_LookupGroupId = (\<lambda>_. None), os_Args0 = ''runmqserver'', os_Getpid = 1,
     user_Current = None\<rparr>"

theorem mirror_one_record_witness:
  "\<exists>mirror. result (configureLogger example_lib ''QM1'') base_world = Inr mirror \<and>
     result (mirror ''{ AMQ5041I }'' True) (base_world\<lparr>env := [(''MQ_LOGGING_CONSOLE_EXCLUDE_ID'', ''amq5041i'')]\<rparr>) = Some False"
proof -
  let ?w = "base_world\<lparr>env := [(''MQ_LOGGING_CONSOLE_EXCLUDE_ID'', ''amq5041i'')]\<rparr>"
  have "result getLogFormat base_world = ''basic''" "fault_of base_world ''hostname'' [] = None" by code_simp+
  then obtain v where v: "run_state (configureLogger example_lib ''QM1'') base_world = (Inr (mirror_basic example_lib), v)"
    by (rule configureLogger_basic)
  moreover have "isExcludedMsgIdPresent ''{ AMQ5041I }''
      (Split (ToUpper (result (os_Getenv ''MQ_LOGGING_CONSOLE_EXCLUDE_ID'') ?w)) (CHR '',''))" by code_simp
  ultimately show ?thesis
    using mirror_one_record [of example_lib "''QM1''" base_world "mirror_basic example_lib" v "''{ AMQ5041I }''" True ?w]
    by (metis fst_conv prod.collapse)
qed

text \<open>
  An entry of \<open>MQ_LOGGING_CONSOLE_EXCLUDE_ID\<close> that is blank and not empty, such as the one after
  the comma of \<open>AMQ5041I, \<close> with a blank, stops the mirroring altogether: every line is dropped.  The test
  for an empty entry is made before the blanks are trimmed.
\<close>

theorem blank_exclude_id_hides_all:
  assumes "run_state (configureLogger lib name) v = (Inr mirror, v')"
    and "entry \<in> set (Split (ToUpper (result (os_Getenv ''MQ_LOGGING_CONSOLE_EXCLUDE_ID'') w)) (CHR '',''))"
    and "entry \<noteq> []" "TrimSpace entry = []"
  shows "run_state (mirror msg isQMLog) w = (Some False, w)"
proof (rule mirror_excluded [OF configureLogger_mirror [OF assms(1)]])
  show "isExcludedMsgIdPresent msg (Split (ToUpper (result (os_Getenv ''MQ_LOGGING_CONSOLE_EXCLUDE_ID'') w)) (CHR '',''))"
    using assms(2-4) by (auto simp: isExcludedMsgIdPresent_def list_ex_iff Contains_def intro!: bexI [of _ entry])
qed

theorem blank_exclude_id_hides_all_witness:
  "run_state (mirror_basic example_lib ''{ any message }'' True)
     (base_world\<lparr>env := [(''MQ_LOGGING_CONSOLE_EXCLUDE_ID'', ''AMQ5041I, '')]\<rparr>)
   = (Some False, base_world\<lparr>env := [(''MQ_LOGGING_CONSOLE_EXCLUDE_ID'', ''AMQ5041I, '')]\<rparr>)"
proof -
  have "result getLogFormat base_world = ''basic''" "fault_of base_world ''hostname'' [] = None" by code_simp+
  then obtain v where v: "run_state (configureLogger example_lib ''QM1'') base_world = (Inr (mirror_basic example_lib), v)"
    by (rule configureLogger_basic)
  have "'' '' \<in> set (Split (ToUpper (result (os_Getenv ''MQ_LOGGING_CONSOLE_EXCLUDE_ID'')
      (base_world\<lparr>env := [(''MQ_LOGGING_CONSOLE_EXCLUDE_ID'', ''AMQ5041I, '')]\<rparr>))) (CHR '',''))"
    "'' '' \<noteq> []" "TrimSpace '' '' = []" by code_simp+
  then show ?thesis by (rule blank_exclude_id_hides_all [OF v])
qed

section \<open>New lines in a message\<close>

lemma escape_newlines_none: "nl \<notin> set (escape_newlines m)"
  by (auto simp: escape_newlines_def ReplaceAll_char)

text \<open>
  The basic format of a message that is not a trace or audit record.  Without inserts, the text of
  the message is printed with its new lines escaped, so that the record is one line if its time is; with
  inserts, the text is printed as it is, with its new lines.
\<close>

theorem formatBasic_message:
  assumes "inserts_of lib obj = Some inserts"
    and "jget obj ''ibm_datetime'' = JStr t" "jget obj ''message'' = JStr m"
    and "jget obj ''type'' \<noteq> JStr ''liberty_audit''" "jget obj ''type'' \<noteq> JStr ''liberty_trace''"
  shows "formatBasic lib obj = Some
      (if inserts = [] then Replace1 t ''+0000'' ''Z'' @ '' '' @ escape_newlines m @ [nl]
       else t @ '' '' @ m @ '' ['' @ Join (sort inserts) '', '' @ '']'' @ [nl])
    \<and> nl \<notin> set (escape_newlines m)"
proof -
  have m: "map_of obj ''message'' = Some (JStr m)"
    using assms(3) by (auto simp: jget_def split: option.splits)
  have "formatBasic lib obj = Some
      (if inserts = [] then Replace1 t ''+0000'' ''Z'' @ '' '' @ escape_newlines m @ [nl]
       else t @ '' '' @ m @ '' ['' @ Join (sort inserts) '', '' @ '']'' @ [nl])"
  proof (cases "inserts = []")
    case True
    let ?obj = "AList.update ''message'' (JStr (escape_newlines m))
      (AList.update ''ibm_datetime'' (JStr (Replace1 t ''+0000'' ''Z'')) obj)"
    have n: "normalise obj = Some (Replace1 t ''+0000'' ''Z'', ?obj)"
      using assms(2) m by (simp add: normalise_def update_conv)
    have "jget ?obj ''type'' = jget obj ''type''" "jget ?obj ''message'' = JStr (escape_newlines m)"
      "jget ?obj ''ibm_datetime'' = JStr (Replace1 t ''+0000'' ''Z'')"
      by (simp_all add: jget_def update_conv)
    with True assms n show ?thesis by (simp add: formatBasic_def fmt_s_def)
  qed (use assms in \<open>simp add: formatBasic_def fmt_s_def\<close>)
  with escape_newlines_none show ?thesis by simp
qed

theorem formatBasic_message_witness:
  "formatBasic example_lib [(''ibm_datetime'', JStr ''t''), (''message'', JStr [CHR ''a'', nl, CHR ''b'']), (''ibm_commentInsert1'', JStr ''x'')]
    = Some (''t a'' @ [nl] @ ''b [CommentInsert1(x)]'' @ [nl])"
proof -
  let ?obj = "[(''ibm_datetime'', JStr ''t''), (''message'', JStr [CHR ''a'', nl, CHR ''b'']), (''ibm_commentInsert1'', JStr ''x'')]"
  have "inserts_of example_lib ?obj = Some [''CommentInsert1(x)'']" "jget ?obj ''ibm_datetime'' = JStr ''t''"
    "jget ?obj ''message'' = JStr [CHR ''a'', nl, CHR ''b'']" "jget ?obj ''type'' \<noteq> JStr ''liberty_audit''"
    "jget ?obj ''type'' \<noteq> JStr ''liberty_trace''" by code_simp+
  from formatBasic_message [OF this] show ?thesis by simp
qed

end
