(* ===== verification/Go_Scanner.thy ===== *)
theory Go_Scanner
  imports Go_Strings
begin

text \<open>
  \<open>bufio.Scanner\<close> of the Go library, as the programs use it to read a text line by line, and what it takes
  of a text.
\<close>

section \<open>Lines\<close>

text \<open>
  \<open>bufio.Scanner\<close> with its default split function and its default limit of the length of a line: the
  lines that are delivered from a text up to the end of the file, the number of bytes taken, and whether
  the scanner stopped with \<open>ErrTooLong\<close>.  The limit, 65536, is the size of the largest buffer; a line is
  too long when the buffer is full and holds no new line.
\<close>

definition MaxScanTokenSize :: nat where
  "MaxScanTokenSize = 65536"

definition dropCR :: "string \<Rightarrow> string" where
  "dropCR s = (if s \<noteq> [] \<and> last s = CHR 0x0D then butlast s else s)"

function scan :: "nat \<Rightarrow> string \<Rightarrow> string list \<times> nat \<times> bool" where
  "scan limit t =
    (if t = [] then ([], 0, False)
     else let line = takeWhile (\<lambda>c. c \<noteq> nl) t in
       if length line < limit \<and> length line < length t
       then (let (ls, n, err) = scan limit (drop (Suc (length line)) t) in (dropCR line # ls, Suc (length line) + n, err))
       else if length t < limit then ([dropCR t], length t, False)
       else ([], limit, True))"
  by pat_completeness auto
termination
  by (relation "measure (\<lambda>(_, t). length t)") auto

declare scan.simps [simp del]

section \<open>What a scan takes\<close>

text \<open>Texts in which the scanner never finds its buffer full.\<close>

definition short_lines :: "string \<Rightarrow> bool" where
  "short_lines t \<longleftrightarrow> (\<forall>a b c. t = a @ b @ c \<longrightarrow> nl \<notin> set b \<longrightarrow> length b < MaxScanTokenSize)"

lemma short_lines_drop: "short_lines t \<Longrightarrow> short_lines (drop n t)"
  unfolding short_lines_def by (metis append.assoc append_take_drop_id)

lemma short_lines_prefix: "short_lines (t @ u) \<Longrightarrow> short_lines t"
  unfolding short_lines_def by (metis append.assoc)

lemma short_lines_short: "length t < MaxScanTokenSize \<Longrightarrow> short_lines t"
  by (auto simp: short_lines_def)

lemma scan_bytes_le: "scan limit t = (ls, n, err) \<Longrightarrow> n \<le> length t"
proof (induction limit t arbitrary: ls n err rule: scan.induct)
  case (1 limit t)
  let ?line = "takeWhile (\<lambda>c. c \<noteq> nl) t"
  show ?case
  proof (cases "t \<noteq> [] \<and> length ?line < limit \<and> length ?line < length t")
    case True
    obtain ls' n' err' where "scan limit (drop (Suc (length ?line)) t) = (ls', n', err')" by (metis prod.exhaust)
    with True 1 show ?thesis by (fastforce simp: scan.simps [of limit t] Let_def)
  next
    case False
    with "1.prems" length_takeWhile_le [of "\<lambda>c. c \<noteq> nl" t] show ?thesis
      by (auto simp: scan.simps [of limit t] Let_def split: if_splits)
  qed
qed

lemma scan_all:
  assumes "short_lines t"
  shows "\<exists>ls. scan MaxScanTokenSize t = (ls, length t, False)"
  using assms
proof (induction t rule: length_induct)
  case (1 t)
  let ?line = "takeWhile (\<lambda>c. c \<noteq> nl) t" and ?rest = "drop (Suc (length (takeWhile (\<lambda>c. c \<noteq> nl) t))) t"
  have "t = [] @ ?line @ dropWhile (\<lambda>c. c \<noteq> nl) t" "nl \<notin> set ?line" by (auto dest: set_takeWhileD)
  with "1.prems" have line: "length ?line < MaxScanTokenSize" unfolding short_lines_def by blast
  show ?case
  proof (cases "length ?line < length t")
    case True
    then have "length ?rest < length t" by simp
    with 1 short_lines_drop obtain ls where "scan MaxScanTokenSize ?rest = (ls, length ?rest, False)" by blast
    with True line show ?thesis by (auto simp: scan.simps [of _ t] Let_def)
  next
    case False
    then have "?line = t" by (metis not_less take_all takeWhile_eq_take)
    with line have "length t < MaxScanTokenSize" by metis
    with False line show ?thesis by (auto simp: scan.simps [of _ t] Let_def)
  qed
qed

end
