(* ===== verification/Mirror.thy ===== *)
theory Mirror
  imports Logging Go_Scanner
begin

text \<open>
  Tailing a log file, from \<open>cmd/runmqserver/mirror.go\<close>.  The goroutine of \<open>mirrorLog\<close> runs beside the
  queue manager, which appends to the file, rotates it and may remove it at any moment, and beside the
  main thread, which cancels the context.  It is a step relation: \<open>mirror_next\<close> is one step of the
  goroutine, from one file operation to the next, and the other rules are the steps of the others.

  A file is named by a number, as \<open>os.SameFile\<close> compares files and not names.  The history has one entry
  for each call of \<open>mirrorAvailableMessages\<close>: the file, and the offsets before and after.
\<close>

section \<open>Reading the lines\<close>

text \<open>
  The lines of one call of \<open>mirrorAvailableMessages\<close> with the mirror function, its count and its
  messages.  A panic of the mirror function ends it.
\<close>

fun mirror_lines :: "mirrorFunc \<Rightarrow> bool \<Rightarrow> string list \<Rightarrow> nat \<Rightarrow> nat option io" where
  "mirror_lines mf isQMLog [] count = return (Some count)"
| "mirror_lines mf isQMLog (t # ts) count = do {
     r \<leftarrow> mf t isQMLog;
     case r of
       None \<Rightarrow> return None
     | Some b \<Rightarrow> mirror_lines mf isQMLog ts (if b then count + 1 else count)
   }"

definition mirrorAvailableMessages :: "string \<Rightarrow> string \<Rightarrow> mirrorFunc \<Rightarrow> bool \<Rightarrow> nat option io" where
  "mirrorAvailableMessages name available mf isQMLog = do {
     (ls, n, err) \<leftarrow> return (scan MaxScanTokenSize available);
     c \<leftarrow> mirror_lines mf isQMLog ls 0;
     case c of
       None \<Rightarrow> return None
     | Some count \<Rightarrow> do {
         (if count > 0 then log_Debug (''Mirrored '' @ Itoa (int count) @ '' log entries from '' @ name) else return ());
         (if err then log_Error (''Error reading file '' @ name @ '': bufio.Scanner: token too long'') else return ());
         return (Some n)
       }
   }"

section \<open>The goroutine\<close>

datatype mirror_pc =
    Wait_First | Open_First | Position | Read_Available | Wait_New
  | Read_Rest nat | Reopen nat | Read_New | Select | Shut_Down | Failed

record tailing =
  contents :: "nat \<Rightarrow> string"
  path_file :: "nat option"
  next_file :: nat
  cancelled :: bool
  pc :: mirror_pc
  handle :: nat
  pos :: nat
  fi :: nat
  offset :: nat
  fromStart :: bool
  closing :: bool
  history :: "(nat \<times> nat \<times> nat) list"

text \<open>
  \<open>waitForFile\<close>: \<open>None\<close> where it sleeps and looks again.  \<open>fault\<close> says that \<open>os.Stat\<close> fails, and not
  because there is no such file.
\<close>

definition waitForFile :: "bool \<Rightarrow> tailing \<Rightarrow> (unit + nat) option" where
  "waitForFile fault s =
    (if fault then Some (Inl ())
     else (case path_file s of
             Some i \<Rightarrow> Some (Inr i)
           | None \<Rightarrow> if cancelled s then Some (Inl ()) else None))"

definition read_available :: "tailing \<Rightarrow> tailing" where
  "read_available s =
    (let n = fst (snd (scan MaxScanTokenSize (drop (pos s) (contents s (handle s)))))
     in s\<lparr>pos := pos s + n, history := history s @ [(handle s, pos s, pos s + n)]\<rparr>)"

text \<open>\<open>os.OpenFile\<close> opens the file that is at the path at that moment.\<close>

definition open_path :: "bool \<Rightarrow> (tailing \<Rightarrow> tailing) \<Rightarrow> tailing \<Rightarrow> tailing" where
  "open_path fault k s =
    (case path_file s of
       Some i \<Rightarrow> if fault then s\<lparr>pc := Failed\<rparr> else k (s\<lparr>handle := i, pos := 0\<rparr>)
     | None \<Rightarrow> s\<lparr>pc := Failed\<rparr>)"

text \<open>
  The part before the goroutine is started: \<open>None\<close> where \<open>mirrorLog\<close> returns an error.  The offset is
  0 for a file that does not exist, and otherwise its size.
\<close>

definition mirrorLog :: "bool \<Rightarrow> bool \<Rightarrow> bool \<Rightarrow> tailing \<Rightarrow> tailing option" where
  "mirrorLog stat_fault open_fault from_start s0 =
    (let s = s0\<lparr>fromStart := from_start, closing := False, history := []\<rparr> in
     if stat_fault then None
     else (case path_file s of
             None \<Rightarrow> Some (s\<lparr>offset := 0, pc := Wait_First\<rparr>)
           | Some i \<Rightarrow>
               if open_fault then None
               else Some (s\<lparr>handle := i, pos := 0, offset := length (contents s i), pc := Position\<rparr>)))"

text \<open>One step of the goroutine; \<open>fault\<close> says that its system call fails.\<close>

definition mirror_next :: "bool \<Rightarrow> tailing \<Rightarrow> tailing" where
  "mirror_next fault s =
    (case pc s of
       Wait_First \<Rightarrow>
         (case waitForFile fault s of
            None \<Rightarrow> s
          | Some (Inl _) \<Rightarrow> s\<lparr>pc := Failed\<rparr>
          | Some (Inr i) \<Rightarrow> s\<lparr>pc := Open_First\<rparr>)
     | Open_First \<Rightarrow> open_path fault (\<lambda>s. s\<lparr>pc := Position\<rparr>) s
     | Position \<Rightarrow>
         if fault then s\<lparr>pc := Failed\<rparr>
         else s\<lparr>fi := handle s, pos := (if offset s \<noteq> 0 \<and> \<not> fromStart s then offset s else 0), pc := Read_Available\<rparr>
     | Read_Available \<Rightarrow> (read_available s)\<lparr>pc := Wait_New\<rparr>
     | Wait_New \<Rightarrow>
         (case waitForFile fault s of
            None \<Rightarrow> s
          | Some (Inl _) \<Rightarrow> s\<lparr>pc := Failed\<rparr>
          | Some (Inr i) \<Rightarrow> if i \<noteq> fi s then s\<lparr>pc := Read_Rest i\<rparr> else s\<lparr>pc := Select\<rparr>)
     | Read_Rest i \<Rightarrow> (read_available s)\<lparr>pc := Reopen i\<rparr>
     | Reopen i \<Rightarrow> open_path fault (\<lambda>s. s\<lparr>fi := i, pc := Read_New\<rparr>) s
     | Read_New \<Rightarrow> (read_available s)\<lparr>pc := Select\<rparr>
     | Select \<Rightarrow>
         if cancelled s then (if closing s then s\<lparr>pc := Shut_Down\<rparr> else s\<lparr>closing := True, pc := Read_Available\<rparr>)
         else s\<lparr>pc := Read_Available\<rparr>
     | Shut_Down \<Rightarrow> s
     | Failed \<Rightarrow> s)"

text \<open>The goroutine and the others.  A seek that fails is logged, and reading starts at the beginning.\<close>

inductive mirror_step :: "tailing \<Rightarrow> tailing \<Rightarrow> bool" where
  goroutine: "mirror_step s (mirror_next fault s)"
| seek_fails: "pc s = Position \<Longrightarrow> mirror_step s (s\<lparr>fi := handle s, pos := 0, pc := Read_Available\<rparr>)"
| append: "path_file s = Some i \<Longrightarrow> mirror_step s (s\<lparr>contents := (contents s)(i := contents s i @ t)\<rparr>)"
| rotate: "mirror_step s (s\<lparr>path_file := Some (next_file s), contents := (contents s)(next_file s := []), next_file := Suc (next_file s)\<rparr>)"
| unlink: "mirror_step s (s\<lparr>path_file := None\<rparr>)"
| cancel: "mirror_step s (s\<lparr>cancelled := True\<rparr>)"

section \<open>The logs that are mirrored\<close>

text \<open>
  The synchronous part of \<open>mirrorLog\<close> as the main thread sees it; the goroutine that it starts is the
  event \<open>Spawned\<close>.  \<open>None\<close> is a panic of the stanza parser.
\<close>

definition start_mirror :: "string \<Rightarrow> bool \<Rightarrow> bool \<Rightarrow> (error + unit) io" where
  "start_mirror path from_start isQMLog = do {
     st \<leftarrow> os_Stat path;
     case st of
       Inl err \<Rightarrow>
         if IsNotExist err then do { emit (Spawned (''mirror '' @ path)); return (Inr ()) } else return (Inl err)
     | Inr _ \<Rightarrow> do {
         f \<leftarrow> query ''open'' fs_stat path;
         case f of
           Inl err \<Rightarrow> return (Inl err)
         | Inr _ \<Rightarrow> do { emit (Spawned (''mirror '' @ path)); return (Inr ()) }
       }
   }"

definition mirrorSystemErrorLogs :: "(error + unit) io" where
  "mirrorSystemErrorLogs = start_mirror ''/var/mqm/errors/AMQERR01.json'' False False"

definition mirror_qm_file :: "string \<Rightarrow> string \<Rightarrow> bool \<Rightarrow> bool \<Rightarrow> (error + unit) option io" where
  "mirror_qm_file file name from_start isQMLog = do {
     qm \<leftarrow> GetQueueManager name;
     case qm of
       None \<Rightarrow> return None
     | Some (Inl err) \<Rightarrow> do { log_Debug (error_text err); return (Some (Inl err)) }
     | Some (Inr q) \<Rightarrow> do {
         r \<leftarrow> start_mirror (path_Join [GetErrorLogDirectory q, file]) from_start isQMLog;
         return (Some r)
       }
   }"

definition mirrorMQSCLogs :: "string \<Rightarrow> (error + unit) option io" where
  "mirrorMQSCLogs name = mirror_qm_file ''autocfgmqsc.LOG'' name True False"

definition mirrorQueueManagerErrorLogs :: "string \<Rightarrow> bool \<Rightarrow> (error + unit) option io" where
  "mirrorQueueManagerErrorLogs name from_start = mirror_qm_file ''AMQERR01.json'' name from_start True"

definition mirrorMQSimpleAuthLogs :: "string \<Rightarrow> bool \<Rightarrow> (error + unit) io" where
  "mirrorMQSimpleAuthLogs name from_start = start_mirror ''/var/mqm/errors/simpleauth.json'' False True"

definition mirrorWebServerLogs :: "string \<Rightarrow> bool \<Rightarrow> (error + unit) io" where
  "mirrorWebServerLogs name from_start =
    start_mirror ''/var/mqm/web/installations/Installation1/servers/mqweb/logs/messages.log'' from_start True"

section \<open>What is read\<close>

lemma read_available_simps [simp]:
  "contents (read_available s) = contents s" "handle (read_available s) = handle s"
  "path_file (read_available s) = path_file s" "next_file (read_available s) = next_file s"
  "cancelled (read_available s) = cancelled s" "closing (read_available s) = closing s"
  "fi (read_available s) = fi s" "pc (read_available s) = pc s" "offset (read_available s) = offset s"
  "fromStart (read_available s) = fromStart s"
  "history (read_available s) = history s @ [(handle s, pos s, pos (read_available s))]"
  by (simp_all add: read_available_def Let_def)

lemma read_available_pos:
  "pos s \<le> pos (read_available s)"
  "pos s \<le> length (contents s (handle s)) \<Longrightarrow> pos (read_available s) \<le> length (contents s (handle s))"
  "short_lines (contents s (handle s)) \<Longrightarrow> length (contents s (handle s)) \<le> pos (read_available s)"
proof -
  let ?t = "drop (pos s) (contents s (handle s))"
  obtain ls n err where n: "scan MaxScanTokenSize ?t = (ls, n, err)" by (metis prod.exhaust)
  then have p: "pos (read_available s) = pos s + n" by (simp add: read_available_def)
  then show "pos s \<le> pos (read_available s)" by simp
  show "pos s \<le> length (contents s (handle s)) \<Longrightarrow> pos (read_available s) \<le> length (contents s (handle s))"
    using scan_bytes_le [OF n] p by simp
  assume "short_lines (contents s (handle s))"
  from scan_all [OF short_lines_drop [OF this, of "pos s"]] n have "n = length ?t" by auto
  with p show "length (contents s (handle s)) \<le> pos (read_available s)" by simp
qed

section \<open>The last pass\<close>

lemma mirror_next_frame [simp]:
  "contents (mirror_next fault s) = contents s" "path_file (mirror_next fault s) = path_file s"
  "next_file (mirror_next fault s) = next_file s" "cancelled (mirror_next fault s) = cancelled s"
  "offset (mirror_next fault s) = offset s" "fromStart (mirror_next fault s) = fromStart s"
  by (cases "pc s"; simp add: mirror_next_def open_path_def split: option.split sum.split)+

lemma mirror_step_grows: "mirror_step s s' \<Longrightarrow> i < next_file s \<Longrightarrow> prefix (contents s i) (contents s' i)"
  by (erule mirror_step.cases) auto

lemma mirror_step_next_file: "mirror_step s s' \<Longrightarrow> next_file s \<le> next_file s'"
  by (erule mirror_step.cases) auto

lemma mirror_next_shut:
  "pc (mirror_next fault s) = Shut_Down \<Longrightarrow> (pc s = Shut_Down \<Longrightarrow> closing s) \<Longrightarrow> closing (mirror_next fault s)"
  by (cases "pc s") (auto simp: mirror_next_def open_path_def split: option.splits sum.splits if_splits)

lemma final_pass_step:
  assumes "mirror_step s s'"
    and "\<And>i. i < n \<Longrightarrow> prefix (c i) (contents s i)" "n \<le> next_file s"
    and "closing s \<Longrightarrow> pc s \<in> {Wait_New, Select, Shut_Down} \<or> (\<exists>i. pc s = Read_Rest i) \<Longrightarrow> handle s < n \<Longrightarrow>
      short_lines (contents s (handle s)) \<Longrightarrow> length (c (handle s)) \<le> pos s"
    and "closing s'" "pc s' \<in> {Wait_New, Select, Shut_Down} \<or> (\<exists>i. pc s' = Read_Rest i)" "handle s' < n"
    and "short_lines (contents s' (handle s'))"
  shows "length (c (handle s')) \<le> pos s'"
  using assms(1)
proof cases
  case (goroutine fault)
  have read: "length (c (handle s)) \<le> pos (read_available s)" if "handle s' = handle s"
    using read_available_pos(3) [of s] assms(2) [of "handle s"] assms(7,8) that goroutine
    by (metis le_trans mirror_next_frame(1) prefix_length_le)
  show ?thesis
  proof (cases "pc s")
    case Wait_First
    with goroutine assms(6) show ?thesis by (auto simp: mirror_next_def split: option.splits sum.splits)
  next
    case Open_First
    with goroutine assms(6) show ?thesis by (auto simp: mirror_next_def open_path_def split: option.splits if_splits)
  next
    case Wait_New
    with goroutine assms(4-8) show ?thesis by (auto simp: mirror_next_def split: option.splits sum.splits if_splits)
  next
    case (Reopen i)
    with goroutine assms(6) show ?thesis by (auto simp: mirror_next_def open_path_def split: option.splits if_splits)
  next
    case Read_Available
    with goroutine read show ?thesis by (simp add: mirror_next_def)
  next
    case Read_New
    with goroutine read show ?thesis by (simp add: mirror_next_def)
  qed (use goroutine assms(4-8) in \<open>auto simp: mirror_next_def split: if_splits\<close>)
next
  case (append i t)
  with assms(4-8) show ?thesis by (auto dest: short_lines_prefix split: if_splits)
next
  case rotate
  with assms(3-8) show ?thesis by (auto split: if_splits)
qed (use assms(4-8) in auto)


section \<open>Nothing skipped and nothing repeated\<close>

text \<open>The segments of a file that were read, and that they follow each other.\<close>

definition segments :: "(nat \<times> nat \<times> nat) list \<Rightarrow> nat \<Rightarrow> (nat \<times> nat) list" where
  "segments h i = map snd (filter (\<lambda>x. fst x = i) h)"

fun chain :: "nat \<Rightarrow> (nat \<times> nat) list \<Rightarrow> nat \<Rightarrow> bool" where
  "chain a [] b \<longleftrightarrow> a = b"
| "chain a ((f, t) # xs) b \<longleftrightarrow> a = f \<and> f \<le> t \<and> chain t xs b"

lemma chain_snoc: "chain a xs b \<Longrightarrow> b \<le> c \<Longrightarrow> chain a (xs @ [(b, c)]) c"
  by (induction a xs b rule: chain.induct) auto

lemma segments_simps [simp]:
  "segments [] i = []" "segments (h @ [(j, f, t)]) i = segments h i @ (if i = j then [(f, t)] else [])"
  by (auto simp: segments_def)

lemma segments_none: "i \<notin> fst ` set h \<Longrightarrow> segments h i = []"
  by (auto simp: segments_def filter_empty_conv)

text \<open>The window of the race that the code warns of, between \<open>waitForFile\<close> and \<open>OpenFile\<close>, and steps
  that do not rotate the log within it.\<close>

definition race_window :: "tailing \<Rightarrow> bool" where
  "race_window s \<longleftrightarrow> (case pc s of Read_Rest _ \<Rightarrow> True | Reopen _ \<Rightarrow> True | _ \<Rightarrow> False)"

definition calm_step :: "tailing \<Rightarrow> tailing \<Rightarrow> bool" where
  "calm_step s s' \<longleftrightarrow> mirror_step s s' \<and> (race_window s \<longrightarrow> path_file s' = path_file s \<or> path_file s' = None)"

definition looping :: "tailing \<Rightarrow> bool" where
  "looping s \<longleftrightarrow> pc s \<notin> {Wait_First, Open_First, Position, Failed}"

definition start_ok :: "tailing \<Rightarrow> nat \<Rightarrow> bool" where
  "start_ok s a \<longleftrightarrow> a = 0 \<or> a = offset s \<and> \<not> fromStart s"

definition tail_inv :: "tailing \<Rightarrow> bool" where
  "tail_inv s \<longleftrightarrow>
    (\<forall>p. path_file s = Some p \<longrightarrow> p < next_file s)
    \<and> (pc s \<in> {Wait_First, Open_First, Position} \<longrightarrow> history s = [])
    \<and> (looping s \<or> pc s = Position \<or> history s \<noteq> [] \<longrightarrow>
         handle s < next_file s \<and> (\<forall>p. path_file s = Some p \<longrightarrow> handle s \<le> p)
         \<and> pos s \<le> length (contents s (handle s)) \<and> (\<forall>i \<in> fst ` set (history s). i \<le> handle s))
    \<and> (pc s \<in> {Wait_First, Open_First} \<longrightarrow> offset s = 0)
    \<and> (pc s = Position \<longrightarrow> offset s \<le> length (contents s (handle s)))
    \<and> (looping s \<longrightarrow> fi s = handle s)
    \<and> (\<forall>i. pc s = Read_Rest i \<or> pc s = Reopen i \<longrightarrow> i \<noteq> handle s \<and> path_file s \<in> {Some i, None})
    \<and> (\<forall>i. pc s = Reopen i \<and> short_lines (contents s (handle s)) \<longrightarrow> pos s = length (contents s (handle s)))
    \<and> (looping s \<or> history s \<noteq> [] \<longrightarrow> (\<exists>a. start_ok s a \<and> chain a (segments (history s) (handle s)) (pos s)))
    \<and> (\<forall>i \<in> fst ` set (history s) - {handle s}. \<exists>a b. start_ok s a \<and> chain a (segments (history s) i) b
         \<and> (short_lines (contents s i) \<longrightarrow> b = length (contents s i)))"

lemma tail_inv_read:
  assumes "tail_inv s" "looping s" "pc s \<in> {Read_Available, Read_New} \<and> p \<in> {Wait_New, Select} \<or> (\<exists>i. pc s = Read_Rest i \<and> p = Reopen i)"
  shows "tail_inv ((read_available s)\<lparr>pc := p\<rparr>)"
proof -
  let ?s = "(read_available s)\<lparr>pc := p\<rparr>"
  from assms(1,2) obtain a where "start_ok s a" "chain a (segments (history s) (handle s)) (pos s)"
    by (auto simp: tail_inv_def)
  with read_available_pos(1) have "start_ok ?s a" "chain a (segments (history ?s) (handle ?s)) (pos ?s)"
    by (auto simp: start_ok_def intro: chain_snoc)
  then have "\<exists>a. start_ok ?s a \<and> chain a (segments (history ?s) (handle ?s)) (pos ?s)" by blast
  moreover have "\<forall>i \<in> fst ` set (history ?s) - {handle ?s}. \<exists>a b. start_ok ?s a \<and> chain a (segments (history ?s) i) b
         \<and> (short_lines (contents ?s i) \<longrightarrow> b = length (contents ?s i))"
    using assms(1) by (auto simp: tail_inv_def start_ok_def)
  moreover have "pos s \<le> length (contents s (handle s))" using assms(1,2) by (simp add: tail_inv_def)
  then have "pos ?s \<le> length (contents s (handle s))"
    "short_lines (contents s (handle s)) \<Longrightarrow> pos ?s = length (contents s (handle s))"
    using read_available_pos [of s] by auto
  ultimately show ?thesis
    using assms unfolding tail_inv_def looping_def by auto
qed

lemma tail_inv_next:
  assumes "tail_inv s" shows "tail_inv (mirror_next fault s)"
proof (cases "pc s")
  case Wait_First
  with assms show ?thesis
    by (auto simp: mirror_next_def tail_inv_def looping_def start_ok_def split: option.split sum.split)
next
  case Open_First
  with assms show ?thesis
    by (auto simp: mirror_next_def open_path_def tail_inv_def looping_def start_ok_def split: option.split)
next
  case Position
  with assms show ?thesis
    by (auto simp: mirror_next_def tail_inv_def looping_def start_ok_def)
next
  case Wait_New
  with assms show ?thesis
    by (auto simp: mirror_next_def waitForFile_def tail_inv_def looping_def start_ok_def split: option.split sum.split)
next
  case (Reopen i)
  then show ?thesis
  proof (cases "path_file s = Some i \<and> \<not> fault")
    case True
    then have n: "mirror_next fault s = s\<lparr>handle := i, pos := 0, fi := i, pc := Read_New\<rparr>"
      by (simp add: mirror_next_def open_path_def Reopen)
    from assms Reopen have lt: "handle s < i" "\<And>j. j \<in> fst ` set (history s) \<Longrightarrow> j \<le> handle s"
      using True by (fastforce simp: tail_inv_def looping_def)+
    then have new: "i \<notin> fst ` set (history s)" by fastforce
    have old: "\<exists>a b. start_ok s a \<and> chain a (segments (history s) j) b \<and> (short_lines (contents s j) \<longrightarrow> b = length (contents s j))"
      if "j \<in> fst ` set (history s)" for j
      using assms Reopen that by (cases "j = handle s") (auto simp: tail_inv_def looping_def)
    show ?thesis
      using assms Reopen True lt new old unfolding n tail_inv_def looping_def
      by (auto simp: segments_none start_ok_def dest: less_imp_le intro: le_trans)
  next
    case False
    with assms Reopen show ?thesis
      by (auto simp: mirror_next_def open_path_def tail_inv_def looping_def start_ok_def split: option.split)
  qed
next
  case Select
  with assms show ?thesis by (auto simp: mirror_next_def tail_inv_def looping_def start_ok_def)
qed (use assms tail_inv_read [OF assms] in \<open>auto simp: mirror_next_def looping_def\<close>)

lemma tail_inv_path: "tail_inv s \<Longrightarrow> path_file s = Some p \<Longrightarrow> p < next_file s"
  by (simp add: tail_inv_def)

lemma tail_inv_handle:
  assumes "tail_inv s" "looping s \<or> pc s = Position \<or> history s \<noteq> []"
  shows "handle s < next_file s" "i \<in> fst ` set (history s) \<Longrightarrow> i \<le> handle s"
    "path_file s = Some p \<Longrightarrow> handle s \<le> p" "pos s \<le> length (contents s (handle s))"
  using assms unfolding tail_inv_def by blast+

lemma tail_inv_open:
  assumes "tail_inv s" "looping s \<or> history s \<noteq> []"
  shows "\<exists>a. start_ok s a \<and> chain a (segments (history s) (handle s)) (pos s)"
  using assms unfolding tail_inv_def by (elim conjE) (erule mp)

lemma tail_inv_left:
  assumes "tail_inv s"
  shows "\<forall>i \<in> fst ` set (history s) - {handle s}. \<exists>a b. start_ok s a \<and> chain a (segments (history s) i) b
         \<and> (short_lines (contents s i) \<longrightarrow> b = length (contents s i))"
  using assms unfolding tail_inv_def by (elim conjE)

text \<open>Steps of the others: what they may change, file by file.\<close>

lemma tail_inv_env:
  assumes "tail_inv s"
    and same: "pc s' = pc s" "handle s' = handle s" "pos s' = pos s" "history s' = history s" "offset s' = offset s"
      "fi s' = fi s" "fromStart s' = fromStart s"
    and path: "next_file s \<le> next_file s'" "\<And>p. path_file s' = Some p \<Longrightarrow> p < next_file s' \<and> (path_file s = Some p \<or> next_file s \<le> p)"
    and longer: "\<And>j. j < next_file s \<Longrightarrow> length (contents s j) \<le> length (contents s' j)"
    and left: "\<And>j. j < next_file s \<Longrightarrow> path_file s \<noteq> Some j \<Longrightarrow> contents s' j = contents s j"
    and window: "race_window s \<Longrightarrow> path_file s' = path_file s \<or> path_file s' = None"
  shows "tail_inv s'"
proof -
  have sames: "looping s' = looping s" "start_ok s' = start_ok s"
    by (simp_all add: looping_def start_ok_def fun_eq_iff same)
  have c1: "\<forall>p. path_file s' = Some p \<longrightarrow> p < next_file s'" using path(2) by blast
  have c2: "looping s \<or> pc s = Position \<or> history s \<noteq> [] \<longrightarrow>
      handle s < next_file s' \<and> (\<forall>p. path_file s' = Some p \<longrightarrow> handle s \<le> p)
      \<and> pos s \<le> length (contents s' (handle s)) \<and> (\<forall>i \<in> fst ` set (history s). i \<le> handle s)"
    using tail_inv_handle [OF assms(1)] path longer by (meson le_trans less_imp_le less_le_trans)
  have c3: "pc s = Position \<longrightarrow> offset s \<le> length (contents s' (handle s))"
  proof
    assume p: "pc s = Position"
    with assms(1) have "offset s \<le> length (contents s (handle s))" by (simp add: tail_inv_def)
    also from p tail_inv_handle(1) [OF assms(1)] have "\<dots> \<le> length (contents s' (handle s))" by (intro longer) simp
    finally show "offset s \<le> length (contents s' (handle s))" .
  qed
  have c4: "\<forall>i. pc s = Read_Rest i \<or> pc s = Reopen i \<longrightarrow> i \<noteq> handle s \<and> path_file s' \<in> {Some i, None}"
  proof (intro allI impI)
    fix i assume i: "pc s = Read_Rest i \<or> pc s = Reopen i"
    then have "race_window s" by (auto simp: race_window_def)
    moreover from assms(1) i have "i \<noteq> handle s \<and> path_file s \<in> {Some i, None}" unfolding tail_inv_def by blast
    ultimately show "i \<noteq> handle s \<and> path_file s' \<in> {Some i, None}" using window by auto
  qed
  have c5: "\<forall>i. pc s = Reopen i \<and> short_lines (contents s' (handle s)) \<longrightarrow> pos s = length (contents s' (handle s))"
  proof (intro allI impI)
    fix i assume i: "pc s = Reopen i \<and> short_lines (contents s' (handle s))"
    then have "handle s < next_file s" using tail_inv_handle(1) [OF assms(1)] by (simp add: looping_def)
    moreover from assms(1) i have "i \<noteq> handle s \<and> path_file s \<in> {Some i, None}" unfolding tail_inv_def by blast
    then have "path_file s \<noteq> Some (handle s)" by auto
    ultimately have "contents s' (handle s) = contents s (handle s)" by (rule left)
    with assms(1) i show "pos s = length (contents s' (handle s))" by (simp add: tail_inv_def)
  qed
  have c6: "\<forall>i \<in> fst ` set (history s) - {handle s}. \<exists>a b. start_ok s a \<and> chain a (segments (history s) i) b
         \<and> (short_lines (contents s' i) \<longrightarrow> b = length (contents s' i))"
  proof
    fix i assume i: "i \<in> fst ` set (history s) - {handle s}"
    then have h: "looping s \<or> pc s = Position \<or> history s \<noteq> []" by auto
    from i tail_inv_handle(2) [OF assms(1) h] have "i < handle s" by fastforce
    moreover with tail_inv_handle(1,3) [OF assms(1) h] have "i < next_file s" "path_file s \<noteq> Some i" by fastforce+
    ultimately have "contents s' i = contents s i" by (intro left)
    with bspec [OF tail_inv_left [OF assms(1)] i]
    show "\<exists>a b. start_ok s a \<and> chain a (segments (history s) i) b
         \<and> (short_lines (contents s' i) \<longrightarrow> b = length (contents s' i))" by simp
  qed
  from assms(1) show ?thesis
    using c1 c2 c3 c4 c5 c6 unfolding tail_inv_def same sames by (elim conjE, intro conjI) assumption+
qed

lemma tail_inv_step:
  assumes "calm_step s s'" "tail_inv s"
  shows "tail_inv s'"
proof -
  from assms(1) have "mirror_step s s'" and w: "race_window s \<Longrightarrow> path_file s' = path_file s \<or> path_file s' = None"
    by (auto simp: calm_step_def)
  note path = tail_inv_path [OF assms(2)]
  from \<open>mirror_step s s'\<close> show ?thesis
  proof cases
    case (goroutine fault)
    with assms(2) show ?thesis by (simp add: tail_inv_next)
  next
    case seek_fails
    with assms(2) show ?thesis by (auto simp: tail_inv_def looping_def start_ok_def)
  qed (rule tail_inv_env [OF assms(2)]; use w path in \<open>auto simp: race_window_def\<close>)+
qed

lemma tail_inv_start:
  assumes "mirrorLog sf opf from_start s0 = Some s" "\<And>p. path_file s0 = Some p \<Longrightarrow> p < next_file s0"
  shows "tail_inv s"
  using assms by (auto simp: mirrorLog_def tail_inv_def looping_def start_ok_def Let_def split: if_splits option.splits)

lemma tail_inv_run: "calm_step\<^sup>*\<^sup>* s s' \<Longrightarrow> tail_inv s \<Longrightarrow> tail_inv s'"
  by (induction rule: rtranclp_induct) (auto intro: tail_inv_step)


section \<open>Runs by a list of actions\<close>

datatype action = Go | Append string | Rotate | Unlink | Cancel

fun act :: "action \<Rightarrow> tailing \<Rightarrow> tailing" where
  "act Go s = mirror_next False s"
| "act (Append t) s = (case path_file s of None \<Rightarrow> s | Some i \<Rightarrow> s\<lparr>contents := (contents s)(i := contents s i @ t)\<rparr>)"
| "act Rotate s = s\<lparr>path_file := Some (next_file s), contents := (contents s)(next_file s := []), next_file := Suc (next_file s)\<rparr>"
| "act Unlink s = s\<lparr>path_file := None\<rparr>"
| "act Cancel s = s\<lparr>cancelled := True\<rparr>"

lemma act_step: "mirror_step\<^sup>*\<^sup>* s (act a s)"
  by (cases a) (auto intro: mirror_step.intros split: option.split)

lemma acts_run: "mirror_step\<^sup>*\<^sup>* s (fold act as s)"
proof (induction as arbitrary: s)
  case (Cons a as)
  from rtranclp_trans [OF act_step [of s a] Cons.IH [of "act a s"]] show ?case by simp
qed simp

definition empty_log :: tailing where
  "empty_log = \<lparr>contents = (\<lambda>_. []), path_file = Some 0, next_file = 1, cancelled = False, pc = Failed, handle = 0,
     pos = 0, fi = 0, offset = 0, fromStart = False, closing = False, history = []\<rparr>"

definition started_log :: tailing where
  "started_log = empty_log\<lparr>pc := Position\<rparr>"

lemma started_log_start: "mirrorLog False False False empty_log = Some started_log"
  by (simp add: mirrorLog_def started_log_def empty_log_def)

lemma scan_line: "scan MaxScanTokenSize [c, nl] = ([dropCR [c]], 2, False)" if "c \<noteq> nl"
  using that by (simp add: scan.simps [of _ "[c, nl]"] scan.simps [of _ "[]"] MaxScanTokenSize_def)

lemma scan_nothing: "scan MaxScanTokenSize [] = ([], 0, False)"
  by (simp add: scan.simps)

lemmas run_simps = started_log_def empty_log_def mirror_next_def waitForFile_def open_path_def read_available_def
  scan_line scan_nothing Let_def




end
