(* ===== verification/Sensitive_Memory.thy ===== *)
theory Sensitive_Memory
  imports Go_OS
begin

text \<open>
  The package \<open>internal/sensitive\<close>: byte buffers that are overwritten with zeros when they are given up.
  The claim of the package is about memory, so memory is explicit: a map from the number of a block
  to its bytes, up to its capacity.  A slice is a block with a length.  Pins and finalizers do not show in it;
  a garbage collection of a \<open>meta\<close> that is no longer reachable is a call of \<open>zeroMeta\<close>.
\<close>

record memory =
  blocks :: "nat \<Rightarrow> string"
  next_block :: nat

record slice =
  s_block :: nat
  s_len :: nat

definition bytes :: "memory \<Rightarrow> slice \<Rightarrow> string" where
  "bytes h b = take (s_len b) (blocks h (s_block b))"

definition zeros :: "nat \<Rightarrow> string" where
  "zeros n = replicate n (CHR 0x00)"

text \<open>
  \<open>append\<close> of Go: in place where the capacity is enough, otherwise in a new block whose capacity the
  run time chooses (\<open>spare\<close> bytes more than needed).
\<close>

definition go_append :: "nat \<Rightarrow> slice \<Rightarrow> string \<Rightarrow> memory \<Rightarrow> slice \<times> memory" where
  "go_append spare b t h =
    (let old = blocks h (s_block b); n = s_len b + length t in
     if n \<le> length old
     then (b\<lparr>s_len := n\<rparr>, h\<lparr>blocks := (blocks h)(s_block b := take (s_len b) old @ t @ drop n old)\<rparr>)
     else (\<lparr>s_block = next_block h, s_len = n\<rparr>,
           h\<lparr>blocks := (blocks h)(next_block h := take (s_len b) old @ t @ zeros spare), next_block := Suc (next_block h)\<rparr>))"

text \<open>The object: its buffer (\<open>meta\<close>).\<close>

record Sensitive =
  buf :: slice

definition zeroMeta :: "slice \<Rightarrow> memory \<Rightarrow> memory" where
  "zeroMeta b h = h\<lparr>blocks := (blocks h)(s_block b := zeros (s_len b) @ drop (s_len b) (blocks h (s_block b)))\<rparr>"

definition setMeta :: "slice \<Rightarrow> Sensitive" where
  "setMeta b = \<lparr>buf = b\<rparr>"

definition Sensitive_New :: "slice \<Rightarrow> Sensitive" where
  "Sensitive_New b = setMeta b"

text \<open>\<open>Write\<close>: \<open>None\<close> is the panic of \<open>&newBuf[0]\<close> and \<open>&s.buf[0]\<close> on an empty buffer.\<close>

definition Sensitive_Write :: "nat \<Rightarrow> Sensitive \<Rightarrow> string \<Rightarrow> memory \<Rightarrow> (Sensitive \<times> memory) option" where
  "Sensitive_Write spare s t h =
    (let (newBuf, h') = go_append spare (buf s) t h in
     if s_len newBuf = 0 \<or> s_len (buf s) = 0 then None
     else if s_block newBuf \<noteq> s_block (buf s) then Some (setMeta newBuf, zeroMeta (buf s) h')
     else Some (s\<lparr>buf := newBuf\<rparr>, h'))"

definition Sensitive_Len :: "Sensitive \<Rightarrow> nat" where
  "Sensitive_Len s = s_len (buf s)"

definition Sensitive_Append :: "nat \<Rightarrow> Sensitive \<Rightarrow> Sensitive \<Rightarrow> memory \<Rightarrow> (Sensitive \<times> memory) option" where
  "Sensitive_Append spare s other h = Sensitive_Write spare s (bytes h (buf other)) h"

definition Sensitive_Clear :: "Sensitive \<Rightarrow> memory \<Rightarrow> memory" where
  "Sensitive_Clear s h = zeroMeta (buf s) h"

text \<open>\<open>String\<close> is a view of the buffer: what it shows is read from memory later.\<close>

definition Sensitive_String :: "Sensitive \<Rightarrow> slice" where
  "Sensitive_String s = buf s"

section \<open>Properties\<close>

definition slice_ok :: "memory \<Rightarrow> slice \<Rightarrow> bool" where
  "slice_ok h b \<longleftrightarrow> s_block b < next_block h \<and> s_len b \<le> length (blocks h (s_block b))"

lemma bytes_zeroed: "slice_ok h b \<Longrightarrow> bytes (zeroMeta b h) b = zeros (s_len b)"
  by (simp add: slice_ok_def bytes_def zeroMeta_def zeros_def)

text \<open>
  C36: Nothing of a secret stays behind.  For a buffer that is not empty, \<open>Write\<close> succeeds, the new
  buffer reads as the old text followed by the new one, and where the buffer has moved to another block,
  the old block reads as zeros, also through every string that was made from it before; no other
  block changes.  After \<open>Clear\<close> the buffer reads as zeros.
\<close>

theorem Sensitive_Write_zeroes:
  assumes "slice_ok h (buf s)" "0 < Sensitive_Len s"
  shows "\<exists>s' h'. Sensitive_Write spare s t h = Some (s', h')
    \<and> bytes h' (buf s') = bytes h (buf s) @ t \<and> slice_ok h' (buf s')
    \<and> (s_block (buf s') \<noteq> s_block (buf s) \<longrightarrow> bytes h' (Sensitive_String s) = zeros (Sensitive_Len s))
    \<and> (\<forall>i < next_block h. i \<noteq> s_block (buf s) \<longrightarrow> blocks h' i = blocks h i)
    \<and> bytes (Sensitive_Clear s' h') (Sensitive_String s') = zeros (Sensitive_Len s + length t)"
proof -
  let ?old = "blocks h (s_block (buf s))" and ?n = "s_len (buf s) + length t"
  show ?thesis
  proof (cases "?n \<le> length ?old")
    case True
    with assms show ?thesis
      by (auto simp: Sensitive_Write_def go_append_def Let_def Sensitive_Len_def slice_ok_def bytes_def
          Sensitive_Clear_def Sensitive_String_def zeroMeta_def zeros_def)
  next
    case False
    with assms show ?thesis
      by (auto simp: Sensitive_Write_def go_append_def Let_def Sensitive_Len_def slice_ok_def bytes_def setMeta_def
          Sensitive_Clear_def Sensitive_String_def zeroMeta_def zeros_def min_def)
  qed
qed

definition example_memory :: memory where
  "example_memory = \<lparr>blocks = (\<lambda>i. if i = 0 then ''pass'' else []), next_block = 1\<rparr>"

theorem Sensitive_Write_zeroes_witness:
  "\<exists>s' h'. Sensitive_Write 2 \<lparr>buf = \<lparr>s_block = 0, s_len = 4\<rparr>\<rparr> ''word'' example_memory = Some (s', h')
    \<and> bytes h' (buf s') = ''password'' \<and> bytes h' \<lparr>s_block = 0, s_len = 4\<rparr> = zeros 4"
proof -
  let ?s = "\<lparr>buf = \<lparr>s_block = 0, s_len = 4\<rparr>\<rparr>"
  have "slice_ok example_memory (buf ?s)" "0 < Sensitive_Len ?s"
    by (simp_all add: slice_ok_def example_memory_def Sensitive_Len_def)
  from Sensitive_Write_zeroes [OF this, of 2 "''word''"] obtain s' h' where
    w: "Sensitive_Write 2 ?s ''word'' example_memory = Some (s', h')"
    and b: "bytes h' (buf s') = bytes example_memory (buf ?s) @ ''word''"
    and z: "s_block (buf s') \<noteq> s_block (buf ?s) \<longrightarrow> bytes h' (Sensitive_String ?s) = zeros (Sensitive_Len ?s)" by blast
  have "bytes example_memory (buf ?s) = ''pass''" by (simp add: bytes_def example_memory_def)
  moreover from w have "s_block (buf s') \<noteq> s_block (buf ?s)"
    by (auto simp: Sensitive_Write_def go_append_def example_memory_def Let_def setMeta_def)
  ultimately show ?thesis using w b z by (auto simp: Sensitive_String_def Sensitive_Len_def)
qed

end
