(* ===== verification/Go_Result.thy ===== *)
theory Go_Result
  imports Logger
begin

text \<open>
  Results with three outcomes, as most of the larger operations have: a panic (\<open>None\<close>), an error and a
  value; and the composition that stands for \<open>if err != nil { return err }\<close>.
\<close>

type_synonym 'a res = "(error + 'a) option"

abbreviation ok :: "'a \<Rightarrow> 'a res io" where "ok x \<equiv> return (Some (Inr x))"
abbreviation fail :: "error \<Rightarrow> 'a res io" where "fail e \<equiv> return (Some (Inl e))"
abbreviation panic :: "'a res io" where "panic \<equiv> return None"

definition try_res :: "'a res io \<Rightarrow> ('a \<Rightarrow> 'b res io) \<Rightarrow> 'b res io" where
  "try_res m k = do {
     r \<leftarrow> m;
     case r of None \<Rightarrow> panic | Some (Inl e) \<Rightarrow> fail e | Some (Inr x) \<Rightarrow> k x
   }"

text \<open>An operation that does not panic, and one whose error is wrapped in another text.\<close>

definition lift_res :: "(error + 'a) io \<Rightarrow> 'a res io" where
  "lift_res m = do { r \<leftarrow> m; return (Some r) }"

definition wrap_error :: "(string \<Rightarrow> string) \<Rightarrow> (error + 'a) io \<Rightarrow> (error + 'a) io" where
  "wrap_error f m = do {
     r \<leftarrow> m;
     return (case r of Inl e \<Rightarrow> Inl (Errorf (f (error_text e))) | Inr x \<Rightarrow> Inr x)
   }"

text \<open>\<open>if err != nil { logTermination(err); return err }\<close>: \<open>report\<close> logs the text of the error.\<close>

definition on_error :: "(string \<Rightarrow> unit io) \<Rightarrow> 'a res io \<Rightarrow> 'a res io" where
  "on_error report m = do {
     r \<leftarrow> m;
     case r of
       None \<Rightarrow> panic
     | Some (Inl e) \<Rightarrow> do { report (error_text e); fail e }
     | Some (Inr x) \<Rightarrow> ok x
   }"

text \<open>A loop that threads a value and stops at the first error or panic.\<close>

fun for_res :: "('s \<Rightarrow> 'a \<Rightarrow> 's res io) \<Rightarrow> 's \<Rightarrow> 'a list \<Rightarrow> 's res io" where
  "for_res body s [] = ok s"
| "for_res body s (x # xs) = try_res (body s x) (\<lambda>s'. for_res body s' xs)"

context kept
begin

lemma io_try: "state_io_rel R m \<Longrightarrow> (\<And>x. state_io_rel R (k x)) \<Longrightarrow> state_io_rel R (try_res m k)"
  unfolding try_res_def by (intro io_rules)

lemma io_lift: "state_io_rel R m \<Longrightarrow> state_io_rel R (lift_res m)"
  unfolding lift_res_def by (intro io_rules)

lemma io_wrap: "state_io_rel R m \<Longrightarrow> state_io_rel R (wrap_error f m)"
  unfolding wrap_error_def by (intro io_rules)

lemma io_on_error: "(\<And>s. state_io_rel R (report s)) \<Longrightarrow> state_io_rel R m \<Longrightarrow> state_io_rel R (on_error report m)"
  unfolding on_error_def by (intro io_rules)

lemma io_for:
  "(\<And>s x. x \<in> set xs \<Longrightarrow> state_io_rel R (body s x)) \<Longrightarrow> state_io_rel R (for_res body s xs)"
  by (induction xs arbitrary: s) (auto intro!: io_try io_return)

lemmas io_res_rules = io_try io_lift io_wrap io_on_error io_for

end

lemmas [emits_intro] = em.io_res_rules
lemmas [env_intro] = se.io_res_rules
lemmas [files_intro] = sf.io_res_rules
lemmas [quiet_intro] = qt.io_res_rules

text \<open>How a composition succeeds.\<close>

lemma try_res_InrE:
  assumes "run_state (try_res m k) w = (Some (Inr y), w')"
  obtains x w1 where "run_state m w = (Some (Inr x), w1)" "run_state (k x) w1 = (Some (Inr y), w')"
  using assms by (auto simp: try_res_def split: prod.splits option.splits sum.splits)

lemma on_error_InrE:
  assumes "run_state (on_error report m) w = (Some (Inr y), w')"
  obtains "run_state m w = (Some (Inr y), w')"
  using assms by (auto simp: on_error_def split: prod.splits option.splits sum.splits)

lemma on_error_Inr: "run_state m w = (Some (Inr y), w') \<Longrightarrow> run_state (on_error report m) w = (Some (Inr y), w')"
  by (simp add: on_error_def)

text \<open>An invariant of a loop.\<close>

lemma for_res_inv:
  assumes "run_state (for_res body s xs) w = (Some (Inr s'), w')" "P s"
    and "\<And>s x v s' v'. P s \<Longrightarrow> x \<in> set xs \<Longrightarrow> run_state (body s x) v = (Some (Inr s'), v') \<Longrightarrow> P s'"
  shows "P s'"
  using assms
proof (induction xs arbitrary: s w)
  case (Cons x xs)
  from Cons.prems(1) obtain s1 w1 where "run_state (body s x) w = (Some (Inr s1), w1)"
    "run_state (for_res body s1 xs) w1 = (Some (Inr s'), w')"
    by (auto elim: try_res_InrE)
  moreover with Cons.prems(2,3) have "P s1" by (meson list.set_intros(1))
  ultimately show ?case using Cons.IH Cons.prems(3) by (meson list.set_intros(2))
qed simp

lemma lift_res_run: "run_state (lift_res m) w = (Some r, w') \<longleftrightarrow> run_state m w = (r, w')"
  by (auto simp: lift_res_def split: prod.splits)

lemma wrap_error_InrE:
  assumes "run_state (wrap_error f m) w = (Inr y, w')"
  obtains "run_state m w = (Inr y, w')"
  using assms by (auto simp: wrap_error_def split: prod.splits sum.splits)

section \<open>What a successful operation returns\<close>

text \<open>\<open>yields P m\<close>: whenever \<open>m\<close> returns a value, it satisfies \<open>P\<close>.  The rules follow the program text.\<close>

definition yields :: "('a \<Rightarrow> bool) \<Rightarrow> 'a res io \<Rightarrow> bool" where
  "yields P m \<longleftrightarrow> (\<forall>w y w'. run_state m w = (Some (Inr y), w') \<longrightarrow> P y)"

lemma yieldsD: "yields P m \<Longrightarrow> run_state m w = (Some (Inr y), w') \<Longrightarrow> P y"
  unfolding yields_def by blast

lemma yields_ok: "P x \<Longrightarrow> yields P (ok x)"
  by (simp add: yields_def)

lemma yields_fail: "yields P (fail e)" "yields P panic"
  by (simp_all add: yields_def)

lemma yields_any: "yields (\<lambda>_. True) m"
  by (simp add: yields_def)

lemma yields_try: "yields Q m \<Longrightarrow> (\<And>x. Q x \<Longrightarrow> yields P (k x)) \<Longrightarrow> yields P (try_res m k)"
  unfolding yields_def by (metis try_res_InrE)

lemma yields_on_error: "yields P m \<Longrightarrow> yields P (on_error report m)"
  unfolding yields_def by (metis on_error_InrE)

lemma yields_bind: "(\<And>x. yields P (k x)) \<Longrightarrow> yields P (State_Monad.bind m k)"
  by (auto simp: yields_def split: prod.splits)

lemma yields_if: "(b \<Longrightarrow> yields P m) \<Longrightarrow> (\<not> b \<Longrightarrow> yields P n) \<Longrightarrow> yields P (if b then m else n)"
  by simp

lemma yields_option: "(x = None \<Longrightarrow> yields P m) \<Longrightarrow> (\<And>y. x = Some y \<Longrightarrow> yields P (k y)) \<Longrightarrow> yields P (case_option m k x)"
  by (cases x) auto

lemma yields_prod: "(\<And>a b. x = (a, b) \<Longrightarrow> yields P (k a b)) \<Longrightarrow> yields P (case_prod k x)"
  by (cases x) auto

lemma yields_for:
  assumes "P s" "\<And>s x. P s \<Longrightarrow> x \<in> set xs \<Longrightarrow> yields P (body s x)"
  shows "yields P (for_res body s xs)"
  unfolding yields_def
proof (intro allI impI)
  fix w y w' assume "run_state (for_res body s xs) w = (Some (Inr y), w')"
  then show "P y" by (rule for_res_inv) (use assms in \<open>auto dest: yieldsD\<close>)
qed

lemma yields_mono: "yields Q m \<Longrightarrow> (\<And>x. Q x \<Longrightarrow> P x) \<Longrightarrow> yields P m"
  by (auto simp: yields_def)

end
