(* ===== verification/Keystore.thy ===== *)
theory Keystore
  imports Startup_Checks Go_Scanner Go_Result
begin

text \<open>
  Key stores and the commands that manage them, from \<open>internal/keystore\<close>, and the encoding of secrets of
  \<open>internal/securityutility\<close>.  A password is the text of its buffer (the buffers themselves are in
  \<open>Sensitive_Memory\<close>).
\<close>

section \<open>Key stores\<close>

record KeyStore =
  Filename :: string
  Password :: string
  keyStoreType :: string
  ks_command :: string
  fipsEnabled :: bool

definition runmqakm :: string where "runmqakm = ''/opt/mqm/bin/runmqakm''"

definition new_keystore :: "string \<Rightarrow> string \<Rightarrow> string \<Rightarrow> string \<Rightarrow> KeyStore io" where
  "new_keystore typ cmd filename password = do {
     f \<leftarrow> IsFIPSEnabled;
     return \<lparr>Filename = filename, Password = password, keyStoreType = typ, ks_command = cmd, fipsEnabled = f\<rparr>
   }"

definition NewJKSKeyStore :: "string \<Rightarrow> string \<Rightarrow> KeyStore io" where
  "NewJKSKeyStore filename password = new_keystore ''jks'' ''/opt/mqm/bin/runmqckm'' filename password"

definition NewCMSKeyStore :: "string \<Rightarrow> string \<Rightarrow> KeyStore io" where
  "NewCMSKeyStore filename password = new_keystore ''cms'' runmqakm filename password"

definition NewPKCS12KeyStore :: "string \<Rightarrow> string \<Rightarrow> KeyStore io" where
  "NewPKCS12KeyStore filename password = new_keystore ''p12'' runmqakm filename password"

definition getFipsEnabledFlag :: "KeyStore \<Rightarrow> string" where
  "getFipsEnabledFlag ks = (if fipsEnabled ks then ''-fips'' else ''-fips false'')"

definition ks_IsFIPSEnabled :: "KeyStore \<Rightarrow> bool" where
  "ks_IsFIPSEnabled ks = fipsEnabled ks"

text \<open>An error of a command: \<open>error running "<command> <what>": <error> <output>\<close>.\<close>

definition running_error :: "string \<Rightarrow> string \<Rightarrow> error \<Rightarrow> string \<Rightarrow> error" where
  "running_error cmd what e out = Errorf (''error running '' @ [quote] @ cmd @ what @ [quote] @ '': '' @ error_text e @ '' '' @ out)"

definition ks_run :: "KeyStore \<Rightarrow> string \<Rightarrow> string list \<Rightarrow> (error + string) io" where
  "ks_run ks what args = do {
     (out, rc, err) \<leftarrow> Run (ks_command ks) args;
     return (case err of Some e \<Rightarrow> Inl (running_error (ks_command ks) what e out) | None \<Rightarrow> Inr out)
   }"

definition unit_result :: "(error + 'a) io \<Rightarrow> (error + unit) io" where
  "unit_result m = do { r \<leftarrow> m; return (case r of Inl e \<Rightarrow> Inl e | Inr _ \<Rightarrow> Inr ()) }"

text \<open>The name of a file beside the key store.\<close>

definition with_extension :: "string \<Rightarrow> string \<Rightarrow> string" where
  "with_extension filename ext = take (length filename - length (Ext filename)) filename @ ext"

definition stale_files :: "KeyStore \<Rightarrow> string list" where
  "stale_files ks =
    (if keyStoreType ks = ''cms''
     then [with_extension (Filename ks) ''.sth'', with_extension (Filename ks) ''.rdb'', with_extension (Filename ks) ''.crl'']
     else []) @ [Filename ks]"

definition create_args :: "KeyStore \<Rightarrow> string list" where
  "create_args ks = [''-keydb'', ''-create'', getFipsEnabledFlag ks, ''-type'', keyStoreType ks, ''-db'', Filename ks,
     ''-pw'', Password ks, ''-stash'']"

definition ks_Create :: "KeyStore \<Rightarrow> (error + unit) io" where
  "ks_Create ks = do {
     st \<leftarrow> os_Stat (Filename ks);
     r \<leftarrow> (case st of
            Inr _ \<Rightarrow> for_err os_Remove (stale_files ks)
          | Inl err \<Rightarrow> return (if \<not> IsNotExist err then Inl err else Inr ()));
     case r of
       Inl err \<Rightarrow> return (Inl err)
     | Inr _ \<Rightarrow> unit_result (ks_run ks '' -keydb -create'' (create_args ks))
   }"

text \<open>
  The error of the command is a new variable in the inner block; after a success the function
  returns the outer one, that the stash file did not exist.
\<close>

definition CreateStash :: "KeyStore \<Rightarrow> (error + unit) io" where
  "CreateStash ks = do {
     st \<leftarrow> os_Stat (with_extension (Filename ks) ''.sth'');
     case st of
       Inr _ \<Rightarrow> return (Inr ())
     | Inl err \<Rightarrow>
         if IsNotExist err then do {
           r \<leftarrow> ks_run ks '' -keydb -stashpw''
                 [''-keydb'', getFipsEnabledFlag ks, ''-stashpw'', ''-type'', keyStoreType ks, ''-db'', Filename ks, ''-pw'', Password ks];
           return (case r of Inl e \<Rightarrow> Inl e | Inr _ \<Rightarrow> Inl err)
         } else return (Inl err)
   }"

definition ks_Import :: "KeyStore \<Rightarrow> string \<Rightarrow> string \<Rightarrow> (error + unit) io" where
  "ks_Import ks inputFile password = unit_result (ks_run ks '' -cert -import''
     [''-cert'', ''-import'', getFipsEnabledFlag ks, ''-file'', inputFile, ''-pw'', password, ''-target'', Filename ks,
      ''-target_pw'', Password ks, ''-target_type'', keyStoreType ks])"

definition CreateSelfSignedCertificate :: "KeyStore \<Rightarrow> string \<Rightarrow> string \<Rightarrow> string \<Rightarrow> (error + unit) io" where
  "CreateSelfSignedCertificate ks lbl dn hn = unit_result (ks_run ks '' -cert -create''
     [''-cert'', ''-create'', getFipsEnabledFlag ks, ''-db'', Filename ks, ''-pw'', Password ks, ''-label'', lbl,
      ''-dn'', dn, ''-san_dnsname'', hn, ''-size 2048 -sig_alg sha512 -eku serverAuth''])"

definition ks_Add :: "KeyStore \<Rightarrow> string \<Rightarrow> string \<Rightarrow> (error + unit) io" where
  "ks_Add ks inputFile lbl = unit_result (ks_run ks '' -cert -add''
     [''-cert'', ''-add'', getFipsEnabledFlag ks, ''-db'', Filename ks, ''-type'', keyStoreType ks, ''-pw'', Password ks,
      ''-file'', inputFile, ''-label'', lbl])"

definition AddNoLabel :: "KeyStore \<Rightarrow> string \<Rightarrow> (error + unit) io" where
  "AddNoLabel ks inputFile = unit_result (ks_run ks '' -cert -add''
     [''-cert'', ''-add'', getFipsEnabledFlag ks, ''-db'', Filename ks, ''-type'', keyStoreType ks, ''-pw'', Password ks,
      ''-file'', inputFile])"

text \<open>The labels in a listing: the lines with one of the marks, without the marks.\<close>

definition labels_of :: "string list \<Rightarrow> string \<Rightarrow> string \<Rightarrow> error + string list" where
  "labels_of marks cutset out =
    (let (ls, n, long) = scan MaxScanTokenSize out in
     if long then Inl (Errorf ''bufio.Scanner: token too long'')
     else Inr (map (\<lambda>s. TrimSpace (TrimLeft s cutset)) (filter (\<lambda>s. list_ex (HasPrefix s) marks) ls)))"

definition list_certificates :: "string list \<Rightarrow> string \<Rightarrow> KeyStore \<Rightarrow> (error + string list) io" where
  "list_certificates marks cutset ks = do {
     r \<leftarrow> ks_run ks '' -cert -list''
           [''-cert'', ''-list'', getFipsEnabledFlag ks, ''-type'', keyStoreType ks, ''-db'', Filename ks, ''-pw'', Password ks];
     return (case r of Inl e \<Rightarrow> Inl e | Inr out \<Rightarrow> labels_of marks cutset out)
   }"

definition GetCertificateLabels :: "KeyStore \<Rightarrow> (error + string list) io" where
  "GetCertificateLabels ks = list_certificates [''-'', ''*-''] ''-*'' ks"

definition ListAllCertificates :: "KeyStore \<Rightarrow> (error + string list) io" where
  "ListAllCertificates ks = list_certificates [''-'', ''*-'', ''!''] ''-*!'' ks"

definition ks_fileExists :: "string \<Rightarrow> bool io" where
  "ks_fileExists filePath = do { r \<leftarrow> os_Stat filePath; return (case r of Inl _ \<Rightarrow> False | Inr _ \<Rightarrow> True) }"

text \<open>A command with one more environment variable.\<close>

definition exec_with_env :: "string \<Rightarrow> string \<Rightarrow> string \<Rightarrow> string list \<Rightarrow> (string \<times> int \<times> error option) io" where
  "exec_with_env var val prog args = do {
     (o', f') \<leftarrow> ask (\<lambda>w. programs w (calls w) prog args (AList.update var val (env w)) (files w));
     upd (\<lambda>w. w\<lparr>calls := Suc (calls w), files := f'\<rparr>);
     emit (Exec prog args (fst (snd (outcome_result o'))));
     return (outcome_result o')
   }"

text \<open>The command that renames, with its library path.\<close>

definition gskit_command :: "(string \<times> string) option io" where
  "gskit_command = do {
     g9 \<leftarrow> ks_fileExists ''/opt/mqm/gskit9'';
     if g9 then return (Some (''/opt/mqm/gskit9/lib64/:/opt/mqm/gskit9/lib'', ''/opt/mqm/gskit9/bin/gsk9certutil_64''))
     else do {
       g8 \<leftarrow> ks_fileExists ''/opt/mqm/gskit8'';
       return (if g8 then Some (''/opt/mqm/gskit8/lib64/:/opt/mqm/gskit8/lib'', ''/opt/mqm/gskit8/bin/gsk8capicmd_64'') else None)
     }
   }"

definition RenameCertificate :: "KeyStore \<Rightarrow> string \<Rightarrow> string \<Rightarrow> (error + unit) io" where
  "RenameCertificate ks old new = do {
     args \<leftarrow> return [''-cert'', ''-rename'', ''-db'', Filename ks, ''-pw'', Password ks, ''-label'', old, ''-new_label'', new];
     if ks_command ks = runmqakm then do {
       cmd \<leftarrow> gskit_command;
       case cmd of
         None \<Rightarrow> return (Inl (Errorf ''error finding gskit installation''))
       | Some (gskitLib, c) \<Rightarrow> do {
           (out, rc, err) \<leftarrow> exec_with_env ''LD_LIBRARY_PATH'' gskitLib c args;
           return (case err of Some e \<Rightarrow> Inl (running_error c '' -cert -rename'' e out) | None \<Rightarrow> Inr ())
         }
     } else unit_result (ks_run ks '' -cert -rename'' args)
   }"

section \<open>Encoding secrets\<close>

definition encoded_line :: "string list \<Rightarrow> string" where
  "encoded_line ls = TrimSpace (case filter (\<lambda>l. Contains l ''{aes}'') ls of [] \<Rightarrow> [] | xs \<Rightarrow> last xs)"

definition encode_script :: "string \<Rightarrow> string" where
  "encode_script secret =
    ''source setmqenv -s;/opt/mqm/web/bin/server; /opt/mqm/web/bin/securityUtility encode --encoding=aes '' @ secret"

definition EncodeSecrets :: "string \<Rightarrow> (error + string) io" where
  "EncodeSecrets secret = do {
     st \<leftarrow> os_Stat ''/opt/mqm/web/bin/securityUtility'';
     if (case st of Inl err \<Rightarrow> IsNotExist err | Inr _ \<Rightarrow> False)
     then return (case st of Inl err \<Rightarrow> Inl err | Inr _ \<Rightarrow> Inr [])
     else if length secret > 256
     then return (Inl (Errorf (''length of password is greater than the maximum length of 256 characters, length of password is ''
            @ Itoa (int (length secret)))))
     else do {
       (out, rc, err) \<leftarrow> exec_with_env ''JAVA_HOME'' ''/opt/mqm/java/jre64/jre'' ''/bin/sh'' [''-c'', encode_script secret];
       return (case err of Some e \<Rightarrow> Inl e | None \<Rightarrow> Inr (encoded_line (Split out nl)))
     }
   }"

section \<open>Events of the operations\<close>

lemma exec_with_env_emits [emits_intro]:
  "(\<And>rc. E (Exec prog args rc)) \<Longrightarrow> state_io_rel (emits E) (exec_with_env var val prog args)"
  unfolding exec_with_env_def by (intro emits_intro) simp_all

lemma unit_result_emits [emits_intro]: "state_io_rel (emits E) m \<Longrightarrow> state_io_rel (emits E) (unit_result m)"
  unfolding unit_result_def by (intro emits_intro)

lemma ks_run_emits [emits_intro]:
  "(\<And>rc. E (Exec (ks_command ks) args rc)) \<Longrightarrow> state_io_rel (emits E) (ks_run ks what args)"
  unfolding ks_run_def by (intro emits_intro)

lemma new_keystore_emits [emits_intro]:
  "state_io_rel (emits E) (NewCMSKeyStore f p)" "state_io_rel (emits E) (NewPKCS12KeyStore f p)"
  "state_io_rel (emits E) (NewJKSKeyStore f p)"
  unfolding NewCMSKeyStore_def NewPKCS12KeyStore_def NewJKSKeyStore_def new_keystore_def by (intro emits_intro)+

definition keystore_event :: "event \<Rightarrow> bool" where
  "keystore_event e \<longleftrightarrow> (case e of Exec _ _ _ \<Rightarrow> True | Removed _ \<Rightarrow> True | _ \<Rightarrow> False)"

lemma keystore_emits [emits_intro]:
  assumes "\<And>e. keystore_event e \<Longrightarrow> E e"
  shows "state_io_rel (emits E) (ks_Create ks)" "state_io_rel (emits E) (CreateStash ks)"
    "state_io_rel (emits E) (ks_Import ks f p)" "state_io_rel (emits E) (CreateSelfSignedCertificate ks lbl dn hn)"
    "state_io_rel (emits E) (ks_Add ks f lbl)" "state_io_rel (emits E) (AddNoLabel ks f)"
    "state_io_rel (emits E) (GetCertificateLabels ks)" "state_io_rel (emits E) (ListAllCertificates ks)"
    "state_io_rel (emits E) (RenameCertificate ks old new)" "state_io_rel (emits E) (EncodeSecrets secret)"
  unfolding ks_Create_def CreateStash_def ks_Import_def CreateSelfSignedCertificate_def ks_Add_def AddNoLabel_def
    GetCertificateLabels_def ListAllCertificates_def RenameCertificate_def EncodeSecrets_def list_certificates_def
    gskit_command_def ks_fileExists_def
  by (intro emits_intro; rule assms; simp add: keystore_event_def)+

section \<open>Properties\<close>

lemma unit_result_Inr:
  "run_state (unit_result m) w = (Inr u, w') \<Longrightarrow> \<exists>x. run_state m w = (Inr x, w')"
  by (auto simp: unit_result_def split: prod.splits sum.splits)

lemma ks_run_Inr:
  "run_state (ks_run ks what args) w = (Inr out, w') \<Longrightarrow> trace w' = trace w @ [Exec (ks_command ks) args 0]"
  by (auto simp: ks_run_def split: prod.splits option.splits dest: Run_trace Run_result_err)

lemma for_err_Remove_trace:
  assumes "run_state (for_err os_Remove ps) w = (Inr u, w')"
  shows "trace w' = trace w @ map Removed ps"
  using assms
proof (induction ps arbitrary: w)
  case (Cons p ps)
  obtain r w1 where r: "run_state (os_Remove p) w = (r, w1)" by (cases "run_state (os_Remove p) w")
  with Cons.prems obtain v where "r = Inr v" "run_state (for_err os_Remove ps) w1 = (Inr u, w')"
    by (auto split: sum.splits)
  moreover from this(1) r have "trace w1 = trace w @ [Removed p]"
    by (auto simp: os_Remove_def change_def query_run split: option.splits sum.splits)
  ultimately show ?case using Cons.IH by simp
qed simp

text \<open>
  Creating a key store that succeeds has refreshed it: where the file was there, it and, for a CMS
  key store, its stash, request and revocation files have been removed, in this order and before
  anything else; then the command that creates it has been run once, with the FIPS option of the
  key store, and has succeeded.
\<close>

theorem ks_Create_refreshes:
  assumes "run_state (ks_Create ks) w = (Inr u, w')"
  shows "trace w' = trace w
    @ (case result (os_Stat (Filename ks)) w of Inr _ \<Rightarrow> map Removed (stale_files ks) | Inl _ \<Rightarrow> [])
    @ [Exec (ks_command ks) [''-keydb'', ''-create'', if fipsEnabled ks then ''-fips'' else ''-fips false'', ''-type'', keyStoreType ks,
         ''-db'', Filename ks, ''-pw'', Password ks, ''-stash''] 0]"
proof -
  obtain st w1 where st: "run_state (os_Stat (Filename ks)) w = (st, w1)" by (cases "run_state (os_Stat (Filename ks)) w")
  have w1: "trace w1 = trace w" using st by (auto simp: os_Stat_def query_run)
  let ?m = "case st of Inr _ \<Rightarrow> for_err os_Remove (stale_files ks) | Inl err \<Rightarrow> return (if \<not> IsNotExist err then Inl err else Inr ())"
  obtain r w2 where r: "run_state ?m w1 = (r, w2)" by (cases "run_state ?m w1")
  with assms st obtain v where v: "r = Inr v" and c: "run_state (unit_result (ks_run ks '' -keydb -create'' (create_args ks))) w2 = (Inr u, w')"
    by (auto simp: ks_Create_def split: sum.splits)
  from r v w1 have "trace w2 = trace w @ (case st of Inr _ \<Rightarrow> map Removed (stale_files ks) | Inl _ \<Rightarrow> [])"
    by (auto dest: for_err_Remove_trace split: sum.splits if_splits)
  with unit_result_Inr [OF c] ks_run_Inr st show ?thesis
    by (fastforce simp: create_args_def getFipsEnabledFlag_def)
qed

definition example_keystore :: KeyStore where
  "example_keystore = \<lparr>Filename = ''/run/key.kdb'', Password = ''pw'', keyStoreType = ''cms'', ks_command = runmqakm, fipsEnabled = True\<rparr>"

theorem ks_Create_refreshes_witness:
  "trace (final (ks_Create example_keystore) base_world)
    = [Exec ''/opt/mqm/bin/runmqakm'' [''-keydb'', ''-create'', ''-fips'', ''-type'', ''cms'', ''-db'', ''/run/key.kdb'', ''-pw'', ''pw'', ''-stash''] 0]"
proof -
  have "result (ks_Create example_keystore) base_world = Inr ()" by code_simp
  then have "run_state (ks_Create example_keystore) base_world = (Inr (), final (ks_Create example_keystore) base_world)"
    by (metis prod.collapse)
  note trace = ks_Create_refreshes [OF this]
  have st: "result (os_Stat (Filename example_keystore)) base_world = Inl (PathError ''stat'' ''/run/key.kdb'' ENOENT)"
    "trace base_world = []" by code_simp+
  have f: "Filename example_keystore = ''/run/key.kdb''" "Password example_keystore = ''pw''" "keyStoreType example_keystore = ''cms''"
    "ks_command example_keystore = ''/opt/mqm/bin/runmqakm''" "fipsEnabled example_keystore"
    by (simp_all add: example_keystore_def runmqakm_def)
  show ?thesis unfolding trace st by (simp add: f)
qed

text \<open>
  \<open>CreateStash\<close> does not report a stash file that it creates: it succeeds exactly where the stash
  file could be examined before; where there was none, it runs the command and returns an error even if the
  command succeeds.
\<close>

theorem CreateStash_reports_missing:
  "result (CreateStash ks) w = Inr () \<longleftrightarrow> (\<exists>i. result (os_Stat (with_extension (Filename ks) ''.sth'')) w = Inr i)"
  by (cases "run_state (os_Stat (with_extension (Filename ks) ''.sth'')) w")
    (auto simp: CreateStash_def split: sum.splits prod.splits)

end
