(* ===== verification/TLS.thy ===== *)
theory TLS
  imports Keystore Volumes
begin

text \<open>
  The key stores of the queue manager, from \<open>internal/tls\<close> (\<open>tls.go\<close> and \<open>tls_web.go\<close>): which
  directories of keys and certificates are there, the private key and the certificates of each set of
  keys, the certificates that are known already, and the commands that build the stores.

  The cryptographic libraries (PEM, X.509, PKCS#12, SHA-512 and the random generator) are the argument \<open>lib\<close>;
  a private key is the text of its encoding.  The structures that Go updates through pointers are passed
  on and returned.  \<open>None\<close> is a panic: a call through a nil key store.
\<close>

section \<open>Data\<close>

record pem_block =
  pem_type :: string
  pem_bytes :: string

record certificate =
  cert_Raw :: string
  cert_Subject :: string

record crypto_lib =
  pem_Decode :: "string \<Rightarrow> pem_block option \<times> string"
  pem_Encode :: "pem_block \<Rightarrow> error + string"
  ParsePKCS1PrivateKey :: "string \<Rightarrow> error + string"
  ParsePKCS8PrivateKey :: "string \<Rightarrow> error + string"
  key_Equal :: "string \<Rightarrow> string \<Rightarrow> bool"
  key_comparable :: "string \<Rightarrow> bool"
  ParseCertificate :: "string \<Rightarrow> error + certificate"
  sha512_hex :: "string \<Rightarrow> string"
  pkcs12_Encode :: "string \<Rightarrow> certificate \<Rightarrow> certificate list \<Rightarrow> string \<Rightarrow> error + string"
  rand_Read :: "nat \<Rightarrow> nat \<Rightarrow> string"

definition cmsKeystoreName :: string where "cmsKeystoreName = ''key.kdb''"
definition p12TruststoreName :: string where "p12TruststoreName = ''trust.p12''"
definition keystoreDirDefault :: string where "keystoreDirDefault = ''/run/runmqserver/tls/''"
definition keystoreDirHA :: string where "keystoreDirHA = ''/run/runmqserver/ha/tls/''"
definition keyDirDefault :: string where "keyDirDefault = ''/etc/mqm/pki/keys''"
definition keyDirHA :: string where "keyDirHA = ''/etc/mqm/ha/pki/keys''"
definition keyDirGroupHA :: string where "keyDirGroupHA = ''/etc/mqm/groupha/pki/keys''"
definition trustDirDefault :: string where "trustDirDefault = ''/etc/mqm/pki/trust''"
definition trustDirGroupHA :: string where "trustDirGroupHA = ''/etc/mqm/groupha/pki/trust''"

record privateKeyInfo =
  keySetName :: string
  directory :: string
  pk_filename :: string

record KeyStoreData =
  kd_Keystore :: "KeyStore option"
  kd_Password :: string
  TrustedCerts :: "pem_block list"
  KnownFingerPrints :: "string list"
  KeyLabels :: "string list"
  keyLabelLookup :: "(string \<times> privateKeyInfo) list"

record TLSStore =
  ts_Keystore :: KeyStoreData
  ts_Truststore :: KeyStoreData

section \<open>Certificates that are known\<close>

definition getCertificateFingerprint :: "crypto_lib \<Rightarrow> pem_block \<Rightarrow> error + string" where
  "getCertificateFingerprint lib block =
    (case ParseCertificate lib (pem_bytes block) of
       Inl e \<Rightarrow> Inl (Errorf (''Failed to parse x509 certificate: '' @ error_text e))
     | Inr c \<Rightarrow> Inr (sha512_hex lib (cert_Raw c)))"

definition addToKnownCertificates :: "crypto_lib \<Rightarrow> pem_block \<Rightarrow> KeyStoreData \<Rightarrow> bool \<Rightarrow> error + bool \<times> KeyStoreData" where
  "addToKnownCertificates lib block kd addToKeystore =
    (case getCertificateFingerprint lib block of
       Inl e \<Rightarrow> Inl e
     | Inr sha \<Rightarrow>
         let known = sha \<in> set (KnownFingerPrints kd) in
         Inr (\<not> known,
              if known then kd
              else (let kd' = (if addToKeystore then kd\<lparr>TrustedCerts := TrustedCerts kd @ [block]\<rparr> else kd)
                    in kd'\<lparr>KnownFingerPrints := KnownFingerPrints kd' @ [sha]\<rparr>)))"

text \<open>
  The blocks of a file: \<open>pem.Decode\<close> until nothing is left or no block is found.  A block takes at
  least one byte, so the length of the file is enough fuel.
\<close>

fun pem_blocks :: "crypto_lib \<Rightarrow> nat \<Rightarrow> string \<Rightarrow> pem_block list" where
  "pem_blocks lib 0 file = []"
| "pem_blocks lib (Suc n) file =
    (if file = [] then []
     else (case pem_Decode lib file of (None, _) \<Rightarrow> [] | (Some b, rest) \<Rightarrow> b # pem_blocks lib n rest))"

definition all_blocks :: "crypto_lib \<Rightarrow> string \<Rightarrow> pem_block list" where
  "all_blocks lib file = pem_blocks lib (length file) file"

definition res_of :: "error + 'a \<Rightarrow> 'a res io" where
  "res_of r = return (Some r)"

definition const_error :: "string \<Rightarrow> error + 'a \<Rightarrow> error + 'a" where
  "const_error msg r = (case r of Inl _ \<Rightarrow> Inl (Errorf msg) | Inr x \<Rightarrow> Inr x)"

definition prefix_error :: "string \<Rightarrow> error + 'a \<Rightarrow> error + 'a" where
  "prefix_error msg r = (case r of Inl e \<Rightarrow> Inl (Errorf (msg @ error_text e)) | Inr x \<Rightarrow> Inr x)"

section \<open>Private keys\<close>

definition read_key_file :: "crypto_lib \<Rightarrow> string \<Rightarrow> (error + string) io" where
  "read_key_file lib privateKeyPath = do {
     file \<leftarrow> os_ReadFile privateKeyPath;
     return (case file of
               Inl e \<Rightarrow> Inl (Errorf (''Failed to read private key '' @ privateKeyPath @ '': '' @ error_text e))
             | Inr c \<Rightarrow>
                 (case fst (pem_Decode lib c) of
                    None \<Rightarrow> Inl (Errorf (''Failed to decode private key '' @ privateKeyPath @ '': pem.Decode returned nil''))
                  | Some block \<Rightarrow>
                      (case ParsePKCS1PrivateKey lib (pem_bytes block) of
                         Inr k \<Rightarrow> Inr k
                       | Inl _ \<Rightarrow> prefix_error (''Failed to parse private key '' @ privateKeyPath @ '': '')
                                    (ParsePKCS8PrivateKey lib (pem_bytes block)))))
   }"

text \<open>The last key file of the set is the one that counts.\<close>

definition key_files :: "crypto_lib \<Rightarrow> string \<Rightarrow> string \<Rightarrow> string list
    \<Rightarrow> (string option \<times> string \<times> privateKeyInfo) res io" where
  "key_files lib keyDir setName keys =
    for_res (\<lambda>s key.
        if HasSuffix key ''.key''
        then try_res (lift_res (read_key_file lib (CleanPath [keyDir, setName, key])))
               (\<lambda>k. ok (Some k, take (length key - length (Ext key)) key,
                        \<lparr>keySetName = setName, directory = path_Join [keyDir, setName], pk_filename = key\<rparr>))
        else ok s)
      (None, [], \<lparr>keySetName = [], directory = [], pk_filename = []\<rparr>) keys"

text \<open>
  \<open>processPrivateKey\<close>: the key, the prefix of its file, the label and directory under which the same
  key was loaded before (blank if it was not), and the updated store.  A nil key is equal to no key and
  is not comparable.
\<close>

definition processPrivateKey :: "crypto_lib \<Rightarrow> string \<Rightarrow> string \<Rightarrow> string list \<Rightarrow> KeyStoreData
    \<Rightarrow> (string option \<times> string \<times> string \<times> string \<times> KeyStoreData) res io" where
  "processPrivateKey lib keyDir setName keys kd =
    try_res (key_files lib keyDir setName keys)
      (\<lambda>(privateKey, keyPrefix, pkInfo).
        case (case privateKey of
                None \<Rightarrow> None
              | Some k \<Rightarrow> find (\<lambda>(k', _). key_Equal lib k' k) (keyLabelLookup kd)) of
          Some (_, previous) \<Rightarrow> ok (privateKey, keyPrefix, keySetName previous, directory previous, kd)
        | None \<Rightarrow>
            (case privateKey of
               Some k \<Rightarrow>
                 if key_comparable lib k
                 then ok (privateKey, keyPrefix, [], [], kd\<lparr>keyLabelLookup := AList.update k pkInfo (keyLabelLookup kd)\<rparr>)
                 else fail (Errorf ''failed to cast private key to comparable type'')
             | None \<Rightarrow> fail (Errorf ''failed to cast private key to comparable type'')))"

section \<open>Certificates of a set of keys\<close>

record cert_state =
  publicCertificate :: "certificate option"
  caCertificate :: "certificate list"
  newPublicCount :: nat
  cs_cms :: KeyStoreData
  cs_p12 :: KeyStoreData

definition add_to_cms :: "crypto_lib \<Rightarrow> pem_block \<Rightarrow> cert_state \<Rightarrow> cert_state res io" where
  "add_to_cms lib block s =
    try_res (res_of (const_error ''Failed to add to known certificates for CMS Keystore''
               (addToKnownCertificates lib block (cs_cms s) False)))
      (\<lambda>(new, kd). ok (s\<lparr>cs_cms := kd, newPublicCount := newPublicCount s + (if new then 1 else 0)\<rparr>))"

text \<open>An intermediate or CA certificate.\<close>

definition ca_block :: "crypto_lib \<Rightarrow> string \<Rightarrow> cert_state \<Rightarrow> pem_block \<Rightarrow> cert_state res io" where
  "ca_block lib keystorePath s block =
    try_res (add_to_cms lib block s) (\<lambda>s1.
    try_res (if kd_Keystore (cs_p12 s1) \<noteq> None
             then try_res (res_of (const_error ''Failed to add to known certificates for PKCS#12 Truststore''
                             (addToKnownCertificates lib block (cs_p12 s1) True)))
                    (\<lambda>(_, kd). ok (s1\<lparr>cs_p12 := kd\<rparr>))
             else ok s1) (\<lambda>s2.
    try_res (res_of (prefix_error (''Failed to parse CA certificate '' @ keystorePath @ '': '')
               (ParseCertificate lib (pem_bytes block)))) (\<lambda>c.
    ok (s2\<lparr>caCertificate := caCertificate s2 @ [c]\<rparr>))))"

definition public_file :: "crypto_lib \<Rightarrow> string \<Rightarrow> cert_state \<Rightarrow> cert_state res io" where
  "public_file lib keystorePath s =
    try_res (lift_res (wrap_error (\<lambda>e. ''Failed to read public certificate '' @ keystorePath @ '': '' @ e) (os_ReadFile keystorePath)))
      (\<lambda>file.
        case pem_Decode lib file of
          (None, _) \<Rightarrow> fail (Errorf (''Failed to decode public certificate '' @ keystorePath @ '': pem.Decode returned nil''))
        | (Some block, rest) \<Rightarrow>
            try_res (res_of (prefix_error (''Failed to parse public certificate '' @ keystorePath @ '': '')
                       (ParseCertificate lib (pem_bytes block)))) (\<lambda>c.
            try_res (add_to_cms lib block (s\<lparr>publicCertificate := Some c\<rparr>)) (\<lambda>s1.
            for_res (ca_block lib keystorePath) s1 (all_blocks lib rest))))"

definition ca_file :: "crypto_lib \<Rightarrow> string \<Rightarrow> cert_state \<Rightarrow> cert_state res io" where
  "ca_file lib keystorePath s =
    try_res (lift_res (wrap_error (\<lambda>e. ''Failed to read CA certificate '' @ keystorePath @ '': '' @ e) (os_ReadFile keystorePath)))
      (\<lambda>file. for_res (ca_block lib keystorePath) s (all_blocks lib file))"

definition processCertificates :: "crypto_lib \<Rightarrow> string \<Rightarrow> string \<Rightarrow> string \<Rightarrow> string list \<Rightarrow> KeyStoreData \<Rightarrow> KeyStoreData
    \<Rightarrow> cert_state res io" where
  "processCertificates lib keyDir setName keyPrefix keys cms p12 =
    for_res (\<lambda>s key.
        let keystorePath = CleanPath [keyDir, setName, key] in
        if HasPrefix key keyPrefix \<and> HasSuffix key ''.crt'' then public_file lib keystorePath s
        else if HasSuffix key ''.crt'' then ca_file lib keystorePath s
        else ok s)
      \<lparr>publicCertificate = None, caCertificate = [], newPublicCount = 0, cs_cms = cms, cs_p12 = p12\<rparr> keys"

text \<open>No certificate of an authority may have the subject of the personal one.\<close>

definition validateCertificates :: "certificate \<Rightarrow> certificate list \<Rightarrow> (error + unit) io" where
  "validateCertificates personalCert caCertificates = do {
     v \<leftarrow> os_LookupEnv ''MQ_ENABLE_CERT_VALIDATION'';
     return (if (case v of None \<Rightarrow> True | Some s \<Rightarrow> \<not> EqualFold (Trim s []) ''false'')
                \<and> list_ex (\<lambda>c. EqualFold (cert_Subject personalCert) (cert_Subject c)) caCertificates
             then Inl (Errorf ''Error: The Subject DN of the Issuer Certificate and the Queue Manager are same'')
             else Inr ())
   }"

section \<open>Labels\<close>

definition relabelCertificate :: "string \<Rightarrow> KeyStoreData \<Rightarrow> KeyStoreData res io" where
  "relabelCertificate newLabel cms =
    (case kd_Keystore cms of
       None \<Rightarrow> panic
     | Some ks \<Rightarrow>
         try_res (lift_res (wrap_error (\<lambda>e. ''Failed to get list of all certificate labels from CMS Keystore: '' @ e)
                    (GetCertificateLabels ks)))
           (\<lambda>allLabels.
             case find (\<lambda>l. Trim l [quote] \<notin> set (KeyLabels cms)) allLabels of
               None \<Rightarrow> fail (Errorf (''Failed to relabel certificate for '' @ newLabel @ '' in CMS keystore''))
             | Some l \<Rightarrow>
                 try_res (lift_res (RenameCertificate ks (Trim l [quote]) newLabel))
                   (\<lambda>_. ok (cms\<lparr>KeyLabels := KeyLabels cms @ [newLabel]\<rparr>))))"

section \<open>Sets of keys\<close>

text \<open>\<open>entries, _ := os.ReadDir(dir)\<close>: nothing where it fails.\<close>

definition entries_of :: "string \<Rightarrow> string list io" where
  "entries_of dir = do { r \<leftarrow> os_ReadDir dir; return (case r of Inl _ \<Rightarrow> [] | Inr xs \<Rightarrow> xs) }"

text \<open>Loading the key into the CMS key store: the PKCS#12 file, the import and the label.\<close>

definition load_key :: "crypto_lib \<Rightarrow> string \<Rightarrow> string \<Rightarrow> string \<Rightarrow> certificate \<Rightarrow> certificate list \<Rightarrow> KeyStoreData \<Rightarrow> KeyStoreData res io" where
  "load_key lib keystoreDir setName k pub cas cms =
    try_res (if cas \<noteq> [] then lift_res (validateCertificates pub cas) else ok ()) (\<lambda>_.
    try_res (res_of (prefix_error (''Failed to encode PKCS#12 Keystore '' @ setName @ ''.p12: '')
               (pkcs12_Encode lib k pub cas (kd_Password cms)))) (\<lambda>file.
    let keystorePath = CleanPath [keystoreDir, setName @ ''.p12''] in
    try_res (lift_res (wrap_error (\<lambda>e. ''Failed to write PKCS#12 Keystore '' @ keystorePath @ '': '' @ e)
               (os_WriteFile keystorePath file))) (\<lambda>_.
    case kd_Keystore cms of
      None \<Rightarrow> panic
    | Some ks \<Rightarrow>
        try_res (lift_res (wrap_error (\<lambda>e. ''Failed to import keys from '' @ keystorePath @ '' into CMS Keystore: '' @ e)
                   (ks_Import ks keystorePath (kd_Password cms)))) (\<lambda>_.
        relabelCertificate setName cms))))"

definition process_key_set :: "crypto_lib \<Rightarrow> string \<Rightarrow> string \<Rightarrow> string \<times> TLSStore \<Rightarrow> string \<Rightarrow> (string \<times> TLSStore) res io" where
  "process_key_set lib keystoreDir keyDir = (\<lambda>(keyLabel, ts) setName. do {
     keys \<leftarrow> entries_of (CleanPath [keyDir, setName]);
     if setName = take (length p12TruststoreName - length (Ext p12TruststoreName)) p12TruststoreName
     then fail (Errorf (''key label cannot be set to the Truststore name: '' @ setName))
     else
       try_res (processPrivateKey lib keyDir setName keys (ts_Keystore ts))
         (\<lambda>(privateKey, keyPrefix, previousLabel, previousDirectory, cms).
           case privateKey of
             None \<Rightarrow> ok (keyLabel, ts\<lparr>ts_Keystore := cms\<rparr>)
           | Some k \<Rightarrow>
               try_res (processCertificates lib keyDir setName keyPrefix keys cms (ts_Truststore ts)) (\<lambda>cs.
               let ts' = ts\<lparr>ts_Keystore := cs_cms cs, ts_Truststore := cs_p12 cs\<rparr> in
               if previousLabel \<noteq> [] \<and> newPublicCount cs = 0 then do {
                 log_Printf (''No new keys found while processing '' @ [CHR 0x27] @ path_Join [keyDir, setName] @ [CHR 0x27]
                   @ '' (duplicate of '' @ [CHR 0x27] @ previousDirectory @ [CHR 0x27] @ ''); skip loading directory'');
                 ok (if keyLabel = [] then previousLabel else keyLabel, ts')
               } else
                 (case publicCertificate cs of
                    None \<Rightarrow> fail (Errorf (''Failed to find public certificate in directory '' @ keyDir))
                  | Some pub \<Rightarrow>
                      try_res (load_key lib keystoreDir setName k pub (caCertificate cs) (cs_cms cs)) (\<lambda>cms'.
                      ok (if keyLabel = [] then setName else keyLabel, ts'\<lparr>ts_Keystore := cms'\<rparr>)))))
   })"

definition processKeys :: "crypto_lib \<Rightarrow> TLSStore \<Rightarrow> string \<Rightarrow> string \<Rightarrow> (string \<times> TLSStore) res io" where
  "processKeys lib ts keystoreDir keyDir = do {
     keyList \<leftarrow> entries_of keyDir;
     for_res (process_key_set lib keystoreDir keyDir) ([], ts) keyList
   }"

section \<open>Trusted certificates\<close>

definition trust_block :: "crypto_lib \<Rightarrow> TLSStore \<Rightarrow> pem_block \<Rightarrow> TLSStore res io" where
  "trust_block lib ts block =
    try_res (res_of (const_error ''Failed to add to know certificates for CMS Keystore''
               (addToKnownCertificates lib block (ts_Keystore ts) True))) (\<lambda>(_, cms).
    if kd_Keystore (ts_Truststore ts) \<noteq> None
    then try_res (res_of (const_error ''Failed to add to know certificates for PKCS#12 Truststore''
                    (addToKnownCertificates lib block (ts_Truststore ts) True)))
           (\<lambda>(_, p12). ok (ts\<lparr>ts_Keystore := cms, ts_Truststore := p12\<rparr>))
    else ok (ts\<lparr>ts_Keystore := cms\<rparr>))"

definition trust_file :: "crypto_lib \<Rightarrow> string \<Rightarrow> string \<Rightarrow> TLSStore \<Rightarrow> string \<Rightarrow> TLSStore res io" where
  "trust_file lib trustDir setName ts key =
    (if HasSuffix key ''.crt''
     then let trustSetPath = CleanPath [trustDir, setName, key] in
       try_res (lift_res (wrap_error (\<lambda>e. ''Failed to read file '' @ trustSetPath @ '': '' @ e) (os_ReadFile trustSetPath)))
         (\<lambda>file. for_res (trust_block lib) ts (all_blocks lib file))
     else ok ts)"

definition trust_set :: "crypto_lib \<Rightarrow> string \<Rightarrow> TLSStore \<Rightarrow> string \<Rightarrow> TLSStore res io" where
  "trust_set lib trustDir ts setName = do {
     keys \<leftarrow> entries_of (CleanPath [trustDir, setName]);
     for_res (trust_file lib trustDir setName) ts keys
   }"

text \<open>\<open>writeCertificatesToFile\<close>: each block is encoded and flushed before the next one.\<close>

fun write_blocks :: "crypto_lib \<Rightarrow> string \<Rightarrow> nat \<Rightarrow> pem_block list \<Rightarrow> (error + unit) io" where
  "write_blocks lib file i [] = return (Inr ())"
| "write_blocks lib file i (c # cs) =
    (case pem_Encode lib c of
       Inl e \<Rightarrow> return (Inl (Errorf (''Failed to encode certificate number '' @ Itoa (int i) @ '': '' @ error_text e)))
     | Inr t \<Rightarrow> do {
         r \<leftarrow> os_AppendFile file t;
         case r of
           Inl e \<Rightarrow> return (Inl (Errorf (''Failed to write certificate to file '' @ file @ '': '' @ error_text e)))
         | Inr _ \<Rightarrow> write_blocks lib file (Suc i) cs
       })"

definition writeCertificatesToFile :: "crypto_lib \<Rightarrow> string \<Rightarrow> pem_block list \<Rightarrow> (error + unit) io" where
  "writeCertificatesToFile lib file certificates = do {
     f \<leftarrow> os_WriteFile file [];
     case f of
       Inl e \<Rightarrow> return (Inl (Errorf (''Failed to create file '' @ file @ '': '' @ error_text e)))
     | Inr _ \<Rightarrow> write_blocks lib file 0 certificates
   }"

text \<open>What both stores have in common: a temporary file with all trusted certificates, added at once.\<close>

definition add_trusted :: "crypto_lib \<Rightarrow> string \<Rightarrow> string \<Rightarrow> KeyStoreData \<Rightarrow> KeyStore res io" where
  "add_trusted lib temporaryPemFile what kd = do {
     st \<leftarrow> os_Stat temporaryPemFile;
     try_res (case st of
                Inl _ \<Rightarrow> ok ()
              | Inr _ \<Rightarrow> lift_res (wrap_error (\<lambda>e. ''Failed to remove file '' @ temporaryPemFile @ '': '' @ e) (os_Remove temporaryPemFile))) (\<lambda>_.
     try_res (lift_res (writeCertificatesToFile lib temporaryPemFile (TrustedCerts kd))) (\<lambda>_.
     case kd_Keystore kd of
       None \<Rightarrow> panic
     | Some ks \<Rightarrow>
         try_res (lift_res (wrap_error (\<lambda>e. ''Failed to add certificates to '' @ what @ '': '' @ e) (AddNoLabel ks temporaryPemFile)))
           (\<lambda>_. ok ks)))
   }"

fun rename_all :: "KeyStore \<Rightarrow> nat \<Rightarrow> string list \<Rightarrow> (error + unit) io" where
  "rename_all ks i [] = return (Inr ())"
| "rename_all ks i (c # cs) = do {
     certificate \<leftarrow> return (TrimSpace (Trim c [quote]));
     newLabel \<leftarrow> return (''Trust'' @ Itoa (int i));
     r \<leftarrow> RenameCertificate ks certificate newLabel;
     case r of
       Inl e \<Rightarrow> return (Inl (Errorf (''Failed to rename certificate '' @ certificate @ '' to '' @ newLabel
                  @ '' in PKCS#12 Truststore: '' @ error_text e)))
     | Inr _ \<Rightarrow> rename_all ks (Suc i) cs
   }"

definition addCertificatesToTruststore :: "crypto_lib \<Rightarrow> KeyStoreData \<Rightarrow> unit res io" where
  "addCertificatesToTruststore lib p12 =
    try_res (add_trusted lib (CleanPath [''/tmp'', ''trust.pem'']) ''PKCS#12 Truststore'' p12) (\<lambda>ks. do {
      r \<leftarrow> ListAllCertificates ks;
      case r of
        Inl e \<Rightarrow> fail (Errorf (''Failed to get any certificates from PKCS#12 Truststore: '' @ error_text e))
      | Inr [] \<Rightarrow> fail (Errorf (''Failed to get any certificates from PKCS#12 Truststore: <nil>''))
      | Inr cs \<Rightarrow> lift_res (rename_all ks 0 cs)
    })"

definition addCertificatesToCMSKeystore :: "crypto_lib \<Rightarrow> KeyStoreData \<Rightarrow> unit res io" where
  "addCertificatesToCMSKeystore lib cms =
    try_res (add_trusted lib (CleanPath [''/tmp'', ''cmsTrust.pem'']) ''CMS keystore'' cms) (\<lambda>_. ok ())"

definition processTrustCertificates :: "crypto_lib \<Rightarrow> TLSStore \<Rightarrow> string \<Rightarrow> TLSStore res io" where
  "processTrustCertificates lib ts0 trustDir = do {
     trustList \<leftarrow> entries_of trustDir;
     try_res (for_res (trust_set lib trustDir) ts0 trustList) (\<lambda>ts.
     try_res (if kd_Keystore (ts_Truststore ts) \<noteq> None \<and> TrustedCerts (ts_Truststore ts) \<noteq> []
              then addCertificatesToTruststore lib (ts_Truststore ts) else ok ()) (\<lambda>_.
     try_res (if TrustedCerts (ts_Keystore ts) \<noteq> []
              then addCertificatesToCMSKeystore lib (ts_Keystore ts) else ok ()) (\<lambda>_.
     ok ts)))
   }"

section \<open>Creating the stores\<close>

definition validChars :: string where
  "validChars = ''ABCDEFGHIJKLMNOPQRSTUVWXYZabcdefghijklmnopqrstuvwxyz0123456789''"

definition generateRandomPassword :: "crypto_lib \<Rightarrow> string io" where
  "generateRandomPassword lib = State (\<lambda>w.
     (map (\<lambda>b. validChars ! ((of_char b :: nat) mod length validChars)) (rand_Read lib (calls w) 12),
      w\<lparr>calls := Suc (calls w)\<rparr>))"

definition empty_data :: "string \<Rightarrow> KeyStoreData" where
  "empty_data pw = \<lparr>kd_Keystore = None, kd_Password = pw, TrustedCerts = [], KnownFingerPrints = [], KeyLabels = [], keyLabelLookup = []\<rparr>"

definition create_store :: "(string \<Rightarrow> string \<Rightarrow> KeyStore io) \<Rightarrow> string \<Rightarrow> string \<Rightarrow> KeyStoreData \<Rightarrow> KeyStoreData res io" where
  "create_store new file what kd = do {
     ks \<leftarrow> new file (kd_Password kd);
     try_res (lift_res (wrap_error (\<lambda>e. ''Failed to create '' @ what @ '': '' @ e) (ks_Create ks)))
       (\<lambda>_. ok (kd\<lparr>kd_Keystore := Some ks\<rparr>))
   }"

definition generateAllKeystores :: "crypto_lib \<Rightarrow> string \<Rightarrow> bool \<Rightarrow> bool \<Rightarrow> TLSStore res io" where
  "generateAllKeystores lib keystoreDir createCMSKeystore p12TruststoreRequired = do {
     pw \<leftarrow> generateRandomPassword lib;
     try_res (lift_res (wrap_error (\<lambda>e. ''Failed to create Keystore directory: '' @ e) (os_MkdirAll keystoreDir))) (\<lambda>_.
     try_res (if createCMSKeystore
              then create_store NewCMSKeyStore (CleanPath [keystoreDir, cmsKeystoreName]) ''CMS Keystore'' (empty_data pw)
              else ok (empty_data pw)) (\<lambda>cms.
     try_res (if p12TruststoreRequired
              then create_store NewPKCS12KeyStore (CleanPath [keystoreDir, p12TruststoreName]) ''PKCS#12 Truststore'' (empty_data pw)
              else ok (empty_data pw)) (\<lambda>p12.
     ok \<lparr>ts_Keystore = cms, ts_Truststore = p12\<rparr>)))
   }"

text \<open>Is there a key or a certificate in a directory below \<open>keyDir\<close>?  The search stops at the first.\<close>

fun have_in :: "string \<Rightarrow> string list \<Rightarrow> bool io" where
  "have_in keyDir [] = return False"
| "have_in keyDir (d # ds) = do {
     keys \<leftarrow> entries_of (CleanPath [keyDir, d]);
     if list_ex (\<lambda>k. HasSuffix k ''.key'' \<or> HasSuffix k ''.crt'') keys then return True else have_in keyDir ds
   }"

definition haveKeysAndCerts :: "string \<Rightarrow> bool io" where
  "haveKeysAndCerts keyDir = do { fileList \<leftarrow> entries_of keyDir; have_in keyDir fileList }"

fun any_keys :: "string list \<Rightarrow> bool io" where
  "any_keys [] = return False"
| "any_keys (d # ds) = do { b \<leftarrow> haveKeysAndCerts d; if b then return True else any_keys ds }"

section \<open>Configuring TLS\<close>

definition configureTLSKeystores :: "crypto_lib \<Rightarrow> string \<Rightarrow> string list \<Rightarrow> string list \<Rightarrow> bool \<Rightarrow> (string list \<times> TLSStore) res io" where
  "configureTLSKeystores lib keystoreDir keyDirs trustDirs p12TruststoreRequired = do {
     cmsKeystoreRequired \<leftarrow> any_keys (keyDirs @ trustDirs);
     try_res (generateAllKeystores lib keystoreDir cmsKeystoreRequired p12TruststoreRequired) (\<lambda>ts0.
     try_res (if kd_Keystore (ts_Keystore ts0) \<noteq> None
              then for_res (\<lambda>(labels, ts) keyDir. try_res (processKeys lib ts keystoreDir keyDir)
                     (\<lambda>(l, ts'). ok (labels @ [l], ts'))) ([], ts0) keyDirs
              else ok (replicate (length keyDirs) [], ts0)) (\<lambda>(keyLabels, ts1).
     try_res (for_res (processTrustCertificates lib) ts1 trustDirs) (\<lambda>ts2.
     ok (keyLabels, ts2))))
   }"

definition ConfigureDefaultTLSKeystores :: "crypto_lib \<Rightarrow> (string \<times> TLSStore) res io" where
  "ConfigureDefaultTLSKeystores lib =
    try_res (configureTLSKeystores lib keystoreDirDefault [keyDirDefault] [trustDirDefault] True)
      (\<lambda>(certLabels, ts). ok (case certLabels of [] \<Rightarrow> [] | l # _ \<Rightarrow> l, ts))"

definition ConfigureHATLSKeystore :: "crypto_lib \<Rightarrow> (string \<times> string \<times> TLSStore) res io" where
  "ConfigureHATLSKeystore lib =
    try_res (configureTLSKeystores lib keystoreDirHA [keyDirHA, keyDirGroupHA] [trustDirGroupHA] False)
      (\<lambda>(labels, ts).
        if length labels \<noteq> 2
        then fail (Errorf (''incorrect number of certificate labels returned (expected 2, got '' @ Itoa (int (length labels)) @ '')''))
        else ok (labels ! 0, labels ! 1, ts))"

definition configureTLSDev :: "template_engine \<Rightarrow> (error + unit) io" where
  "configureTLSDev render = do {
     dev \<leftarrow> os_Getenv ''MQ_DEV'';
     if dev = ''true'' then ProcessTemplateFile render ''/etc/mqm/20-dev-tls.mqsc.tpl'' ''/run/20-dev-tls.mqsc'' []
     else return (Inr ())
   }"

definition tls_template_data :: "string \<Rightarrow> KeyStoreData \<Rightarrow> (string \<times> string) list io" where
  "tls_template_data keyLabel cms =
    (case kd_Keystore cms of
       Some ks \<Rightarrow>
         if length keyLabel > 0 then do {
           certs \<leftarrow> ListAllCertificates ks;
           return [(''SSLKeyR'', case certs of Inr (_ # _) \<Rightarrow> TrimSuffix (Filename ks) ''.kdb'' | _ \<Rightarrow> []),
                   (''CertificateLabel'', keyLabel), (''SSLFips'', if ks_IsFIPSEnabled ks then ''YES'' else ''NO'')]
         } else return [(''SSLKeyR'', []), (''CertificateLabel'', keyLabel), (''SSLFips'', ''NO'')]
     | None \<Rightarrow> return [(''SSLKeyR'', []), (''CertificateLabel'', keyLabel), (''SSLFips'', ''NO'')])"

definition ConfigureTLS :: "template_engine \<Rightarrow> string \<Rightarrow> KeyStoreData \<Rightarrow> bool \<Rightarrow> (error + unit) io" where
  "ConfigureTLS render keyLabel cmsKeystore devMode = do {
     d \<leftarrow> tls_template_data keyLabel cmsKeystore;
     r \<leftarrow> ProcessTemplateFile render ''/etc/mqm/15-tls.mqsc.tpl'' ''/run/15-tls.mqsc'' d;
     case r of
       Inl e \<Rightarrow> return (Inl e)
     | Inr _ \<Rightarrow> if devMode \<and> keyLabel \<noteq> [] then configureTLSDev render else return (Inr ())
   }"

section \<open>The web server\<close>

definition webKeystoreDefault :: string where "webKeystoreDefault = ''default.p12''"

definition ConfigureWebTLS :: "template_engine \<Rightarrow> string \<Rightarrow> string \<Rightarrow> KeyStoreData \<Rightarrow> (error + unit) io" where
  "ConfigureWebTLS render keyLabel webKeystore p12 = do {
     gen \<leftarrow> os_Getenv ''MQ_GENERATE_CERTIFICATE_HOSTNAME'';
     if keyLabel = [] \<and> gen = [] then return (Inr ())
     else do {
       webTruststoreRef \<leftarrow> return (if TrustedCerts p12 = [] then ''MQWebKeyStore'' else ''MQWebTrustStore'');
       enc \<leftarrow> EncodeSecrets (kd_Password p12);
       encryptedPassword \<leftarrow> (case enc of
           Inl e \<Rightarrow> do { log_Printf (''Password encoding for Web Keystore failed with error '' @ error_text e); return [] }
         | Inr p \<Rightarrow> return p);
       ProcessTemplateFile render ''/etc/mqm/web/installations/Installation1/servers/mqweb/tls.xml.tpl'' ''/run/tls.xml''
         [(''password'', encryptedPassword), (''webKeystore'', webKeystore), (''webTruststoreRef'', webTruststoreRef)]
     }
   }"

definition web_keystore_file :: "string \<Rightarrow> string \<Rightarrow> string \<Rightarrow> (error + unit) io" where
  "web_keystore_file webKeystoreFile keyLabel pw =
    (if keyLabel = [] then do {
       genHostName \<leftarrow> os_Getenv ''MQ_GENERATE_CERTIFICATE_HOSTNAME'';
       ks \<leftarrow> NewPKCS12KeyStore webKeystoreFile pw;
       r \<leftarrow> ks_Create ks;
       case r of
         Inl e \<Rightarrow> return (Inl (Errorf (''failed to create Web Keystore '' @ webKeystoreFile @ '': '' @ error_text e)))
       | Inr _ \<Rightarrow>
           wrap_error (\<lambda>e. ''failed to generate certificate in Web Keystore '' @ webKeystoreFile @ '' with DN of '' @ [CHR 0x27]
               @ ''CN='' @ genHostName @ [CHR 0x27] @ '': '' @ e)
             (CreateSelfSignedCertificate ks ''default'' (''CN='' @ genHostName) genHostName)
     } else
       unit_result (wrap_error (\<lambda>e. ''failed to find existing Web Keystore '' @ webKeystoreFile @ '': '' @ e) (os_Stat webKeystoreFile)))"

definition ConfigureWebKeystore :: "KeyStoreData \<Rightarrow> string \<Rightarrow> string res io" where
  "ConfigureWebKeystore p12 keyLabel = do {
     webKeystore \<leftarrow> return (if keyLabel \<noteq> [] then keyLabel @ ''.p12'' else webKeystoreDefault);
     try_res (lift_res (web_keystore_file (CleanPath [keystoreDirDefault, webKeystore]) keyLabel (kd_Password p12))) (\<lambda>_.
     case kd_Keystore p12 of
       None \<Rightarrow> panic
     | Some ks \<Rightarrow>
         try_res (lift_res (wrap_error (\<lambda>e. ''failed to find existing Web Truststore '' @ Filename ks @ '': '' @ e) (os_Stat (Filename ks))))
           (\<lambda>_. ok webKeystore))
   }"

section \<open>Nothing is trusted twice\<close>

lemma pem_blocks_Nil [simp]: "pem_blocks lib n [] = []"
  by (cases n) simp_all

lemma pem_blocks_fuel:
  assumes "\<And>s b r. pem_Decode lib s = (Some b, r) \<Longrightarrow> length r < length s"
  shows "length file \<le> n \<Longrightarrow> pem_blocks lib n file = all_blocks lib file"
proof -
  have more: "pem_blocks lib n f = pem_blocks lib m f" if "length f \<le> n" "length f \<le> m" for n m f
    using that
  proof (induction n arbitrary: m f)
    case (Suc n)
    show ?case
    proof (cases m)
      case (Suc m')
      have "pem_blocks lib n r = pem_blocks lib m' r" if "pem_Decode lib f = (Some b, r)" for b r
        using assms [OF that] Suc.IH [of r m'] Suc.prems Suc by simp
      then show ?thesis using Suc by (auto split: prod.split option.split)
    qed (use Suc.prems in auto)
  qed auto
  show "length file \<le> n \<Longrightarrow> pem_blocks lib n file = all_blocks lib file"
    unfolding all_blocks_def by (rule more) simp_all
qed

definition kd_ok :: "crypto_lib \<Rightarrow> KeyStoreData \<Rightarrow> bool" where
  "kd_ok lib kd \<longleftrightarrow> distinct (KnownFingerPrints kd)
    \<and> (\<exists>fs. map (getCertificateFingerprint lib) (TrustedCerts kd) = map Inr fs \<and> distinct fs \<and> set fs \<subseteq> set (KnownFingerPrints kd))"

definition ts_ok :: "crypto_lib \<Rightarrow> TLSStore \<Rightarrow> bool" where
  "ts_ok lib ts \<longleftrightarrow> kd_ok lib (ts_Keystore ts) \<and> kd_ok lib (ts_Truststore ts)"

lemma kd_ok_empty [simp]: "kd_ok lib (empty_data pw)"
  by (simp add: kd_ok_def empty_data_def)

lemma kd_ok_fields [simp]:
  "kd_ok lib (kd\<lparr>kd_Keystore := k\<rparr>) = kd_ok lib kd" "kd_ok lib (kd\<lparr>KeyLabels := l\<rparr>) = kd_ok lib kd"
  "kd_ok lib (kd\<lparr>keyLabelLookup := t\<rparr>) = kd_ok lib kd"
  by (simp_all add: kd_ok_def)

lemma addToKnownCertificates_ok:
  assumes "addToKnownCertificates lib block kd add = Inr (new, kd')" "kd_ok lib kd"
  shows "kd_ok lib kd'"
proof -
  from assms(1) obtain sha where sha: "getCertificateFingerprint lib block = Inr sha"
    by (auto simp: addToKnownCertificates_def split: sum.splits)
  from assms(2) obtain fs where fs: "map (getCertificateFingerprint lib) (TrustedCerts kd) = map Inr fs" "distinct fs"
    "set fs \<subseteq> set (KnownFingerPrints kd)" and d: "distinct (KnownFingerPrints kd)"
    by (auto simp: kd_ok_def)
  show ?thesis
  proof (cases "sha \<in> set (KnownFingerPrints kd)")
    case True
    with assms sha show ?thesis by (simp add: addToKnownCertificates_def)
  next
    case False
    show ?thesis
    proof (cases add)
      case True
      with False sha assms(1) have kd': "kd' = kd\<lparr>TrustedCerts := TrustedCerts kd @ [block], KnownFingerPrints := KnownFingerPrints kd @ [sha]\<rparr>"
        by (simp add: addToKnownCertificates_def Let_def)
      have "map (getCertificateFingerprint lib) (TrustedCerts kd @ [block]) = map Inr (fs @ [sha])"
        using fs(1) sha by simp
      moreover from False fs have "distinct (fs @ [sha])" by auto
      ultimately show ?thesis using False fs d unfolding kd_ok_def kd' by (auto intro!: exI [of _ "fs @ [sha]"])
    next
      case False': False
      with False sha assms(1) have kd': "kd' = kd\<lparr>KnownFingerPrints := KnownFingerPrints kd @ [sha]\<rparr>"
        by (simp add: addToKnownCertificates_def Let_def)
      show ?thesis using False fs d unfolding kd_ok_def kd' by (auto intro!: exI [of _ fs])
    qed
  qed
qed

text \<open>Every step of the construction keeps both stores in order.\<close>

definition cs_ok :: "crypto_lib \<Rightarrow> cert_state \<Rightarrow> bool" where
  "cs_ok lib s \<longleftrightarrow> kd_ok lib (cs_cms s) \<and> kd_ok lib (cs_p12 s)"

lemma yields_res_of: "(\<And>x. r = Inr x \<Longrightarrow> P x) \<Longrightarrow> yields P (res_of r)"
  by (auto simp: yields_def res_of_def)

lemma known_ok:
  "kd_ok lib kd \<Longrightarrow> yields (\<lambda>(_, kd'). kd_ok lib kd') (res_of (const_error msg (addToKnownCertificates lib b kd add)))"
  by (rule yields_res_of) (auto simp: const_error_def dest: addToKnownCertificates_ok split: sum.splits)

lemma add_to_cms_ok: "cs_ok lib s \<Longrightarrow> yields (cs_ok lib) (add_to_cms lib b s)"
  unfolding add_to_cms_def
  by (rule yields_try [OF known_ok], simp add: cs_ok_def) (auto intro!: yields_ok simp: cs_ok_def)

lemma ca_block_ok: "cs_ok lib s \<Longrightarrow> yields (cs_ok lib) (ca_block lib p s b)"
  unfolding ca_block_def
proof (rule yields_try [OF add_to_cms_ok], assumption, rule yields_try [where Q = "cs_ok lib"])
  fix s1 assume s1: "cs_ok lib s1"
  then have "yields (\<lambda>(_, kd'). kd_ok lib kd')
      (res_of (const_error ''Failed to add to known certificates for PKCS#12 Truststore'' (addToKnownCertificates lib b (cs_p12 s1) True)))"
    by (intro known_ok) (simp add: cs_ok_def)
  then have "yields (cs_ok lib) (try_res (res_of (const_error ''Failed to add to known certificates for PKCS#12 Truststore''
      (addToKnownCertificates lib b (cs_p12 s1) True))) (\<lambda>(_, kd). ok (s1\<lparr>cs_p12 := kd\<rparr>)))"
    by (rule yields_try) (use s1 in \<open>auto intro!: yields_ok simp: cs_ok_def\<close>)
  with s1 show "yields (cs_ok lib) (if kd_Keystore (cs_p12 s1) \<noteq> None
      then try_res (res_of (const_error ''Failed to add to known certificates for PKCS#12 Truststore'' (addToKnownCertificates lib b (cs_p12 s1) True)))
        (\<lambda>(_, kd). ok (s1\<lparr>cs_p12 := kd\<rparr>)) else ok s1)"
    by (intro yields_if) (auto intro!: yields_ok)
next
  fix s1 s2 assume "cs_ok lib s2"
  then show "yields (cs_ok lib) (try_res (res_of (prefix_error (''Failed to parse CA certificate '' @ p @ '': '') (ParseCertificate lib (pem_bytes b))))
      (\<lambda>c. ok (s2\<lparr>caCertificate := caCertificate s2 @ [c]\<rparr>)))"
    by (intro yields_try [OF yields_any]) (auto intro!: yields_ok simp: cs_ok_def)
qed

lemma cert_files_ok:
  assumes "cs_ok lib s"
  shows "yields (cs_ok lib) (public_file lib p s)" "yields (cs_ok lib) (ca_file lib p s)"
proof -
  have ca: "cs_ok lib t \<Longrightarrow> yields (cs_ok lib) (for_res (ca_block lib p) t bs)" for t bs
    by (rule yields_for) (auto intro: ca_block_ok)
  have pub: "yields (cs_ok lib) (try_res (add_to_cms lib b (s\<lparr>publicCertificate := c\<rparr>)) (\<lambda>s1. for_res (ca_block lib p) s1 bs))" for b c bs
    by (rule yields_try [OF add_to_cms_ok ca]) (use assms in \<open>auto simp: cs_ok_def\<close>)
  show "yields (cs_ok lib) (ca_file lib p s)"
    unfolding ca_file_def by (rule yields_try [OF yields_any ca]) (rule assms)
  show "yields (cs_ok lib) (public_file lib p s)"
    unfolding public_file_def
    by (rule yields_try [OF yields_any]) (auto intro!: yields_fail yields_try [OF yields_any] pub split: prod.split option.split)
qed

lemma processCertificates_ok:
  "kd_ok lib cms \<Longrightarrow> kd_ok lib p12 \<Longrightarrow> yields (cs_ok lib) (processCertificates lib d n pre keys cms p12)"
  unfolding processCertificates_def Let_def
  by (rule yields_for) (auto intro!: yields_if yields_ok cert_files_ok simp: cs_ok_def)

lemma processPrivateKey_ok:
  "kd_ok lib kd \<Longrightarrow> yields (\<lambda>(_, _, _, _, kd'). kd_ok lib kd') (processPrivateKey lib d n keys kd)"
  unfolding processPrivateKey_def
  by (rule yields_try [OF yields_any]) (auto intro!: yields_ok yields_fail yields_if split: prod.split option.split)

lemma relabel_ok: "kd_ok lib kd \<Longrightarrow> yields (kd_ok lib) (relabelCertificate l kd)"
  unfolding relabelCertificate_def
  by (intro yields_option yields_fail) (auto intro!: yields_try [OF yields_any] yields_ok yields_fail yields_option)

lemma load_key_ok: "kd_ok lib kd \<Longrightarrow> yields (kd_ok lib) (load_key lib d n k pub cas kd)"
  unfolding load_key_def Let_def
  by (intro yields_try [OF yields_any] yields_option yields_fail relabel_ok)

lemma yields_bind_prod: "(\<And>a b. yields P (k a b)) \<Longrightarrow> yields P (State_Monad.bind m (\<lambda>(a, b). k a b))"
  by (rule yields_bind) (auto split: prod.split)

lemma key_set_ok:
  assumes "ts_ok lib ts"
  shows "yields (\<lambda>(_, ts'). ts_ok lib ts') (process_key_set lib d kdir (l, ts) n)"
proof -
  have load: "yields (\<lambda>(_, ts'). ts_ok lib ts') (try_res (load_key lib d n k pub cas cms) (\<lambda>cms'. ok (l', ts'\<lparr>ts_Keystore := cms'\<rparr>)))"
    if "kd_ok lib cms" "kd_ok lib (ts_Truststore ts')" for k pub cas cms l' ts'
    using that by (intro yields_try [OF load_key_ok]) (auto intro!: yields_ok simp: ts_ok_def)
  show ?thesis
    unfolding process_key_set_def prod.case
  proof (intro yields_bind yields_if yields_fail yields_try [OF processPrivateKey_ok] yields_prod)
    show "kd_ok lib (ts_Keystore ts)" using assms by (simp add: ts_ok_def)
    fix r :: "string option \<times> string \<times> string \<times> string \<times> KeyStoreData" and k r1 pre r2 pl r3 pd cms
    assume "case r of (_, _, _, _, kd') \<Rightarrow> kd_ok lib kd'" "r = (k, r1)" "r1 = (pre, r2)" "r2 = (pl, r3)" "r3 = (pd, cms)"
    then have cms: "kd_ok lib cms" by simp
    fix keys
    show "yields (\<lambda>(_, ts'). ts_ok lib ts')
      (case k of None \<Rightarrow> ok (l, ts\<lparr>ts_Keystore := cms\<rparr>)
       | Some k \<Rightarrow> try_res (processCertificates lib kdir n pre keys cms (ts_Truststore ts)) (\<lambda>cs.
               let ts' = ts\<lparr>ts_Keystore := cs_cms cs, ts_Truststore := cs_p12 cs\<rparr> in
               if pl \<noteq> [] \<and> newPublicCount cs = 0 then do {
                 log_Printf (''No new keys found while processing '' @ [CHR 0x27] @ path_Join [kdir, n] @ [CHR 0x27]
                   @ '' (duplicate of '' @ [CHR 0x27] @ pd @ [CHR 0x27] @ ''); skip loading directory'');
                 ok (if l = [] then pl else l, ts')
               } else
                 (case publicCertificate cs of
                    None \<Rightarrow> fail (Errorf (''Failed to find public certificate in directory '' @ kdir))
                  | Some pub \<Rightarrow>
                      try_res (load_key lib d n k pub (caCertificate cs) (cs_cms cs)) (\<lambda>cms'.
                      ok (if l = [] then n else l, ts'\<lparr>ts_Keystore := cms'\<rparr>)))))"
      unfolding Let_def
      by (intro yields_option yields_try [OF processCertificates_ok] yields_if yields_bind yields_ok yields_fail load)
        (use cms assms in \<open>auto simp: ts_ok_def cs_ok_def\<close>)
  qed
qed

lemma processKeys_ok: "ts_ok lib ts \<Longrightarrow> yields (\<lambda>(_, ts'). ts_ok lib ts') (processKeys lib ts d kdir)"
  unfolding processKeys_def by (intro yields_bind yields_for) (auto intro: key_set_ok)

lemma trust_block_ok: "ts_ok lib ts \<Longrightarrow> yields (ts_ok lib) (trust_block lib ts b)"
  unfolding trust_block_def
  by (intro yields_try [OF known_ok] yields_prod yields_if yields_ok) (auto simp: ts_ok_def)

lemma trust_set_ok: "ts_ok lib ts \<Longrightarrow> yields (ts_ok lib) (trust_set lib d ts n)"
  unfolding trust_set_def trust_file_def Let_def
  by (intro yields_bind yields_for yields_if yields_try [OF yields_any] yields_ok) (auto intro: trust_block_ok)

lemma processTrust_ok: "ts_ok lib ts \<Longrightarrow> yields (ts_ok lib) (processTrustCertificates lib ts d)"
  unfolding processTrustCertificates_def
proof (intro yields_bind yields_try [where Q = "ts_ok lib"])
  show "ts_ok lib ts \<Longrightarrow> yields (ts_ok lib) (for_res (trust_set lib d) ts xs)" for xs
    by (rule yields_for) (auto intro: trust_set_ok)
qed (auto intro!: yields_try [OF yields_any] yields_ok)

lemma generateAllKeystores_ok: "yields (ts_ok lib) (generateAllKeystores lib d c p)"
proof -
  have "kd_ok lib kd \<Longrightarrow> yields (kd_ok lib) (if b then create_store new f what kd else ok kd)" for b new f what kd
    unfolding create_store_def by (intro yields_if yields_bind yields_try [OF yields_any] yields_ok) simp_all
  then show ?thesis
    unfolding generateAllKeystores_def
    by (intro yields_bind yields_try [OF yields_any] yields_try [where Q = "kd_ok lib"] yields_ok) (simp_all add: ts_ok_def)
qed

lemma configureTLSKeystores_ok: "yields (\<lambda>(_, ts). ts_ok lib ts) (configureTLSKeystores lib d kdirs tdirs p)"
  unfolding configureTLSKeystores_def
proof (intro yields_bind yields_try [OF generateAllKeystores_ok] yields_try [where Q = "\<lambda>(_, ts). ts_ok lib ts"] yields_prod)
  fix ts0 assume ts0: "ts_ok lib ts0"
  have "yields (\<lambda>(_, ts). ts_ok lib ts)
      (for_res (\<lambda>(labels, ts) keyDir. try_res (processKeys lib ts d keyDir) (\<lambda>(l, ts'). ok (labels @ [l], ts'))) ([], ts0) kdirs)"
    by (rule yields_for) (use ts0 in \<open>auto intro!: yields_try [OF processKeys_ok] yields_ok split: prod.split\<close>)
  with ts0 show "yields (\<lambda>(_, ts). ts_ok lib ts) (if kd_Keystore (ts_Keystore ts0) \<noteq> None
      then for_res (\<lambda>(labels, ts) keyDir. try_res (processKeys lib ts d keyDir) (\<lambda>(l, ts'). ok (labels @ [l], ts'))) ([], ts0) kdirs
      else ok (replicate (length kdirs) [], ts0))"
    by (intro yields_if) (auto intro!: yields_ok)
next
  fix x labels ts1 assume "case x of (_, ts) \<Rightarrow> ts_ok lib ts" "x = (labels, ts1)"
  then have "yields (ts_ok lib) (for_res (processTrustCertificates lib) ts1 tdirs)"
    by (intro yields_for) (auto intro: processTrust_ok)
  then show "yields (\<lambda>(_, ts). ts_ok lib ts) (try_res (for_res (processTrustCertificates lib) ts1 tdirs) (\<lambda>ts2. ok (labels, ts2)))"
    by (rule yields_try) (auto intro!: yields_ok)
qed

section \<open>Properties\<close>

lemma kd_ok_distinct:
  assumes "kd_ok lib kd"
  shows "distinct (map (getCertificateFingerprint lib) (TrustedCerts kd))"
proof -
  from assms obtain fs where "map (getCertificateFingerprint lib) (TrustedCerts kd) = map Inr fs" "distinct fs"
    by (auto simp: kd_ok_def)
  moreover from \<open>distinct fs\<close> have "distinct (map Inr fs :: (error + string) list)" by (simp add: distinct_map)
  ultimately show ?thesis by metis
qed

text \<open>
  C8: No certificate is trusted twice, whatever the directories of keys and trusted certificates hold: after
  the key stores have been configured, for the queue manager or for Native HA, no two of the certificates that
  were added to the CMS key store, and no two of those added to the trust store, have the same fingerprint.
\<close>

theorem certificates_trusted_once:
  assumes "run_state (configureTLSKeystores lib keystoreDir keyDirs trustDirs p12) w = (Some (Inr (labels, ts)), w')"
  shows "distinct (map (getCertificateFingerprint lib) (TrustedCerts (ts_Keystore ts)))
    \<and> distinct (map (getCertificateFingerprint lib) (TrustedCerts (ts_Truststore ts)))"
proof -
  from yieldsD [OF configureTLSKeystores_ok assms] have "ts_ok lib ts" by simp
  then show ?thesis by (simp add: ts_ok_def kd_ok_distinct)
qed

definition example_crypto :: crypto_lib where
  "example_crypto = \<lparr>
     pem_Decode = (\<lambda>s. case s of [] \<Rightarrow> (None, []) | c # r \<Rightarrow> (Some \<lparr>pem_type = ''CERTIFICATE'', pem_bytes = [c]\<rparr>, r)),
     pem_Encode = (\<lambda>b. Inr (pem_bytes b)),
     ParsePKCS1PrivateKey = (\<lambda>s. Inr s), ParsePKCS8PrivateKey = (\<lambda>s. Inr s),
     key_Equal = (=), key_comparable = (\<lambda>_. True),
     ParseCertificate = (\<lambda>s. Inr \<lparr>cert_Raw = s, cert_Subject = s\<rparr>), sha512_hex = (\<lambda>s. s),
     pkcs12_Encode = (\<lambda>k _ _ _. Inr k), rand_Read = (\<lambda>_ n. replicate n (CHR ''A''))\<rparr>"

definition tls_world :: world where
  "tls_world = base_world\<lparr>
     files := [(''/k'', DirNode), (''/tmp'', DirNode), (''/t'', DirNode),
       (''/t/a'', DirNode), (''/t/a/c.crt'', FileNode ''xyx'')],
     programs := (\<lambda>_ _ _ _ f. (Exited ''!l'' 0, f))\<rparr>"

text \<open>The same certificate twice in a file, and only once in the store.\<close>

theorem certificates_trusted_once_witness:
  "\<exists>ts. map_option (map_sum id snd) (result (configureTLSKeystores example_crypto ''/k'' [] [''/t''] False) tls_world) = Some (Inr ts)
    \<and> length (TrustedCerts (ts_Keystore ts)) = 2
    \<and> distinct (map (getCertificateFingerprint example_crypto) (TrustedCerts (ts_Keystore ts)))"
proof -
  let ?m = "configureTLSKeystores example_crypto ''/k'' [] [''/t''] False"
  have "(case result ?m tls_world of Some (Inr (l, ts)) \<Rightarrow> length (TrustedCerts (ts_Keystore ts)) = 2 | _ \<Rightarrow> False)" by code_simp
  then obtain l ts where r: "result ?m tls_world = Some (Inr (l, ts))" and n: "length (TrustedCerts (ts_Keystore ts)) = 2"
    by (auto split: option.splits sum.splits prod.splits)
  then have "run_state ?m tls_world = (Some (Inr (l, ts)), final ?m tls_world)" by (metis prod.collapse)
  from certificates_trusted_once [OF this] r n show ?thesis by simp
qed

lemma for_res_skip: "list_all (\<lambda>x. \<not> P x) xs \<Longrightarrow> for_res (\<lambda>s x. if P x then f s x else ok s) s xs = ok s"
  by (induction xs) (auto simp: try_res_def)

text \<open>
  A directory of keys without a private key is an error.  Where no file of a set ends in
  \<open>.key\<close>, \<open>processPrivateKey\<close> fails, whatever the rest, and with it the whole configuration: the statement of
  \<open>processKeys\<close> that skips such a set is never reached.
\<close>

theorem key_set_without_key_fails:
  assumes "list_all (\<lambda>k. \<not> HasSuffix k ''.key'') keys"
  shows "processPrivateKey lib keyDir setName keys kd = fail (Errorf ''failed to cast private key to comparable type'')"
  unfolding processPrivateKey_def key_files_def for_res_skip [OF assms] by (simp add: try_res_def)

theorem key_set_without_key_fails_witness:
  "processPrivateKey example_crypto ''/etc/mqm/pki/keys'' ''ca'' [''ca.crt''] (empty_data ''pw'')
    = fail (Errorf ''failed to cast private key to comparable type'')"
proof -
  have "list_all (\<lambda>k. \<not> HasSuffix k ''.key'') [''ca.crt'']" by code_simp
  then show ?thesis by (rule key_set_without_key_fails)
qed

text \<open>
  A generated password has twelve characters, each of them a letter or a digit, for whatever twelve
  bytes the random generator gives.
\<close>

theorem generateRandomPassword_chars:
  assumes "length (rand_Read lib (calls w) 12) = 12"
  shows "length (result (generateRandomPassword lib) w) = 12
    \<and> set (result (generateRandomPassword lib) w) \<subseteq> set validChars"
proof -
  have "length validChars > 0" by (simp add: validChars_def)
  then have "n mod length validChars < length validChars" for n :: nat by (rule mod_less_divisor)
  then show ?thesis using assms by (auto simp: generateRandomPassword_def)
qed

theorem generateRandomPassword_chars_witness:
  "length (result (generateRandomPassword example_crypto) base_world) = 12"
proof -
  have "length (rand_Read example_crypto (calls base_world) 12) = 12" by code_simp
  from generateRandomPassword_chars [OF this] show ?thesis by simp
qed

end
