(* ===== verification/Go_Traces.thy ===== *)
theory Go_Traces
  imports Go_Result
begin

text \<open>
  What a program does, in relation to what it returns: \<open>traces P m\<close> says that a run of \<open>m\<close> with result
  \<open>x\<close> adds events \<open>es\<close> to the trace such that \<open>P x es\<close>.  The rules follow the structure of the program,
  as those of \<open>emits\<close> and \<open>yields\<close> do, but keep both the result and the order of the events.
\<close>

definition traces :: "('a \<Rightarrow> event list \<Rightarrow> bool) \<Rightarrow> 'a io \<Rightarrow> bool" where
  "traces P m \<longleftrightarrow> (\<forall>w x w'. run_state m w = (x, w') \<longrightarrow> (\<exists>es. trace w' = trace w @ es \<and> P x es))"

lemma tracesD:
  assumes "traces P m" "run_state m w = (x, w')"
  obtains es where "trace w' = trace w @ es" "P x es"
  using assms unfolding traces_def by blast

lemma tracesI:
  assumes "\<And>w x w'. run_state m w = (x, w') \<Longrightarrow> \<exists>es. trace w' = trace w @ es \<and> P x es"
  shows "traces P m"
  using assms by (auto simp: traces_def)

lemma traces_mono: "traces Q m \<Longrightarrow> (\<And>x es. Q x es \<Longrightarrow> P x es) \<Longrightarrow> traces P m"
  unfolding traces_def by blast

lemma traces_conj: "traces P m \<Longrightarrow> traces Q m \<Longrightarrow> traces (\<lambda>x es. P x es \<and> Q x es) m"
  unfolding traces_def by (metis same_append_eq)

lemma traces_emits: "state_io_rel (emits E) m \<Longrightarrow> traces (\<lambda>_ es. list_all E es) m"
  by (rule tracesI) (auto elim: emitsD)

lemma traces_any: "state_io_rel (emits (\<lambda>_. True)) m \<Longrightarrow> traces (\<lambda>_ _. True) m"
  by (rule traces_mono [OF traces_emits]) simp_all

lemma traces_return: "P x [] \<Longrightarrow> traces P (return x)"
  by (rule tracesI) simp

lemma traces_emit: "P () [e] \<Longrightarrow> traces P (emit e)"
  by (rule tracesI) auto

lemma traces_bind:
  assumes "traces Q m" "\<And>x es. Q x es \<Longrightarrow> traces (\<lambda>y es'. P y (es @ es')) (k x)"
  shows "traces P (State_Monad.bind m k)"
proof (rule tracesI)
  fix w y w' assume run: "run_state (State_Monad.bind m k) w = (y, w')"
  obtain x w1 where x: "run_state m w = (x, w1)" by (cases "run_state m w")
  with assms(1) obtain es where es: "trace w1 = trace w @ es" "Q x es" by (rule tracesD)
  from run x have "run_state (k x) w1 = (y, w')" by simp
  with assms(2) [OF es(2)] obtain es' where "trace w' = trace w1 @ es'" "P y (es @ es')" by (rule tracesD)
  with es(1) show "\<exists>es. trace w' = trace w @ es \<and> P y es" by auto
qed

lemma traces_seq:
  assumes "state_io_rel (emits (\<lambda>_. True)) m" "\<And>x es. traces (\<lambda>y es'. P y (es @ es')) (k x)"
  shows "traces P (State_Monad.bind m k)"
  using traces_any [OF assms(1)] assms(2) by (rule traces_bind)

lemma traces_if: "(b \<Longrightarrow> traces P m) \<Longrightarrow> (\<not> b \<Longrightarrow> traces P n) \<Longrightarrow> traces P (if b then m else n)"
  by simp

lemma traces_option:
  "(x = None \<Longrightarrow> traces P m) \<Longrightarrow> (\<And>y. x = Some y \<Longrightarrow> traces P (k y)) \<Longrightarrow> traces P (case_option m k x)"
  by (cases x) auto

lemma traces_sum:
  "(\<And>e. x = Inl e \<Longrightarrow> traces P (f e)) \<Longrightarrow> (\<And>y. x = Inr y \<Longrightarrow> traces P (k y)) \<Longrightarrow> traces P (case_sum f k x)"
  by (cases x) auto

lemma traces_prod: "(\<And>a b. x = (a, b) \<Longrightarrow> traces P (k a b)) \<Longrightarrow> traces P (case_prod k x)"
  by (cases x) auto

lemmas traces_cases = traces_if traces_option traces_sum traces_prod

lemma traces_try:
  assumes "traces Q m" "\<And>x es. Q (Some (Inr x)) es \<Longrightarrow> traces (\<lambda>y es'. P y (es @ es')) (k x)"
    and "\<And>es. Q None es \<Longrightarrow> P None es" "\<And>e es. Q (Some (Inl e)) es \<Longrightarrow> P (Some (Inl e)) es"
  shows "traces P (try_res m k)"
  unfolding try_res_def
proof (rule traces_bind [OF assms(1)])
  show "traces (\<lambda>y es'. P y (es @ es')) (case x of None \<Rightarrow> panic | Some (Inl e) \<Rightarrow> fail e | Some (Inr x) \<Rightarrow> k x)"
    if "Q x es" for x es
    using that assms(2-4) by (intro traces_cases) (auto intro!: traces_return)
qed

lemma traces_on_error:
  assumes "traces Q m" "\<And>s. state_io_rel (emits E) (report s)"
    and "\<And>x es. Q (Some (Inr x)) es \<Longrightarrow> P (Some (Inr x)) es" "\<And>es. Q None es \<Longrightarrow> P None es"
    and "\<And>e es fs. Q (Some (Inl e)) es \<Longrightarrow> list_all E fs \<Longrightarrow> P (Some (Inl e)) (es @ fs)"
  shows "traces P (on_error report m)"
  unfolding on_error_def
proof (rule traces_bind [OF assms(1)], intro traces_cases)
  show "traces (\<lambda>y es'. P y (es @ es')) (do { report (error_text e); fail e })"
    if "Q x es" "x = Some r" "r = Inl e" for x es r e
    by (rule traces_bind [OF traces_emits [OF assms(2)]]) (use that assms(5) in \<open>auto intro!: traces_return\<close>)
qed (auto intro!: traces_return assms(3,4))

lemma traces_lift: "traces (\<lambda>x. P (Some x)) m \<Longrightarrow> traces P (lift_res m)"
  unfolding lift_res_def by (erule traces_bind) (auto intro!: traces_return)

text \<open>A loop that stops at the first error: on success every round has happened.\<close>

lemma traces_for_err:
  assumes "\<And>x. x \<in> set xs \<Longrightarrow> traces (\<lambda>r es. (r = Inr () \<longrightarrow> P x es) \<and> list_all E es) (body x)"
    and "\<And>x es fs. P x es \<Longrightarrow> P x (es @ fs)" "\<And>x es fs. P x fs \<Longrightarrow> P x (es @ fs)"
  shows "traces (\<lambda>r es. (r = Inr () \<longrightarrow> (\<forall>x \<in> set xs. P x es)) \<and> list_all E es) (for_err body xs)"
  using assms(1)
proof (induction xs)
  case (Cons x xs)
  have body: "traces (\<lambda>r es. (r = Inr () \<longrightarrow> P x es) \<and> list_all E es) (body x)"
    and rest: "traces (\<lambda>r es. (r = Inr () \<longrightarrow> (\<forall>x \<in> set xs. P x es)) \<and> list_all E es) (for_err body xs)"
    using Cons by simp_all
  have step: "traces (\<lambda>r es'. (r = Inr () \<longrightarrow> (\<forall>y \<in> set (x # xs). P y (es @ es'))) \<and> list_all E (es @ es'))
      (case r of Inl e \<Rightarrow> return (Inl e) | Inr _ \<Rightarrow> for_err body xs)"
    if "(r = Inr () \<longrightarrow> P x es) \<and> list_all E es" for r es
  proof (rule traces_sum)
    fix u assume "r = Inr u"
    with that have "P x es" "list_all E es" by auto
    then show "traces (\<lambda>r es'. (r = Inr () \<longrightarrow> (\<forall>y \<in> set (x # xs). P y (es @ es'))) \<and> list_all E (es @ es')) (for_err body xs)"
      by (intro traces_mono [OF rest]) (auto intro: assms(2,3))
  qed (use that in \<open>auto intro!: traces_return\<close>)
  show ?case unfolding for_err.simps by (rule traces_bind [OF body step])
qed (auto intro!: traces_return)

end
