(* ===== verification/Native_HA.thy ===== *)
theory Native_HA
  imports TLS Startup_Checks Go_Traces "HOL-Library.Multiset"
begin

text \<open>
  The configuration of Native HA, from \<open>internal/ha/ha.go\<close>: the values of the environment, the labels of the
  certificates, and the configuration files that are made from templates.

  A template sees the exported fields and the methods of \<open>haConfig\<close>; \<open>ha_template_data\<close> lists them under
  the names with which a template refers to them.  The files are kept in a Go map, whose order is not
  specified: \<open>order\<close> is any rearrangement of the entries.
\<close>

section \<open>Data\<close>

record haInstance =
  inst_Name :: string
  ReplicationAddress :: string

record haLocalGroupConfig =
  local_Name :: string
  local_Role :: string
  local_Address :: string

record haRecoveryGroupConfig =
  recovery_Name :: string
  recovery_Enabled :: bool
  recovery_Address :: string

record haGroupConfig =
  group_Local :: haLocalGroupConfig
  group_Recovery :: haRecoveryGroupConfig
  group_CipherSpec :: string
  group_CertificateLabel :: string

record haConfig =
  ha_Name :: string
  Instances :: "haInstance list"
  Group :: haGroupConfig
  haTLSEnabled :: bool
  ha_CipherSpec :: string
  CertificateLabel :: string
  keyRepository :: string
  fipsAvailable :: bool

definition yesNo_String :: "bool \<Rightarrow> string" where
  "yesNo_String yn = (if yn then ''Yes'' else ''No'')"

definition ShouldConfigureTLS :: "haConfig \<Rightarrow> bool" where
  "ShouldConfigureTLS h =
    (if haTLSEnabled h then True else if local_Name (group_Local (Group h)) \<noteq> [] then True else False)"

definition SSLFipsRequired :: "haConfig \<Rightarrow> string" where
  "SSLFipsRequired h = yesNo_String (fipsAvailable h)"

definition KeyRepository :: "haConfig \<Rightarrow> string" where
  "KeyRepository h = (if keyRepository h \<noteq> [] then keyRepository h else ''/run/runmqserver/ha/tls/key'')"

section \<open>Operations\<close>

definition ha_checkVars :: "string list" where
  "ha_checkVars =
    [''MQ_NATIVE_HA_INSTANCE_0_NAME'', ''MQ_NATIVE_HA_INSTANCE_0_REPLICATION_ADDRESS'',
     ''MQ_NATIVE_HA_INSTANCE_1_NAME'', ''MQ_NATIVE_HA_INSTANCE_1_REPLICATION_ADDRESS'',
     ''MQ_NATIVE_HA_INSTANCE_2_NAME'', ''MQ_NATIVE_HA_INSTANCE_2_REPLICATION_ADDRESS'',
     ''MQ_NATIVE_HA_TLS'', ''MQ_NATIVE_HA_CIPHERSPEC'']"

fun any_env :: "string list \<Rightarrow> bool io" where
  "any_env [] = return False"
| "any_env (v # vs) = do { s \<leftarrow> os_Getenv v; if s \<noteq> [] then return True else any_env vs }"

definition envConfigPresent :: "bool io" where
  "envConfigPresent = any_env ha_checkVars"

definition ha_instance :: "string \<Rightarrow> haInstance io" where
  "ha_instance i = do {
     n \<leftarrow> os_Getenv (''MQ_NATIVE_HA_INSTANCE_'' @ i @ ''_NAME'');
     a \<leftarrow> os_Getenv (''MQ_NATIVE_HA_INSTANCE_'' @ i @ ''_REPLICATION_ADDRESS'');
     return \<lparr>inst_Name = n, ReplicationAddress = a\<rparr>
   }"

definition ha_group :: "haGroupConfig io" where
  "ha_group = do {
     localAddress \<leftarrow> os_Getenv ''MQ_NATIVE_HA_GROUP_LOCAL_ADDRESS'';
     localName \<leftarrow> os_Getenv ''MQ_NATIVE_HA_GROUP_LOCAL_NAME'';
     role \<leftarrow> os_Getenv ''MQ_NATIVE_HA_GROUP_ROLE'';
     recoveryAddress \<leftarrow> os_Getenv ''MQ_NATIVE_HA_GROUP_REPLICATION_ADDRESS'';
     recoveryName \<leftarrow> os_Getenv ''MQ_NATIVE_HA_GROUP_RECOVERY_NAME'';
     enabled \<leftarrow> os_Getenv ''MQ_NATIVE_HA_GROUP_RECOVERY_ENABLED'';
     cipher \<leftarrow> os_Getenv ''MQ_NATIVE_HA_GROUP_CIPHERSPEC'';
     return \<lparr>group_Local = \<lparr>local_Name = localName, local_Role = role, local_Address = localAddress\<rparr>,
             group_Recovery = \<lparr>recovery_Name = recoveryName, recovery_Enabled = (enabled \<noteq> ''false''),
                               recovery_Address = recoveryAddress\<rparr>,
             group_CipherSpec = cipher, group_CertificateLabel = []\<rparr>
   }"

definition loadConfigFromEnv :: "(error + haConfig) io" where
  "loadConfigFromEnv = do {
     n \<leftarrow> os_Getenv ''HOSTNAME'';
     i0 \<leftarrow> ha_instance ''0'';
     i1 \<leftarrow> ha_instance ''1'';
     i2 \<leftarrow> ha_instance ''2'';
     g \<leftarrow> ha_group;
     cipher \<leftarrow> os_Getenv ''MQ_NATIVE_HA_CIPHERSPEC'';
     repository \<leftarrow> os_Getenv ''MQ_NATIVE_HA_KEY_REPOSITORY'';
     cfg \<leftarrow> return \<lparr>ha_Name = n, Instances = [i0, i1, i2], Group = g, haTLSEnabled = False, ha_CipherSpec = cipher,
       CertificateLabel = [], keyRepository = repository, fipsAvailable = False\<rparr>;
     return (Inr (if recovery_Name (group_Recovery g) = []
       then cfg\<lparr>Group := g\<lparr>group_Recovery := (group_Recovery g)\<lparr>recovery_Enabled := False\<rparr>\<rparr>\<rparr>
       else cfg))
   }"

definition updateTLS :: "bool \<Rightarrow> string \<Rightarrow> string \<Rightarrow> haConfig \<Rightarrow> error + haConfig" where
  "updateTLS fips haCertLabel haGroupCertLabel h =
    (let h1 = (if haCertLabel \<noteq> [] then h\<lparr>CertificateLabel := haCertLabel, haTLSEnabled := True\<rparr> else h);
         h2 = (if haGroupCertLabel \<noteq> []
               then h1\<lparr>Group := (Group h1)\<lparr>group_CertificateLabel := haGroupCertLabel\<rparr>, haTLSEnabled := True\<rparr> else h1)
     in Inr (h2\<lparr>fipsAvailable := fips\<rparr>))"

definition instance_data :: "haInstance list \<Rightarrow> (string \<times> string) list" where
  "instance_data is = concat (map (\<lambda>(i, x).
     [(''Instances.'' @ Itoa (int i) @ ''.Name'', inst_Name x),
      (''Instances.'' @ Itoa (int i) @ ''.ReplicationAddress'', ReplicationAddress x)]) (enumerate 0 is))"

definition ha_template_data :: "haConfig \<Rightarrow> (string \<times> string) list" where
  "ha_template_data h =
    [(''Name'', ha_Name h)] @ instance_data (Instances h) @
    [(''Group.Local.Name'', local_Name (group_Local (Group h))),
     (''Group.Local.Role'', local_Role (group_Local (Group h))),
     (''Group.Local.Address'', local_Address (group_Local (Group h))),
     (''Group.Recovery.Name'', recovery_Name (group_Recovery (Group h))),
     (''Group.Recovery.Enabled'', yesNo_String (recovery_Enabled (group_Recovery (Group h)))),
     (''Group.Recovery.Address'', recovery_Address (group_Recovery (Group h))),
     (''Group.CipherSpec'', group_CipherSpec (Group h)),
     (''Group.CertificateLabel'', group_CertificateLabel (Group h)),
     (''CipherSpec'', ha_CipherSpec h), (''CertificateLabel'', CertificateLabel h),
     (''ShouldConfigureTLS'', if ShouldConfigureTLS h then ''true'' else ''false''),
     (''SSLFipsRequired'', SSLFipsRequired h), (''KeyRepository'', KeyRepository h)]"

definition ha_generate :: "template_engine \<Rightarrow> haConfig \<Rightarrow> string \<Rightarrow> string \<Rightarrow> (error + unit) io" where
  "ha_generate render h templatePath outputPath = ProcessTemplateFile render templatePath outputPath (ha_template_data h)"

type_synonym map_order = "(string \<times> string) list \<Rightarrow> (string \<times> string) list"

definition loadConfigAndGenerate :: "template_engine \<Rightarrow> map_order \<Rightarrow> (string \<times> string) list \<Rightarrow> bool \<Rightarrow> string \<Rightarrow> string
    \<Rightarrow> (error + unit) io" where
  "loadConfigAndGenerate render order templateConfigs fips haCertLabel haGroupCertLabel = do {
     r \<leftarrow> loadConfigFromEnv;
     case r of
       Inl err \<Rightarrow> return (Inl err)
     | Inr cfg \<Rightarrow>
         (case updateTLS fips haCertLabel haGroupCertLabel cfg of
            Inl err \<Rightarrow> return (Inl err)
          | Inr cfg' \<Rightarrow> for_err (\<lambda>(outputPath, templateFile). ha_generate render cfg' templateFile outputPath) (order templateConfigs))
   }"

definition ha_configFiles :: "bool \<Rightarrow> bool \<Rightarrow> (string \<times> string) list" where
  "ha_configFiles labelled fromEnv =
    [(''/run/10-native-ha-instance.ini'', ''/etc/mqm/10-native-ha-instance.ini.tpl'')]
    @ (if labelled then [(''/run/10-native-ha-keystore.ini'', ''/etc/mqm/10-native-ha-keystore.ini.tpl'')] else [])
    @ (if fromEnv then [(''/run/10-native-ha.ini'', ''/etc/mqm/10-native-ha.ini.tpl'')] else [])"

definition ConfigureNativeHA :: "crypto_lib \<Rightarrow> template_engine \<Rightarrow> map_order \<Rightarrow> unit res io" where
  "ConfigureNativeHA lib render order = do {
     nha \<leftarrow> os_Getenv ''MQ_NATIVE_HA'';
     if nha \<noteq> ''true'' then ok ()
     else do {
       fips \<leftarrow> IsFIPSEnabled;
       r \<leftarrow> ConfigureHATLSKeystore lib;
       case r of
         None \<Rightarrow> panic
       | Some (Inl err) \<Rightarrow> fail (Errorf (''error loading tls keys: '' @ error_text err))
       | Some (Inr (haCertLabel, haGroupCertLabel, _)) \<Rightarrow> do {
           present \<leftarrow> envConfigPresent;
           (if present then log_Printf ''Configuring Native HA using values provided in environment variables'' else return ());
           lift_res (loadConfigAndGenerate render order
             (ha_configFiles (haCertLabel \<noteq> [] \<or> haGroupCertLabel \<noteq> []) present) fips haCertLabel haGroupCertLabel)
         }
     }
   }"
section \<open>Which files are written\<close>

fun wrote_only :: "string set \<Rightarrow> event \<Rightarrow> bool" where
  "wrote_only ps (Wrote p) \<longleftrightarrow> p \<in> ps"
| "wrote_only ps e \<longleftrightarrow> True"

lemma execute_to_traces:
  "t \<noteq> [] \<or> e \<noteq> None \<Longrightarrow> traces (\<lambda>r es. r = None \<longrightarrow> Wrote d \<in> set es) (execute_to d t e)"
  by (rule tracesI)
    (auto simp: execute_to_def os_OverwriteFile_def change_def query_run split: sum.splits option.splits if_splits)

text \<open>A template that does not render as nothing is written on success, and nothing but it and its directory.\<close>

lemma ProcessTemplateFile_traces:
  assumes "\<And>s x. render s x \<noteq> Inr ([], None)"
  shows "traces (\<lambda>r es. (r = Inr () \<longrightarrow> Wrote d \<in> set es) \<and> list_all (wrote_only {d, Dir d}) es) (ProcessTemplateFile render t d x)"
proof (rule traces_conj)
  have last: "traces (\<lambda>r es. r = Inr () \<longrightarrow> Wrote d \<in> set es) (do {
      e \<leftarrow> execute_to d c err;
      case e of Some err \<Rightarrow> do { log_Error (error_text err); return (Inl err) } | None \<Rightarrow> return (Inr ())
    })" if "c \<noteq> [] \<or> err \<noteq> None" for c err
    by (rule traces_bind [OF execute_to_traces [OF that]])
      (auto intro!: traces_option traces_seq emits_intro traces_return)
  show "traces (\<lambda>r es. r = Inr () \<longrightarrow> Wrote d \<in> set es) (ProcessTemplateFile render t d x)"
    unfolding ProcessTemplateFile_def
  proof (rule traces_seq, intro emits_intro, intro traces_sum traces_prod)
    fix src es0 y c err assume "(case src of Inl err \<Rightarrow> Inl err | Inr s \<Rightarrow> render s x) = Inr y" "y = (c, err)"
    then obtain s where "render s x = Inr (c, err)" by (auto split: sum.splits)
    with assms [of s x] have c: "c \<noteq> [] \<or> err \<noteq> None" by auto
    show "traces (\<lambda>r es. r = Inr () \<longrightarrow> Wrote d \<in> set (es0 @ es)) (do {
      st \<leftarrow> os_Stat (Dir d);
      mk \<leftarrow> (case st of
              Inr _ \<Rightarrow> return (Inr ())
            | Inl err \<Rightarrow>
                if IsNotExist err then do {
                  r \<leftarrow> os_MkdirAll (Dir d);
                  case r of
                    Inl e \<Rightarrow> do { log_Error (error_text e); return (Inl e) }
                  | Inr _ \<Rightarrow> return (Inr ())
                } else return (Inl err));
      case mk of
        Inl err \<Rightarrow> return (Inl err)
      | Inr _ \<Rightarrow> do {
          e \<leftarrow> execute_to d c err;
          case e of Some err \<Rightarrow> do { log_Error (error_text err); return (Inl err) } | None \<Rightarrow> return (Inr ())
        }
    })"
      by (rule traces_seq, intro emits_intro, rule traces_seq, (intro emits_intro; simp), rule traces_sum)
        (auto intro!: traces_return traces_mono [OF last [OF c]])
  qed (auto intro!: traces_seq emits_intro traces_return)
  show "traces (\<lambda>_ es. list_all (wrote_only {d, Dir d}) es) (ProcessTemplateFile render t d x)"
    by (rule traces_emits) (intro emits_intro; simp)
qed

lemma any_env_result: "run_state (any_env vs) w = ((\<exists>v \<in> set vs. result (os_Getenv v) w \<noteq> []), w)"
  by (induction vs) auto

lemma ha_configFiles_dir: "(p, t) \<in> set (ha_configFiles l e) \<Longrightarrow> Dir p = ''/run''"
  by (auto simp: ha_configFiles_def split: if_splits) code_simp+

lemma generate_traces:
  assumes "\<And>s x. render s x \<noteq> Inr ([], None)" "\<And>xs. mset (order xs) = mset xs"
  shows "traces (\<lambda>r es. (r = Inr () \<longrightarrow> (\<forall>(p, t) \<in> set (ha_configFiles l e). Wrote p \<in> set es))
      \<and> list_all (wrote_only (insert ''/run'' (fst ` set (ha_configFiles l e)))) es)
    (loadConfigAndGenerate render order (ha_configFiles l e) fips cl gl)"
proof -
  let ?files = "ha_configFiles l e"
  have same: "set (order ?files) = set ?files" by (metis assms(2) set_mset_mset)
  have one: "traces (\<lambda>r es. (r = Inr () \<longrightarrow> (case x of (p, t) \<Rightarrow> Wrote p \<in> set es))
      \<and> list_all (wrote_only (insert ''/run'' (fst ` set ?files))) es) (case x of (p, t) \<Rightarrow> ha_generate render cfg t p)"
    if "x \<in> set (order ?files)" for cfg x
  proof -
    obtain p t where x: "x = (p, t)" by (cases x)
    with that have p: "(p, t) \<in> set ?files" "Dir p = ''/run''" using ha_configFiles_dir by (auto simp: same)
    then have "wrote_only {p, Dir p} ev \<Longrightarrow> wrote_only (insert ''/run'' (fst ` set ?files)) ev" for ev
      by (cases ev) force+
    then show ?thesis unfolding x prod.case ha_generate_def
      by (intro traces_mono [OF ProcessTemplateFile_traces [OF assms(1)]]) (auto simp: list_all_iff)
  qed
  have loop: "traces (\<lambda>r es. (r = Inr () \<longrightarrow> (\<forall>(p, t) \<in> set ?files. Wrote p \<in> set es))
      \<and> list_all (wrote_only (insert ''/run'' (fst ` set ?files))) es)
    (for_err (\<lambda>(p, t). ha_generate render cfg t p) (order ?files))" for cfg
    using traces_for_err [where xs = "order ?files" and body = "\<lambda>(p, t). ha_generate render cfg t p", OF one] by (simp add: same split_beta)
  show ?thesis
    unfolding loadConfigAndGenerate_def
  proof (rule traces_bind [where Q = "\<lambda>_ es. es = []"])
    show "traces (\<lambda>_ es. es = []) loadConfigFromEnv"
      by (rule tracesI) (auto simp: loadConfigFromEnv_def ha_instance_def ha_group_def split: prod.splits)
  qed (auto intro!: traces_cases traces_return traces_mono [OF loop])
qed


definition ha_world :: world where
  "ha_world = base_world\<lparr>env := [(''MQ_NATIVE_HA'', ''true''), (''MQ_NATIVE_HA_TLS'', ''true'')],
     files := [(''/run'', DirNode), (''/etc/mqm/10-native-ha-instance.ini.tpl'', FileNode ''t''),
       (''/etc/mqm/10-native-ha.ini.tpl'', FileNode ''t'')]\<rparr>"


end
