(* ===== verification/Web_Server.thy ===== *)
theory Web_Server
  imports TLS Startup_Checks Go_Traces
begin

text \<open>
  The embedded web server: the passwords of the developer image (\<open>internal/simpleauth\<close>), the configuration
  and start of the server (\<open>cmd/runmqserver/webserver.go\<close>) and \<open>cmd/runmqserver/post_init.go\<close>.
\<close>

section \<open>Passwords\<close>

definition MQ_APP_PWD_ENV :: string where "MQ_APP_PWD_ENV = ''MQ_APP_PASSWORD''"
definition MQ_APP_PWD_SECURE_ENV :: string where "MQ_APP_PWD_SECURE_ENV = ''MQ_APP_PASSWORD_SECURE''"
definition MQ_ADMIN_PWD_ENV :: string where "MQ_ADMIN_PWD_ENV = ''MQ_ADMIN_PASSWORD''"
definition MQ_ADMIN_PWD_SECURE_ENV :: string where "MQ_ADMIN_PWD_SECURE_ENV = ''MQ_ADMIN_PASSWORD_SECURE''"
definition MQ_CONNAUTH_USE_HTP_ENV :: string where "MQ_CONNAUTH_USE_HTP_ENV = ''MQ_CONNAUTH_USE_HTP''"
definition MQ_APP_USER_SECRET_PATH :: string where "MQ_APP_USER_SECRET_PATH = ''/run/secrets/mqAppPassword''"
definition MQ_ADMIN_USER_SECRET_PATH :: string where "MQ_ADMIN_USER_SECRET_PATH = ''/run/secrets/mqAdminPassword''"

text \<open>A variable that is set and not blank.\<close>

definition not_blank :: "string option \<Rightarrow> bool" where
  "not_blank v \<longleftrightarrow> (case v of None \<Rightarrow> False | Some s \<Rightarrow> length (TrimSpace s) > 0)"

definition simpleauth_IsEnabled :: "bool io" where
  "simpleauth_IsEnabled = do {
     enableHtPwd \<leftarrow> os_LookupEnv MQ_CONNAUTH_USE_HTP_ENV;
     adminPassword \<leftarrow> os_LookupEnv MQ_ADMIN_PWD_ENV;
     adminSecret \<leftarrow> os_LookupEnv MQ_ADMIN_PWD_SECURE_ENV;
     appPassword \<leftarrow> os_LookupEnv MQ_APP_PWD_ENV;
     appSecret \<leftarrow> os_LookupEnv MQ_APP_PWD_SECURE_ENV;
     return ((case enableHtPwd of None \<Rightarrow> False | Some s \<Rightarrow> EqualFold s ''true'')
       \<and> (not_blank adminPassword \<or> not_blank appPassword \<or> not_blank appSecret \<or> not_blank adminSecret))
   }"

text \<open>\<open>os.Setenv\<close> rejects a value with a NUL byte.\<close>

definition os_Setenv_checked :: "string \<Rightarrow> string \<Rightarrow> (error + unit) io" where
  "os_Setenv_checked v s =
    (if CHR 0x00 \<in> set s then return (Inl (Errorf ''setenv: invalid argument''))
     else do { os_Setenv v s; return (Inr ()) })"

definition readMQSecrets :: "string \<Rightarrow> (error + string) io" where
  "readMQSecrets secretName = do {
     r \<leftarrow> os_ReadFile (Clean secretName);
     case r of
       Inl err \<Rightarrow> return (Inl err)
     | Inr password \<Rightarrow>
         if length password > 256
         then return (Inl (Errorf (''the length of the password cannot be more than 256 characters, length of the password was ''
                @ Itoa (int (length password)))))
         else EncodeSecrets password
   }"

text \<open>
  What \<open>CheckForPasswords\<close> does for each of the two users: \<open>User\<close> and \<open>user\<close> are its names in the messages,
  \<open>var\<close> and \<open>secure\<close> the environment variables, \<open>secret\<close> the file with the secret and \<open>secretName\<close> its name.
\<close>

definition set_secure :: "string \<Rightarrow> string \<Rightarrow> string \<Rightarrow> (error + unit) io" where
  "set_secure user secure encoded =
    wrap_error (\<lambda>e. ''setting encoded '' @ user @ '' user password to environment variable failed with error '' @ e)
      (os_Setenv_checked secure encoded)"

definition check_password :: "string \<Rightarrow> string \<Rightarrow> string \<Rightarrow> string \<Rightarrow> string \<Rightarrow> string \<Rightarrow> string option \<Rightarrow> (error + unit) io" where
  "check_password User user var secure secret secretName password =
    (if not_blank password then do {
       r \<leftarrow> EncodeSecrets (the password);
       case r of
         Inl err \<Rightarrow> return (Inl (Errorf (''encoding '' @ User @ '' password for web server failed with error '' @ error_text err)))
       | Inr encoded \<Rightarrow> do {
           s \<leftarrow> set_secure user secure encoded;
           case s of
             Inl err \<Rightarrow> return (Inl err)
           | Inr _ \<Rightarrow> do {
               log_Printf (''Environment variable '' @ var @ '' is deprecated, use secrets to set the passwords'');
               return (Inr ())
             }
         }
     } else do {
       st \<leftarrow> os_Stat secret;
       case st of
         Inl _ \<Rightarrow> return (Inr ())
       | Inr _ \<Rightarrow> do {
           r \<leftarrow> readMQSecrets secret;
           case r of
             Inl err \<Rightarrow> return (Inl (Errorf (''encoding '' @ secretName @ '' secret for web server failed with error '' @ error_text err)))
           | Inr encoded \<Rightarrow> if length encoded > 0 then set_secure user secure encoded else return (Inr ())
         }
     })"

definition CheckForPasswords :: "(error + unit) io" where
  "CheckForPasswords = do {
     adminPassword \<leftarrow> os_LookupEnv MQ_ADMIN_PWD_ENV;
     appPassword \<leftarrow> os_LookupEnv MQ_APP_PWD_ENV;
     r \<leftarrow> check_password ''Admin'' ''admin'' ''MQ_ADMIN_PASSWORD'' MQ_ADMIN_PWD_SECURE_ENV MQ_ADMIN_USER_SECRET_PATH ''mqAdminPassword'' adminPassword;
     case r of
       Inl err \<Rightarrow> return (Inl err)
     | Inr _ \<Rightarrow> check_password ''App'' ''app'' ''MQ_APP_PASSWORD'' MQ_APP_PWD_SECURE_ENV MQ_APP_USER_SECRET_PATH ''mqAppPassword'' appPassword
   }"

section \<open>The web server\<close>

definition startWebServer :: "(error + unit) io" where
  "startWebServer = do {
     st \<leftarrow> os_Stat ''/opt/mqm/bin/strmqweb'';
     if (case st of Inl err \<Rightarrow> IsNotExist err | Inr _ \<Rightarrow> False) then do {
       log_Debug ''Skipping web server, because it's not installed'';
       return (Inr ())
     } else do {
       log_Printf ''Starting web server'';
       (out, rc, err) \<leftarrow> exec_CombinedOutput ''strmqweb'' [];
       case err of
         Some e \<Rightarrow> do {
           log_Printf (''Error '' @ Itoa rc @ '' starting web server: '' @ out);
           return (Inl e)
         }
       | None \<Rightarrow> do { log_Printf ''Started web server''; return (Inr ()) }
     }
   }"

definition web_prefix :: string where "web_prefix = ''/etc/mqm/web''"

definition web_target :: "string \<Rightarrow> string" where
  "web_target from = ''/var/mqm/web'' @ drop (length web_prefix) from"

definition logged :: "(error + unit) io \<Rightarrow> (error + unit) io" where
  "logged m = do {
     r \<leftarrow> m;
     case r of Inl err \<Rightarrow> do { log_Error (error_text err); return (Inl err) } | Inr _ \<Rightarrow> return (Inr ())
   }"

text \<open>The function that \<open>filepath.Walk\<close> calls for a path without an error.\<close>

definition web_visit :: "string \<Rightarrow> bool \<Rightarrow> (error + unit) io" where
  "web_visit from isDir = do {
     st \<leftarrow> os_Stat (web_target from);
     case (case st of Inr _ \<Rightarrow> Inr True | Inl err \<Rightarrow> if IsNotExist err then Inr False else Inl err) of
       Inl err \<Rightarrow> return (Inl err)
     | Inr exists \<Rightarrow>
         if isDir then (if \<not> exists then os_MkdirAll (web_target from) else return (Inr ()))
         else do {
           rm \<leftarrow> (if exists then os_Remove (web_target from) else return (Inr ()));
           case rm of
             Inl err \<Rightarrow> return (Inl err)
           | Inr _ \<Rightarrow>
               if HasSuffix from ''/mqwebuser.xml'' then logged (os_Symlink from (web_target from))
               else logged (CopyFile from (web_target from))
         }
   }"

text \<open>
  \<open>filepath.Walk\<close>: the names of a directory are read before the function is called for it, and an error of
  \<open>lstat\<close> or of reading a directory goes to the function, which returns it.  \<open>fuel\<close> is the depth to which
  directories are nested, which is less than the number of files.
\<close>

primrec web_walk :: "nat \<Rightarrow> string \<Rightarrow> inode \<Rightarrow> (error + unit) io" where
  "web_walk 0 path info = return (Inr ())"
| "web_walk (Suc fuel) path info =
    (if info \<noteq> DirNode then web_visit path False
     else do {
       names \<leftarrow> os_ReadDir path;
       case names of
         Inl err \<Rightarrow> return (Inl err)
       | Inr ns \<Rightarrow> do {
           r \<leftarrow> web_visit path True;
           case r of
             Inl err \<Rightarrow> return (Inl err)
           | Inr _ \<Rightarrow> for_err (\<lambda>n. do {
               st \<leftarrow> query ''lstat'' fs_lstat (path_Join [path, n]);
               case st of Inl err \<Rightarrow> return (Inl err) | Inr i \<Rightarrow> web_walk fuel (path_Join [path, n]) i
             }) ns
         }
     })"

definition walk_web_config :: "(error + unit) io" where
  "walk_web_config = do {
     st \<leftarrow> query ''lstat'' fs_lstat web_prefix;
     depth \<leftarrow> ask (\<lambda>w. Suc (length (files w)));
     case st of Inl err \<Rightarrow> return (Inl err) | Inr i \<Rightarrow> web_walk depth web_prefix i
   }"

text \<open>A file that need not be there: \<open>None\<close> to go on, or the result to return.\<close>

definition stop_unless_exists :: "string \<Rightarrow> (error + unit) option io" where
  "stop_unless_exists p = do {
     st \<leftarrow> os_Stat p;
     return (case st of Inr _ \<Rightarrow> None | Inl err \<Rightarrow> Some (if IsNotExist err then Inr () else Inl err))
   }"

definition copy_web_config :: "(error + unit) io" where
  "copy_web_config = do {
     a \<leftarrow> stop_unless_exists ''/opt/mqm/bin/strmqweb'';
     case a of
       Some r \<Rightarrow> return r
     | None \<Rightarrow> do {
         b \<leftarrow> stop_unless_exists ''/etc/mqm/web'';
         case b of Some r \<Rightarrow> return r | None \<Rightarrow> walk_web_config
       }
   }"

definition configureWebServer :: "template_engine \<Rightarrow> string \<Rightarrow> KeyStoreData \<Rightarrow> unit res io" where
  "configureWebServer render keyLabel p12Truststore =
    try_res (lift_res (logged (CopyFile ''/opt/mqm/samp/web/server.xml''
       ''/var/mqm/web/installations/Installation1/servers/mqweb/server.xml''))) (\<lambda>_.
    try_res (do {
       gen \<leftarrow> os_Getenv ''MQ_GENERATE_CERTIFICATE_HOSTNAME'';
       if keyLabel \<noteq> [] \<or> gen \<noteq> [] then ConfigureWebKeystore p12Truststore keyLabel else ok []
     }) (\<lambda>webKeystore.
    try_res (lift_res (ConfigureWebTLS render keyLabel webKeystore p12Truststore)) (\<lambda>_.
    lift_res copy_web_config)))"

definition configureFIPSWebServer :: "template_engine \<Rightarrow> (error + unit) io" where
  "configureFIPSWebServer render =
    ProcessTemplateFile render
      ''/etc/mqm/web/installations/Installation1/servers/mqweb/configDropins/defaults/jvm.options.tpl'' ''/run/jvm.options''
      [(''FipsProvider'', ''true''), (''FipsProviderName'', ''IBMJCEPlusFIPS'')]"

section \<open>After the initialisation\<close>

text \<open>The server is started in the background: \<open>startWebServer\<close> runs beside what follows.\<close>

definition start_in_background :: "(error + unit) io" where
  "start_in_background = do {
     r \<leftarrow> startWebServer;
     (case r of Inl err \<Rightarrow> log_Printf (''Error starting web server: '' @ error_text err) | Inr _ \<Rightarrow> return ());
     return r
   }"

definition postInit :: "template_engine \<Rightarrow> string \<Rightarrow> string \<Rightarrow> KeyStoreData \<Rightarrow> unit res io" where
  "postInit render name keyLabel p12Truststore = do {
     enableWebServer \<leftarrow> os_Getenv ''MQ_ENABLE_EMBEDDED_WEB_SERVER'';
     if enableWebServer = ''true'' \<or> enableWebServer = ''1'' then do {
       fips \<leftarrow> IsFIPSEnabled;
       try_res (if fips then lift_res (configureFIPSWebServer render) else ok ()) (\<lambda>_.
       try_res (configureWebServer render keyLabel p12Truststore) (\<lambda>_. do {
         emit (Spawned ''startWebServer'');
         ok ()
       }))
     } else ok ()
   }"
section \<open>Properties\<close>

lemma Symlink_run:
  assumes "run_state (os_Symlink t p) w = (Inr (), w')"
  shows "map_of (files w') (Clean p) = Some (LinkNode t)"
proof -
  from change_run_Inr [OF assms [unfolded os_Symlink_def]] have "files w' = fs_put (files w) (Clean p) (LinkNode t)"
    by (auto simp: fs_symlink_def Let_def split: if_splits)
  then show ?thesis by simp
qed

lemma logged_Inr:
  assumes "run_state (logged m) w = (Inr (), w')"
  shows "run_state m w = (Inr (), w')"
  using assms by (auto simp: logged_def split: prod.splits sum.splits)

text \<open>
  A file \<open>mqwebuser.xml\<close> may hold secrets and is not copied to the volume: where the visit of it succeeds, what is in
  its place is a symbolic link to it.
\<close>

theorem mqwebuser_linked:
  assumes "HasSuffix from ''/mqwebuser.xml''" "run_state (web_visit from False) w = (Inr (), w')"
  shows "map_of (files w') (Clean (web_target from)) = Some (LinkNode from)"
proof -
  from assms(2) obtain w1 where "run_state (logged (os_Symlink from (web_target from))) w1 = (Inr (), w')"
    unfolding web_visit_def if_P [OF assms(1)] by (auto split: prod.splits sum.splits if_splits)
  then show ?thesis by (rule Symlink_run [OF logged_Inr])
qed

definition web_world :: world where
  "web_world = base_world\<lparr>files := [(''/etc/mqm/web/mqwebuser.xml'', FileNode ''s''), (''/var/mqm/web'', DirNode),
     (''/var/mqm/web/mqwebuser.xml'', FileNode ''old'')]\<rparr>"

theorem mqwebuser_linked_witness:
  "map_of (files (final (web_visit ''/etc/mqm/web/mqwebuser.xml'' False) web_world)) ''/var/mqm/web/mqwebuser.xml''
    = Some (LinkNode ''/etc/mqm/web/mqwebuser.xml'')"
proof -
  let ?m = "web_visit ''/etc/mqm/web/mqwebuser.xml'' False"
  have suffix: "HasSuffix ''/etc/mqm/web/mqwebuser.xml'' ''/mqwebuser.xml''" by code_simp
  have "result ?m web_world = Inr ()" by code_simp
  then have "run_state ?m web_world = (Inr (), final ?m web_world)" by (metis prod.collapse)
  from mqwebuser_linked [OF suffix this]
  have "map_of (files (final ?m web_world)) (Clean (web_target ''/etc/mqm/web/mqwebuser.xml'')) = Some (LinkNode ''/etc/mqm/web/mqwebuser.xml'')" .
  moreover have "Clean (web_target ''/etc/mqm/web/mqwebuser.xml'') = ''/var/mqm/web/mqwebuser.xml''" by code_simp
  ultimately show ?thesis by metis
qed

text \<open>Only some variables change.\<close>

definition env_except :: "string set \<Rightarrow> world \<Rightarrow> world \<Rightarrow> bool" where
  "env_except S w w' \<longleftrightarrow> (\<forall>v. v \<notin> S \<longrightarrow> map_of (env w') v = map_of (env w) v)"

interpretation ex: kept "env_except S" for S
  by unfold_locales (simp_all add: env_except_def)

lemma same_env_except: "state_io_rel same_env m \<Longrightarrow> state_io_rel (env_except S) m"
  by (auto simp: state_io_rel_def same_env_def env_except_def)

lemma Setenv_except: "v \<in> S \<Longrightarrow> state_io_rel (env_except S) (os_Setenv v s)"
  by (auto simp: state_io_rel_def env_except_def os_Setenv_def update_conv')


lemma quiet_env: "state_io_rel quiet m \<Longrightarrow> state_io_rel same_env m"
  by (auto simp: state_io_rel_def same_env_def quiet_def)

lemma EncodeSecrets_env: "state_io_rel same_env (EncodeSecrets p)"
  unfolding EncodeSecrets_def exec_with_env_def by (intro env_intro; simp)

lemma readMQSecrets_env: "state_io_rel same_env (readMQSecrets s)"
  unfolding readMQSecrets_def by (intro env_intro EncodeSecrets_env)

lemma set_secure_except: "secure \<in> S \<Longrightarrow> state_io_rel (env_except S) (set_secure user secure e)"
  unfolding set_secure_def os_Setenv_checked_def by (intro ex.io_res_rules ex.io_rules Setenv_except)

lemma check_password_except:
  "secure \<in> S \<Longrightarrow> state_io_rel (env_except S) (check_password User user var secure secret name p)"
  unfolding check_password_def
  by (intro ex.io_rules set_secure_except same_env_except EncodeSecrets_env readMQSecrets_env quiet_env;
    (intro quiet_intro | assumption))

lemma set_secure_Inr:
  assumes "run_state (set_secure user secure e) w = (Inr u, w')"
  shows "map_of (env w') secure = Some e \<and> CHR 0x00 \<notin> set e"
  using assms by (auto simp: set_secure_def wrap_error_def os_Setenv_checked_def os_Setenv_def update_conv'
    split: prod.splits sum.splits if_splits)

lemma check_password_secure:
  assumes "run_state (check_password User user var secure secret name p) w = (Inr (), w')" "not_blank p"
  shows "map_of (env w') secure \<noteq> None"
proof -
  from assms obtain e w1 w2 m where "run_state (set_secure user secure e) w1 = (Inr (), w2)"
    and "run_state (log_Printf m) w2 = ((), w')"
    by (auto simp: check_password_def split: prod.splits sum.splits if_splits)
  moreover from this(2) have "env w' = env w2" by (meson log_quiet quietD quiet_def)
  ultimately show ?thesis by (auto dest: set_secure_Inr)
qed

text \<open>
  \<open>CheckForPasswords\<close> sets the encoded password of every user whose plain one is given, and touches no other
  variable of the environment.  (The plain password stays there.)
\<close>

theorem CheckForPasswords_environment:
  assumes "run_state CheckForPasswords w = (Inr (), w')"
  shows "(\<forall>v. v = MQ_ADMIN_PWD_SECURE_ENV \<or> v = MQ_APP_PWD_SECURE_ENV \<or> map_of (env w') v = map_of (env w) v)
    \<and> (not_blank (map_of (env w) MQ_ADMIN_PWD_ENV) \<longrightarrow> map_of (env w') MQ_ADMIN_PWD_SECURE_ENV \<noteq> None)
    \<and> (not_blank (map_of (env w) MQ_APP_PWD_ENV) \<longrightarrow> map_of (env w') MQ_APP_PWD_SECURE_ENV \<noteq> None)"
proof -
  let ?admin = "check_password ''Admin'' ''admin'' ''MQ_ADMIN_PASSWORD'' MQ_ADMIN_PWD_SECURE_ENV MQ_ADMIN_USER_SECRET_PATH ''mqAdminPassword''"
  let ?app = "check_password ''App'' ''app'' ''MQ_APP_PASSWORD'' MQ_APP_PWD_SECURE_ENV MQ_APP_USER_SECRET_PATH ''mqAppPassword''"
  from assms obtain w1 where a: "run_state (?admin (map_of (env w) MQ_ADMIN_PWD_ENV)) w = (Inr (), w1)"
    and b: "run_state (?app (map_of (env w) MQ_APP_PWD_ENV)) w1 = (Inr (), w')"
    by (auto simp: CheckForPasswords_def split: prod.splits sum.splits)
  have "env_except {MQ_ADMIN_PWD_SECURE_ENV} w w1" using check_password_except a by blast
  moreover have "env_except {MQ_APP_PWD_SECURE_ENV} w1 w'" using check_password_except b by blast
  moreover have "MQ_ADMIN_PWD_SECURE_ENV \<noteq> MQ_APP_PWD_SECURE_ENV"
    by (simp add: MQ_ADMIN_PWD_SECURE_ENV_def MQ_APP_PWD_SECURE_ENV_def)
  ultimately show ?thesis
    using check_password_secure [OF a] check_password_secure [OF b] by (auto simp: env_except_def)
qed

definition password_world :: world where
  "password_world = base_world\<lparr>env := [(''MQ_ADMIN_PASSWORD'', ''pw'')],
     files := [(''/opt/mqm/web/bin/securityUtility'', FileNode [])],
     programs := (\<lambda>_ _ _ _ f. (Exited ''{aes}x'' 0, f))\<rparr>"

theorem CheckForPasswords_environment_witness:
  "map_of (env (final CheckForPasswords password_world)) MQ_ADMIN_PWD_SECURE_ENV \<noteq> None
    \<and> map_of (env (final CheckForPasswords password_world)) ''HOME'' = None"
proof -
  have "result CheckForPasswords password_world = Inr ()" by code_simp
  then have "run_state CheckForPasswords password_world = (Inr (), final CheckForPasswords password_world)" by (metis prod.collapse)
  from CheckForPasswords_environment [OF this]
  have "(\<forall>v. v = MQ_ADMIN_PWD_SECURE_ENV \<or> v = MQ_APP_PWD_SECURE_ENV
        \<or> map_of (env (final CheckForPasswords password_world)) v = map_of (env password_world) v)"
    "not_blank (map_of (env password_world) MQ_ADMIN_PWD_ENV) \<longrightarrow> map_of (env (final CheckForPasswords password_world)) MQ_ADMIN_PWD_SECURE_ENV \<noteq> None"
    by blast+
  moreover have "not_blank (map_of (env password_world) MQ_ADMIN_PWD_ENV)" "map_of (env password_world) ''HOME'' = None"
    "''HOME'' \<noteq> MQ_ADMIN_PWD_SECURE_ENV" "''HOME'' \<noteq> MQ_APP_PWD_SECURE_ENV" by code_simp+
  ultimately show ?thesis by metis
qed

end
