(* ===== verification/Signals.thy ===== *)
theory Signals
  imports Go_OS
begin

text \<open>
  Signal handling of \<open>runmqserver\<close>, from \<open>cmd/runmqserver/signals.go\<close>: the goroutine that waits for
  signals, the goroutine that stops the queue manager, and the part of the main thread (\<open>main.go\<close>, from
  the call of \<open>signalHandler\<close> to the end of \<open>doMain\<close>) that talks to them.

  The three threads and the arrival of signals are the rules of a step relation.  A channel of signals holds at most one
  of them, and a signal that finds it full is lost; the control channel has no buffer, so a job is sent and received in
  one step.  A receive from a closed channel returns at once, and a send to it panics.
\<close>

section \<open>Reaping\<close>

text \<open>
  \<open>reapZombies\<close>: what \<open>unix.Wait4\<close> answers to its \<open>n\<close>th call is the argument \<open>wait4\<close>.  The loop ends where the
  process number is zero or the error is \<open>ECHILD\<close>; the result lists the process numbers it logs, and \<open>None\<close> is a loop
  without end.
\<close>

type_synonym wait_calls = "nat \<Rightarrow> int \<times> errno option"

definition no_children :: "int \<times> errno option \<Rightarrow> bool" where
  "no_children r \<longleftrightarrow> fst r = 0 \<or> snd r = Some ECHILD"

partial_function (option) reapZombies :: "wait_calls \<Rightarrow> nat \<Rightarrow> int list option" where
  "reapZombies wait4 n =
    (if no_children (wait4 n) then Some []
     else do { pids \<leftarrow> reapZombies wait4 (Suc n); Some (fst (wait4 n) # pids) })"

declare reapZombies.simps [code]

lemma reapZombies_from:
  assumes "no_children (wait4 (n + k))" "\<forall>i < k. \<not> no_children (wait4 (n + i))"
  shows "reapZombies wait4 n = Some (map (fst \<circ> wait4) [n ..< n + k])"
  using assms
proof (induction k arbitrary: n)
  case 0
  then show ?case by (subst reapZombies.simps) simp
next
  case (Suc k)
  have "reapZombies wait4 (Suc n) = Some (map (fst \<circ> wait4) [Suc n ..< Suc n + k])"
    using Suc.prems by (intro Suc.IH) (auto dest: spec [of _ "Suc _"])
  moreover have "\<not> no_children (wait4 n)" using Suc.prems(2) by (auto dest: spec [of _ 0])
  moreover have "[n ..< n + Suc k] = n # [Suc n ..< Suc n + k]" by (simp add: upt_conv_Cons del: upt_Suc)
  ultimately show ?case by (subst reapZombies.simps) simp
qed

lemma reapZombies_ended: "reapZombies wait4 n = Some ps \<Longrightarrow> no_children (wait4 (n + length ps))"
proof (induction ps arbitrary: n)
  case Nil
  then show ?case by (subst (asm) reapZombies.simps) (auto split: if_splits bind_splits)
next
  case (Cons p ps)
  then have "reapZombies wait4 (Suc n) = Some ps"
    by (subst (asm) (2) reapZombies.simps) (auto split: if_splits bind_splits)
  from Cons.IH [OF this] show ?case by simp
qed


section \<open>State\<close>

datatype job = startReaping | reapNow

text \<open>Where the goroutine of the handler is: in the outer loop, in the loop that waits for the end of the
  start-up, or returned.\<close>

datatype handler_pc = Outer | Startup_Wait | Handler_Ended

text \<open>
  Where the main thread is: starting the queue manager, about to send the first or the second job, about to mark the
  start-up as complete, about to write the readiness file, waiting for the handler, or returned.
\<close>

datatype main_pc = Starting | Send_Start | Send_Reap | Mark_Complete | Set_Ready | Await | Main_Returned

datatype sig_event = Stop_Logged | Metrics_Stopped | QM_Stopped | Reaped | Control_Closed

record sig_state =
  stopNotified :: bool
  stopPending :: bool
  reapNotified :: bool
  reapPending :: bool
  stopTriggered :: bool
  handler_at :: handler_pc
  main_at :: main_pc
  startupDone :: bool
  stopStarted :: bool
  shutdownDone :: bool
  controlClosed :: bool
  sig_events :: "sig_event list"

definition signalHandler :: sig_state where
  "signalHandler = \<lparr>stopNotified = True, stopPending = False, reapNotified = False, reapPending = False,
     stopTriggered = False, handler_at = Outer, main_at = Starting, startupDone = False, stopStarted = False,
     shutdownDone = False, controlClosed = False, sig_events = []\<rparr>"

section \<open>Operations\<close>

definition did :: "sig_event \<Rightarrow> sig_state \<Rightarrow> sig_state" where
  "did e s = s\<lparr>sig_events := sig_events s @ [e]\<rparr>"

definition processControlSignal :: "job \<Rightarrow> sig_state \<Rightarrow> sig_state" where
  "processControlSignal j s = (case j of startReaping \<Rightarrow> s\<lparr>reapNotified := True\<rparr> | reapNow \<Rightarrow> did Reaped s)"

text \<open>\<open>case sig := <-stopSignals\<close> of the outer loop, up to the inner one.\<close>

definition handle_stop :: "sig_state \<Rightarrow> sig_state" where
  "handle_stop s =
    (if stopTriggered s then s\<lparr>stopPending := False\<rparr>
     else did Stop_Logged (s\<lparr>stopPending := False, stopNotified := False, stopTriggered := True, handler_at := Startup_Wait\<rparr>))"

text \<open>The inner loop ends: metrics are stopped, and the goroutine that stops the queue manager is started.\<close>

definition leave_startup :: "sig_state \<Rightarrow> sig_state" where
  "leave_startup s = did Metrics_Stopped (s\<lparr>handler_at := Outer, stopStarted := True\<rparr>)"

definition handle_shutdown :: "sig_state \<Rightarrow> sig_state" where
  "handle_shutdown s =
    (did Control_Closed (did Reaped (s\<lparr>reapNotified := False\<rparr>)))\<lparr>controlClosed := True, handler_at := Handler_Ended\<rparr>"

definition handle_reap :: "sig_state \<Rightarrow> sig_state" where
  "handle_reap s = did Reaped (s\<lparr>reapPending := False\<rparr>)"

text \<open>The goroutine that stops the queue manager.\<close>

definition stop_goroutine :: "sig_state \<Rightarrow> sig_state" where
  "stop_goroutine s = did QM_Stopped (s\<lparr>shutdownDone := True\<rparr>)"

definition receiving :: "sig_state \<Rightarrow> bool" where
  "receiving s \<longleftrightarrow> handler_at s = Outer \<or> handler_at s = Startup_Wait"

section \<open>Steps\<close>

inductive sig_arrives :: "sig_state \<Rightarrow> sig_state \<Rightarrow> bool" where
  stop_arrives: "stopNotified s \<Longrightarrow> sig_arrives s (s\<lparr>stopPending := True\<rparr>)"
| child_arrives: "reapNotified s \<Longrightarrow> sig_arrives s (s\<lparr>reapPending := True\<rparr>)"

inductive sig_step :: "sig_state \<Rightarrow> sig_state \<Rightarrow> bool" where
  handler_stop: "handler_at s = Outer \<Longrightarrow> stopPending s \<Longrightarrow> sig_step s (handle_stop s)"
| handler_shutdown: "handler_at s = Outer \<Longrightarrow> shutdownDone s \<Longrightarrow> sig_step s (handle_shutdown s)"
| handler_reap: "handler_at s = Outer \<Longrightarrow> reapPending s \<Longrightarrow> sig_step s (handle_reap s)"
| handler_startup_done: "handler_at s = Startup_Wait \<Longrightarrow> startupDone s \<Longrightarrow> sig_step s (leave_startup s)"
| stopper: "stopStarted s \<Longrightarrow> \<not> shutdownDone s \<Longrightarrow> sig_step s (stop_goroutine s)"
| main_started: "main_at s = Starting \<Longrightarrow> sig_step s (s\<lparr>main_at := Send_Start\<rparr>)"
| main_failed: "main_at s = Starting \<Longrightarrow> sig_step s (s\<lparr>main_at := Main_Returned, startupDone := True\<rparr>)"
| main_send_start: "main_at s = Send_Start \<Longrightarrow> receiving s \<Longrightarrow>
    sig_step s ((processControlSignal startReaping s)\<lparr>main_at := Send_Reap\<rparr>)"
| main_send_reap: "main_at s = Send_Reap \<Longrightarrow> receiving s \<Longrightarrow>
    sig_step s ((processControlSignal reapNow s)\<lparr>main_at := Mark_Complete\<rparr>)"
| main_mark: "main_at s = Mark_Complete \<Longrightarrow> sig_step s (s\<lparr>main_at := Set_Ready, startupDone := True\<rparr>)"
| main_ready: "main_at s = Set_Ready \<Longrightarrow> sig_step s (s\<lparr>main_at := Await\<rparr>)"
| main_not_ready: "main_at s = Set_Ready \<Longrightarrow> sig_step s (s\<lparr>main_at := Main_Returned\<rparr>)"
| main_return: "main_at s = Await \<Longrightarrow> controlClosed s \<Longrightarrow> sig_step s (s\<lparr>main_at := Main_Returned\<rparr>)"

inductive sig_reach :: "sig_state \<Rightarrow> bool" where
  reach_init: "sig_reach signalHandler"
| reach_step: "sig_reach s \<Longrightarrow> sig_step s s' \<Longrightarrow> sig_reach s'"
| reach_arrives: "sig_reach s \<Longrightarrow> sig_arrives s s' \<Longrightarrow> sig_reach s'"
section \<open>Invariant\<close>

named_theorems sig_defs \<open>operations on the state of the signal handler\<close>

lemmas [sig_defs] = did_def processControlSignal_def handle_stop_def leave_startup_def handle_shutdown_def
  handle_reap_def stop_goroutine_def

inductive_cases sig_stepE: "sig_step s s'"
inductive_cases sig_arrivesE: "sig_arrives s s'"

text \<open>How the phases of the three threads go together.\<close>

definition phases_ok :: "sig_state \<Rightarrow> bool" where
  "phases_ok s \<longleftrightarrow>
    (stopTriggered s \<longleftrightarrow> handler_at s = Startup_Wait \<or> stopStarted s) \<and>
    (handler_at s = Startup_Wait \<longrightarrow> \<not> stopStarted s) \<and>
    (stopStarted s \<longrightarrow> startupDone s) \<and> (shutdownDone s \<longrightarrow> stopStarted s) \<and>
    (controlClosed s \<longleftrightarrow> handler_at s = Handler_Ended) \<and> (controlClosed s \<longrightarrow> shutdownDone s) \<and>
    (startupDone s \<longleftrightarrow> main_at s \<in> {Set_Ready, Await, Main_Returned}) \<and>
    (stopTriggered s \<longrightarrow> \<not> stopNotified s)"

text \<open>What has been done.\<close>

definition events_ok :: "sig_state \<Rightarrow> bool" where
  "events_ok s \<longleftrightarrow>
    count_list (sig_events s) QM_Stopped = (if shutdownDone s then 1 else 0) \<and>
    (main_at s \<in> {Starting, Send_Start} \<longrightarrow> Reaped \<notin> set (sig_events s) \<and> \<not> reapNotified s \<and> \<not> reapPending s) \<and>
    (controlClosed s \<longrightarrow> (\<exists>pre. sig_events s = pre @ [Reaped, Control_Closed] \<and> QM_Stopped \<in> set pre))"

lemma phases_step: "sig_step s s' \<Longrightarrow> phases_ok s \<Longrightarrow> phases_ok s'"
  by (erule sig_stepE) (auto simp: phases_ok_def receiving_def sig_defs)

lemma phases_arrives: "sig_arrives s s' \<Longrightarrow> phases_ok s \<Longrightarrow> phases_ok s'"
  by (erule sig_arrivesE) (auto simp: phases_ok_def)

lemma count_list_mem: "count_list xs x = Suc 0 \<Longrightarrow> x \<in> set xs"
  by (rule ccontr) simp

lemma events_step: "sig_step s s' \<Longrightarrow> phases_ok s \<Longrightarrow> events_ok s \<Longrightarrow> events_ok s'"
  by (erule sig_stepE) (auto simp: phases_ok_def events_ok_def receiving_def sig_defs count_list_append intro: count_list_mem)

lemma events_arrives: "sig_arrives s s' \<Longrightarrow> events_ok s \<Longrightarrow> events_ok s'"
  by (erule sig_arrivesE) (auto simp: events_ok_def)

lemma sig_reach_ok: "sig_reach s \<Longrightarrow> phases_ok s \<and> events_ok s"
proof (induction rule: sig_reach.induct)
  case reach_init
  show ?case by (simp add: phases_ok_def events_ok_def signalHandler_def)
qed (auto intro: phases_step phases_arrives events_step events_arrives)

section \<open>Properties\<close>

text \<open>
  C7: The queue manager is stopped at most once, and only after the start-up is over; the handler ends after that,
  with one last reaping, and only then is the main thread released.
\<close>

theorem shutdown_order:
  assumes "sig_reach s"
  shows "count_list (sig_events s) QM_Stopped \<le> 1
    \<and> (QM_Stopped \<in> set (sig_events s) \<longrightarrow> startupDone s)
    \<and> (controlClosed s \<longrightarrow> (\<exists>pre. sig_events s = pre @ [Reaped, Control_Closed] \<and> QM_Stopped \<in> set pre))"
proof -
  from sig_reach_ok [OF assms] have ok: "phases_ok s" "events_ok s" by auto
  then have "QM_Stopped \<in> set (sig_events s) \<longrightarrow> shutdownDone s" by (auto simp: events_ok_def count_list_0_iff split: if_splits)
  moreover have "shutdownDone s \<longrightarrow> startupDone s" using ok(1) unfolding phases_ok_def by blast
  moreover have "count_list (sig_events s) QM_Stopped \<le> 1" using ok(2) by (simp add: events_ok_def)
  ultimately show ?thesis using ok(2) by (simp add: events_ok_def)
qed

text \<open>
  While the main thread starts the queue manager, no child process is reaped by the handler, so that no command is waited
  for twice; and when it sends its jobs, the handler receives them: the send neither blocks for ever nor
  finds the channel closed, even if a signal to stop came before.
\<close>

theorem startup_undisturbed:
  assumes "sig_reach s"
  shows "(main_at s = Starting \<longrightarrow> Reaped \<notin> set (sig_events s))
    \<and> (main_at s \<in> {Send_Start, Send_Reap} \<longrightarrow> receiving s \<and> \<not> controlClosed s)"
proof -
  from sig_reach_ok [OF assms] have "phases_ok s" "events_ok s" by auto
  then show ?thesis by (cases "handler_at s") (auto simp: phases_ok_def events_ok_def receiving_def)
qed

text \<open>Without further signals every thread comes to rest.\<close>

fun main_rank :: "main_pc \<Rightarrow> nat" where
  "main_rank Starting = 6" | "main_rank Send_Start = 5" | "main_rank Send_Reap = 4" | "main_rank Mark_Complete = 3"
| "main_rank Set_Ready = 2" | "main_rank Await = 1" | "main_rank Main_Returned = 0"

fun handler_rank :: "handler_pc \<Rightarrow> nat" where
  "handler_rank Startup_Wait = 2" | "handler_rank Outer = 1" | "handler_rank Handler_Ended = 0"

definition sig_measure :: "sig_state \<Rightarrow> nat" where
  "sig_measure s = main_rank (main_at s) + handler_rank (handler_at s) + (if stopPending s then 2 else 0)
    + (if reapPending s then 1 else 0) + (if shutdownDone s then 0 else 1)"

lemma sig_step_decreases: "sig_step s s' \<Longrightarrow> sig_measure s' < sig_measure s"
  by (erule sig_stepE) (auto simp: sig_measure_def sig_defs)

lemma stop_requested_kept:
  "sig_step s s' \<Longrightarrow> stopPending s \<or> stopTriggered s \<Longrightarrow> stopPending s' \<or> stopTriggered s'"
  by (erule sig_stepE) (auto simp: sig_defs)

lemma stop_progress:
  assumes "phases_ok s" "stopPending s \<or> stopTriggered s" "main_at s \<noteq> Main_Returned"
  shows "\<exists>s'. sig_step s s'"
proof (cases "main_at s")
  case Await
  with assms show ?thesis
    by (cases "handler_at s"; cases "shutdownDone s") (auto simp: phases_ok_def intro: sig_step.intros)
next
  case Send_Start
  with assms(1) have "receiving s" by (cases "handler_at s") (auto simp: phases_ok_def receiving_def)
  with Send_Start show ?thesis by (blast intro: main_send_start)
next
  case Send_Reap
  with assms(1) have "receiving s" by (cases "handler_at s") (auto simp: phases_ok_def receiving_def)
  with Send_Reap show ?thesis by (blast intro: main_send_reap)
qed (use assms(3) in \<open>auto intro: main_started main_mark main_ready\<close>)

text \<open>
  C6: A signal to stop ends the program.  Once it has arrived, every run without further signals is finite, whatever the
  interleaving, and it does not end before the main thread has returned.
\<close>

theorem stop_leads_to_exit:
  assumes "sig_reach s" "stopPending s \<or> stopTriggered s"
  shows "wfP (\<lambda>s' s. sig_step s s')
    \<and> (\<forall>s'. sig_step\<^sup>*\<^sup>* s s' \<and> (\<nexists>t. sig_step s' t) \<longrightarrow> main_at s' = Main_Returned)"
proof
  show "wfP (\<lambda>s' s. sig_step s s')"
    by (rule wfp_subset [OF wfp_if_convertible_to_nat [of _ sig_measure]]) (auto dest: sig_step_decreases)
  show "\<forall>s'. sig_step\<^sup>*\<^sup>* s s' \<and> (\<nexists>t. sig_step s' t) \<longrightarrow> main_at s' = Main_Returned"
  proof (intro allI impI)
    fix s' assume run: "sig_step\<^sup>*\<^sup>* s s' \<and> (\<nexists>t. sig_step s' t)"
    then have "sig_step\<^sup>*\<^sup>* s s'" ..
    then have "sig_reach s' \<and> (stopPending s' \<or> stopTriggered s')"
      by (induction rule: rtranclp_induct) (use assms in \<open>auto intro: reach_step dest: stop_requested_kept\<close>)
    then show "main_at s' = Main_Returned" using stop_progress run sig_reach_ok by blast
  qed
qed

text \<open>A signal to stop that comes while the queue manager is being started.\<close>

definition interrupted :: sig_state where
  "interrupted = handle_stop (signalHandler\<lparr>stopPending := True\<rparr>)"

lemma interrupted_reach: "sig_reach interrupted"
proof -
  have "sig_reach (signalHandler\<lparr>stopPending := True\<rparr>)"
    by (rule reach_arrives [OF reach_init stop_arrives]) (simp add: signalHandler_def)
  then show ?thesis unfolding interrupted_def
    by (rule reach_step [OF _ handler_stop]) (simp_all add: signalHandler_def)
qed

theorem shutdown_order_witness: "count_list (sig_events interrupted) QM_Stopped \<le> 1"
  using shutdown_order [OF interrupted_reach] by simp

theorem startup_undisturbed_witness:
  "main_at (interrupted\<lparr>main_at := Send_Start\<rparr>) = Send_Start \<and> receiving (interrupted\<lparr>main_at := Send_Start\<rparr>)"
proof -
  have "sig_reach (interrupted\<lparr>main_at := Send_Start\<rparr>)"
    by (rule reach_step [OF interrupted_reach main_started]) (simp add: interrupted_def signalHandler_def handle_stop_def did_def)
  from startup_undisturbed [OF this] show ?thesis by simp
qed

theorem stop_leads_to_exit_witness:
  "\<exists>s'. sig_step\<^sup>*\<^sup>* interrupted s' \<and> main_at s' = Main_Returned"
proof -
  have stop: "stopPending interrupted \<or> stopTriggered interrupted" by code_simp
  from stop_leads_to_exit [OF interrupted_reach stop] have wf: "wfP (\<lambda>s' s. sig_step s s')"
    and rest: "\<And>s'. sig_step\<^sup>*\<^sup>* interrupted s' \<Longrightarrow> \<nexists>t. sig_step s' t \<Longrightarrow> main_at s' = Main_Returned" by blast+
  have "\<exists>s'. sig_step\<^sup>*\<^sup>* s s' \<and> (\<nexists>t. sig_step s' t)" for s
    using wf
  proof (induction s rule: wfp_induct_rule)
    case (less s)
    show ?case
    proof (cases "\<exists>t. sig_step s t")
      case True
      then obtain t where "sig_step s t" ..
      with less.IH [OF this] show ?thesis by (meson converse_rtranclp_into_rtranclp)
    qed auto
  qed
  with rest show ?thesis by blast
qed

end
