(* ===== verification/Dev_Server.thy ===== *)
theory Dev_Server
  imports Web_Server Logging Container_Runtime Queue_Manager_Config
begin

text \<open>
  The program \<open>runmqdevserver\<close> of the developer image (\<open>cmd/runmqdevserver/main.go\<close> and \<open>mqsc.go\<close>): it prepares the
  developer configuration and replaces itself by \<open>runmqserver\<close>.

  Where the logger could not be made, the variable \<open>log\<close> is nil and the attempt to log the error panics.
\<close>

section \<open>Logging\<close>

definition dev_getLogFormat :: "string io" where
  "dev_getLogFormat = do {
     a \<leftarrow> os_Getenv ''MQ_LOGGING_CONSOLE_FORMAT'';
     logFormat \<leftarrow> return (ToLower (TrimSpace a));
     logFormat \<leftarrow> (if logFormat = [] then do { b \<leftarrow> os_Getenv ''LOG_FORMAT''; return (ToLower (TrimSpace b)) }
                   else return logFormat);
     return (if logFormat \<noteq> [] \<and> (logFormat = ''basic'' \<or> logFormat = ''json'') then logFormat else ''basic'')
   }"

definition dev_getDebug :: "bool io" where
  "dev_getDebug = do {
     debug \<leftarrow> os_Getenv ''DEBUG'';
     return (if debug = ''true'' \<or> debug = ''1'' then True else False)
   }"

definition dev_configureLogger :: "golib \<Rightarrow> (error + unit) io" where
  "dev_configureLogger lib = do {
     f \<leftarrow> dev_getLogFormat;
     d \<leftarrow> dev_getDebug;
     n \<leftarrow> GetQueueManagerName;
     case n of
       Inl err \<Rightarrow> return (Inl err)
     | Inr name \<Rightarrow> do {
         l \<leftarrow> NewLogger (os_Args0 lib) (os_Getpid lib) (user_Current lib)
                (if f = ''json'' \<or> f = ''basic'' then OsStdout else OsStderr) d (f = ''json'') name;
         case l of
           Inl err \<Rightarrow> return (Inl (if f = ''json'' \<or> f = ''basic'' then err else Errorf (''invalid value for LOG_FORMAT: '' @ f)))
         | Inr lg \<Rightarrow> do {
             upd (\<lambda>w. w\<lparr>debug_on := debug lg, log_json := json lg\<rparr>);
             return (if f = ''json'' \<or> f = ''basic'' then Inr () else Inl (Errorf (''invalid value for LOG_FORMAT: '' @ f)))
           }
       }
   }"

definition dev_logTermination :: "string \<Rightarrow> unit io" where
  "dev_logTermination msg = do {
     log_Debug (''Writing termination message: '' @ msg);
     r \<leftarrow> os_WriteFile ''/run/termination-log'' msg;
     (case r of Inl err \<Rightarrow> log_Debug (error_text err) | Inr _ \<Rightarrow> return ());
     log_Error msg
   }"

section \<open>MQSC of the developer configuration\<close>

definition updateMQSC :: "template_engine \<Rightarrow> bool \<Rightarrow> (error + unit) io" where
  "updateMQSC render appPasswordRequired = do {
     dev \<leftarrow> os_Getenv ''MQ_DEV'';
     if dev = ''true''
     then ProcessTemplateFile render ''/etc/mqm/10-dev.mqsc.tpl'' ''/run/10-dev.mqsc''
            [(''ChckClnt'', if appPasswordRequired then ''REQUIRED'' else ''ASQMGR'')]
     else return (Inr ())
   }"

section \<open>The program\<close>

definition dev_step :: "(error + unit) io \<Rightarrow> unit res io" where
  "dev_step m = on_error dev_logTermination (lift_res m)"

text \<open>Simple authentication, where \<open>MQ_CONNAUTH_USE_HTP\<close> says so.\<close>

definition dev_simpleauth :: "string option \<Rightarrow> unit res io" where
  "dev_simpleauth useHtp =
    (if (case useHtp of None \<Rightarrow> False | Some enableHtPwd \<Rightarrow> EqualFold enableHtPwd ''true'')
     then try_res (dev_step (CopyFile ''/etc/mqm/qm-service-component.ini.default'' ''/run/qm-service-component.ini'')) (\<lambda>_.
          dev_step CheckForPasswords)
     else ok ())"

definition dev_update :: "template_engine \<Rightarrow> string option \<Rightarrow> unit res io" where
  "dev_update render useHtp =
    on_error (\<lambda>e. dev_logTermination (''Error updating MQSC: '' @ e)) (lift_res (updateMQSC render (useHtp \<noteq> None)))"

definition dev_prepare :: "golib \<Rightarrow> platform \<Rightarrow> unit res io" where
  "dev_prepare lib pf = do {
     r \<leftarrow> dev_configureLogger lib;
     case r of
       Inl _ \<Rightarrow> panic
     | Inr _ \<Rightarrow>
         try_res (on_error dev_logTermination (LogContainerDetails pf)) (\<lambda>_.
         try_res (dev_step (os_WriteFile ''/run/10-dev.mqsc'' [])) (\<lambda>_.
         try_res (dev_step (os_WriteFile ''/run/20-dev-tls.mqsc'' [])) (\<lambda>_.
         dev_step (os_WriteFile ''/run/qm-service-component.ini'' []))))
   }"

definition dev_doMain :: "golib \<Rightarrow> platform \<Rightarrow> template_engine \<Rightarrow> unit res io" where
  "dev_doMain lib pf render =
    try_res (dev_prepare lib pf) (\<lambda>_. do {
      useHtp \<leftarrow> os_LookupEnv ''MQ_CONNAUTH_USE_HTP'';
      try_res (dev_simpleauth useHtp) (\<lambda>_. dev_update render useHtp)
    })"

text \<open>
  \<open>main\<close>: the exit status, \<open>2\<close> being that of a panic.  Where the process is replaced, the event is recorded and the
  status is that of \<open>runmqserver\<close>, which is not known here.
\<close>

datatype dev_exit = Exit int | Replaced string "string list"

definition dev_main :: "golib \<Rightarrow> platform \<Rightarrow> template_engine \<Rightarrow> dev_exit io" where
  "dev_main lib pf render = do {
     r \<leftarrow> dev_doMain lib pf render;
     case r of
       None \<Rightarrow> return (Exit 2)
     | Some (Inl _) \<Rightarrow> return (Exit 1)
     | Some (Inr _) \<Rightarrow> do {
         f \<leftarrow> syscall ''exec'' ''/usr/local/bin/runmqserver'';
         case f of
           Some e \<Rightarrow> do {
             log_Error (''Error replacing this process with runmqserver: '' @ errno_text e);
             return (Exit 0)
           }
         | None \<Rightarrow> return (Replaced ''/usr/local/bin/runmqserver'' [''runmqserver'', ''-nologruntime'', ''-dev''])
       }
   }"
section \<open>Properties\<close>

lemma dev_logTermination_keeps [env_intro, emits_intro]:
  "state_io_rel same_env (dev_logTermination msg)"
  "E (Wrote ''/run/termination-log'') \<Longrightarrow> (\<And>l m. E (Log l m)) \<Longrightarrow> state_io_rel (emits E) (dev_logTermination msg)"
  unfolding dev_logTermination_def by (intro env_intro) (intro emits_intro)

lemma dev_configureLogger_keeps [env_intro, emits_intro]:
  "state_io_rel same_env (dev_configureLogger lib)" "state_io_rel (emits E) (dev_configureLogger lib)"
  unfolding dev_configureLogger_def dev_getLogFormat_def dev_getDebug_def GetQueueManagerName_def NewLogger_def
  by (rule quiet_env, intro quiet_intro, simp add: quiet_def) (intro emits_intro, simp)

lemma dev_prepare_keeps:
  "state_io_rel same_env (dev_prepare lib pf)" "state_io_rel (emits no_exec) (dev_prepare lib pf)"
  unfolding dev_prepare_def dev_step_def
  by (intro env_intro quiet_env [OF LogContainerDetails_quiet]) (intro emits_intro; simp)

text \<open>
  Whether clients have to give a password is decided by whether \<open>MQ_CONNAUTH_USE_HTP\<close> is set, and not by its value.
  Where it is set to anything but \<open>true\<close>, for example to \<open>false\<close>, no password is encoded and no command is run,
  and yet the channels of the developer configuration are set up with \<open>REQUIRED\<close>.
\<close>

theorem dev_requires_password_if_set:
  assumes "map_of (env w) ''MQ_DEV'' = Some ''true''" "map_of (env w) ''MQ_CONNAUTH_USE_HTP'' = Some v" "\<not> EqualFold v ''true''"
    and "run_state (dev_doMain lib pf render) w = (Some (Inr ()), w')"
  shows "execs (trace w') = execs (trace w)
    \<and> (\<exists>w1. run_state (ProcessTemplateFile render ''/etc/mqm/10-dev.mqsc.tpl'' ''/run/10-dev.mqsc'' [(''ChckClnt'', ''REQUIRED'')]) w1 = (Inr (), w'))"
proof -
  from assms(4) obtain w1 where prep: "run_state (dev_prepare lib pf) w = (Some (Inr ()), w1)"
    and rest: "run_state (do {
      useHtp \<leftarrow> os_LookupEnv ''MQ_CONNAUTH_USE_HTP'';
      try_res (dev_simpleauth useHtp) (\<lambda>_. dev_update render useHtp)
    }) w1 = (Some (Inr ()), w')"
    unfolding dev_doMain_def by (auto elim: try_res_InrE)
  have "env w1 = env w" using dev_prepare_keeps(1) prep by (metis same_env_def state_io_rel_def snd_conv)
  with rest assms(1-3) have run: "run_state (ProcessTemplateFile render ''/etc/mqm/10-dev.mqsc.tpl'' ''/run/10-dev.mqsc'' [(''ChckClnt'', ''REQUIRED'')]) w1 = (Inr (), w')"
    by (auto simp: dev_simpleauth_def dev_update_def try_res_def updateMQSC_def lift_res_run elim!: on_error_InrE)
  have "state_io_rel (emits no_exec) (ProcessTemplateFile render ''/etc/mqm/10-dev.mqsc.tpl'' ''/run/10-dev.mqsc'' [(''ChckClnt'', ''REQUIRED'')])"
    by (intro emits_intro; simp)
  with run no_exec_execs [OF dev_prepare_keeps(2) prep] have "execs (trace w') = execs (trace w)" by (simp add: no_exec_execs)
  with run show ?thesis by blast
qed

definition dev_world :: world where
  "dev_world = base_world\<lparr>env := [(''MQ_DEV'', ''true''), (''MQ_CONNAUTH_USE_HTP'', ''false'')],
     files := [(''/run'', DirNode), (''/etc/mqm/10-dev.mqsc.tpl'', FileNode ''t''), (''/proc/mounts'', FileNode ''a /b ext4'')]\<rparr>"

theorem dev_requires_password_if_set_witness:
  "\<exists>w1. run_state (ProcessTemplateFile (\<lambda>_ d. Inr (concat (map snd d), None)) ''/etc/mqm/10-dev.mqsc.tpl'' ''/run/10-dev.mqsc'' [(''ChckClnt'', ''REQUIRED'')]) w1
    = (Inr (), final (dev_doMain example_lib example_platform (\<lambda>_ d. Inr (concat (map snd d), None))) dev_world)"
proof -
  let ?m = "dev_doMain example_lib example_platform (\<lambda>_ d. Inr (concat (map snd d), None))"
  have "map_of (env dev_world) ''MQ_DEV'' = Some ''true''" "map_of (env dev_world) ''MQ_CONNAUTH_USE_HTP'' = Some ''false''"
    "\<not> EqualFold ''false'' ''true''" by code_simp+
  moreover have "result ?m dev_world = Some (Inr ())" by code_simp
  then have "run_state ?m dev_world = (Some (Inr ()), final ?m dev_world)" by (metis prod.collapse)
  ultimately show ?thesis using dev_requires_password_if_set by blast
qed

end
