(* ===== verification/Run_Server.thy ===== *)
theory Run_Server
  imports Queue_Manager Logging Mirror Ready Native_HA Web_Server Container_Runtime
begin

text \<open>
  The program \<open>runmqserver\<close> (\<open>cmd/runmqserver/main.go\<close>): the start of a queue manager from the first check to
  the wait for the signal to stop, composed of the operations of the other theories.

  The result of \<open>doMain\<close> is an error, nothing, or a panic (\<open>None\<close>).  What other threads see of it is in the trace:
  the goroutines it starts (\<open>Spawned\<close>), the jobs it sends to the signal handler and the end of the start-up
  (\<open>Sent\<close>), and the answer it waits for (\<open>Received\<close>).  The theory of the signal handler has the other side of these.
\<close>

section \<open>Parameters\<close>

text \<open>The command line, and what is not part of the program: the libraries, the platform, the template engine,
  the order of Go's maps and the build stamps.\<close>

record flags =
  initFlag :: bool
  infoFlag :: bool
  noLogRuntimeFlag :: bool
  devFlag :: bool

record externals =
  ext_lib :: golib
  ext_crypto :: crypto_lib
  ext_platform :: platform
  ext_render :: template_engine
  ext_order :: map_order
  ext_imageCreated :: string
  ext_imageTag :: string

section \<open>The building blocks\<close>

text \<open>\<open>err = ...; if err != nil { logTermination(err); return err }\<close>\<close>

definition step_res :: "externals \<Rightarrow> 'a res io \<Rightarrow> 'a res io" where
  "step_res x m = on_error (logTermination (ext_lib x)) m"

definition step :: "externals \<Rightarrow> (error + 'a) io \<Rightarrow> 'a res io" where
  "step x m = step_res x (lift_res m)"

definition getenv_on :: "string \<Rightarrow> bool io" where
  "getenv_on v = do { s \<leftarrow> os_Getenv v; return (s = ''true'' \<or> s = ''1'') }"

text \<open>A part of the start-up with MQ trace, where an environment variable asks for it.\<close>

definition traced :: "externals \<Rightarrow> string \<Rightarrow> 'a res io \<Rightarrow> 'a res io" where
  "traced x v m = do {
     enable \<leftarrow> getenv_on v;
     try_res (if enable then step x startMQTrace else ok ()) (\<lambda>_.
     try_res m (\<lambda>r.
     try_res (if enable then step x endMQTrace else ok ()) (\<lambda>_.
     ok r)))
   }"

definition when_mirrored :: "string \<Rightarrow> unit res io \<Rightarrow> unit res io" where
  "when_mirrored source m = do { b \<leftarrow> checkLogSourceForMirroring source; if b then m else ok () }"

section \<open>Volumes and files\<close>

definition steps :: "externals \<Rightarrow> ('b \<Rightarrow> (error + unit) io) \<Rightarrow> 'b list \<Rightarrow> unit res io" where
  "steps x f xs = for_res (\<lambda>_ p. step x (f p)) () xs"

definition scratch_skips :: "string list" where
  "scratch_skips = map (\<lambda>p. path_Join [''/mnt/mqm/scratch'', p])
    [''secrets/kubernetes.io/serviceaccount'', ''termination-log'', ''MQInstanaTracing/userconfiginstana.ini'',
     ''10-dev.mqsc'', ''20-dev-tls.mqsc'', ''qm-service-component.ini'']"

definition prepare_volumes :: "externals \<Rightarrow> unit res io" where
  "prepare_volumes x =
    try_res (steps x createVolume [''/mnt/mqm/data'', ''/mnt/mqm/scratch'', ''/mnt/mqm/tmp'', ''/mnt/mqm-log/log'', ''/mnt/mqm-data/qmgrs'']) (\<lambda>_.
    try_res (steps x cleanVolume [''/run/scratch'', ''/run/mqm'']) (\<lambda>_.
    try_res (do {
      c \<leftarrow> os_Getenv ''MQ_ENABLE_CLEAN_TMP_ON_START'';
      if c = ''true'' then steps x cleanVolume [''/tmp'', ''/mnt/mqm/tmp''] else ok ()
    }) (\<lambda>_. do {
      cleanVolumeBestEffort ''/mnt/mqm/scratch'' scratch_skips;
      steps x createVolume [''/run/scratch/runmqserver'', ''/run/mqm'']
    })))"

definition web_default :: "string \<Rightarrow> string" where
  "web_default f = ''/etc/mqm/web/installations/Installation1/servers/mqweb/'' @ f"

definition prepare_files :: "externals \<Rightarrow> flags \<Rightarrow> unit res io" where
  "prepare_files x fl =
    try_res (step x (os_WriteFile ''/run/15-tls.mqsc'' [])) (\<lambda>_.
    try_res (steps x (\<lambda>iniFile. os_WriteFile (path_Join [''/run'', iniFile]) [])
       [''10-native-ha.ini'', ''10-native-ha-instance.ini'', ''10-native-ha-keystore.ini'']) (\<lambda>_.
    try_res (do {
      dev \<leftarrow> os_Getenv ''MQ_DEV'';
      step x (CopyFile (web_default (if devFlag fl \<and> dev = ''true'' then ''mqwebcontainer.xml.dev'' else ''mqwebcontainer.xml.default''))
        ''/run/mqwebcontainer.xml'')
    }) (\<lambda>_.
    try_res (step x (CopyFile (web_default ''tls.xml.default'') ''/run/tls.xml'')) (\<lambda>_.
    step x (CopyFile (web_default ''configDropins/defaults/jvm.options.default'') ''/run/jvm.options'')))))"

section \<open>The queue manager\<close>

definition configure_tls :: "externals \<Rightarrow> flags \<Rightarrow> (string \<times> KeyStoreData) res io" where
  "configure_tls x fl =
    try_res (step_res x (ConfigureDefaultTLSKeystores (ext_crypto x))) (\<lambda>(keyLabel, ts).
    try_res (step x (ConfigureTLS (ext_render x) keyLabel (ts_Keystore ts) (devFlag fl))) (\<lambda>_.
    ok (keyLabel, ts_Truststore ts)))"

definition web_and_ha :: "externals \<Rightarrow> string \<Rightarrow> string \<Rightarrow> KeyStoreData \<Rightarrow> unit res io" where
  "web_and_ha x name keyLabel p12 =
    try_res (when_mirrored ''web'' (step x (mirrorWebServerLogs name False))) (\<lambda>_.
    try_res (step_res x (postInit (ext_render x) name keyLabel p12)) (\<lambda>_.
    try_res (do {
      nha \<leftarrow> os_Getenv ''MQ_NATIVE_HA'';
      if nha = ''true'' then step_res x (ConfigureNativeHA (ext_crypto x) (ext_render x) (ext_order x)) else ok ()
    }) (\<lambda>_. do { FIPS_PostInit; ok () })))"

definition mirror_queue_manager :: "externals \<Rightarrow> flags \<Rightarrow> string \<Rightarrow> bool \<Rightarrow> unit res io" where
  "mirror_queue_manager x fl name newQM =
    try_res (when_mirrored ''qmgr''
      (try_res (step x mirrorSystemErrorLogs) (\<lambda>_. step_res x (mirrorQueueManagerErrorLogs name newQM)))) (\<lambda>_. do {
    auth \<leftarrow> simpleauth_IsEnabled;
    if devFlag fl \<and> auth then step x (mirrorMQSimpleAuthLogs name newQM) else ok ()
  })"

definition start_queue_manager :: "externals \<Rightarrow> flags \<Rightarrow> string \<Rightarrow> unit res io" where
  "start_queue_manager x fl name =
    try_res (do {
      auth \<leftarrow> simpleauth_IsEnabled;
      if devFlag fl \<and> auth then step_res x (updateQMini name) else ok ()
    }) (\<lambda>_.
    try_res (step x (startQueueManager name)) (\<lambda>_.
    when_mirrored ''mqsc'' (step_res x (mirrorMQSCLogs name))))"

definition run_queue_manager :: "externals \<Rightarrow> flags \<Rightarrow> string \<Rightarrow> string \<Rightarrow> KeyStoreData \<Rightarrow> unit res io" where
  "run_queue_manager x fl name keyLabel p12 =
    try_res (web_and_ha x name keyLabel p12) (\<lambda>_.
    try_res (traced x ''MQ_ENABLE_TRACE_CRTMQM'' (step_res x (createQueueManager name (devFlag fl)))) (\<lambda>newQM.
    try_res (mirror_queue_manager x fl name newQM) (\<lambda>_.
    try_res (step x updateCommandLevel) (\<lambda>_.
    try_res (traced x ''MQ_ENABLE_TRACE_STRMQM'' (start_queue_manager x fl name)) (\<lambda>_. do {
      enableMetrics \<leftarrow> getenv_on ''MQ_ENABLE_METRICS'';
      (if enableMetrics then emit (Spawned ''metrics.GatherMetrics'') else log_Printf ''Metrics are disabled'');
      ok ()
    })))))"

section \<open>The whole program\<close>

text \<open>The end of the start-up: whether it was marked as complete, and the result.\<close>

definition finish_startup :: "externals \<Rightarrow> (bool \<times> unit res) io" where
  "finish_startup x = do {
     emit (Sent ''startReaping'');
     emit (Sent ''reapNow'');
     emit (Sent ''markStartupComplete'');
     r \<leftarrow> step x Ready_Set;
     (case r of
        Some (Inr _) \<Rightarrow> emit (Received ''signalControl'')
      | _ \<Rightarrow> return ());
     return (True, r)
   }"

definition run_and_finish :: "externals \<Rightarrow> flags \<Rightarrow> string \<Rightarrow> string \<Rightarrow> KeyStoreData \<Rightarrow> (bool \<times> unit res) io" where
  "run_and_finish x fl name keyLabel p12 = do {
     q \<leftarrow> run_queue_manager x fl name keyLabel p12;
     case q of
       None \<Rightarrow> return (False, None)
     | Some (Inl err) \<Rightarrow> return (False, Some (Inl err))
     | Some (Inr _) \<Rightarrow> finish_startup x
   }"

text \<open>The deferred functions that end the mirroring of logs.\<close>

definition with_mirroring :: "'a io \<Rightarrow> 'a io" where
  "with_mirroring m = do {
     r \<leftarrow> m;
     log_Debug ''Cancel log mirroring'';
     emit (Sent ''cancelMirror'');
     log_Debug ''Waiting for log mirroring to complete'';
     return r
   }"

definition start_up :: "externals \<Rightarrow> flags \<Rightarrow> string \<Rightarrow> (bool \<times> unit res) io" where
  "start_up x fl name = do {
     r \<leftarrow> try_res (if noLogRuntimeFlag fl then ok () else step_res x (LogContainerDetails (ext_platform x))) (\<lambda>_.
          try_res (prepare_volumes x) (\<lambda>_.
          try_res (prepare_files x fl) (\<lambda>_.
          traced x ''MQ_ENABLE_TRACE_CRTMQDIR'' (step x (createDirStructure (logDiagnostics (ext_lib x)))))));
     case r of
       None \<Rightarrow> return (False, None)
     | Some (Inl err) \<Rightarrow> return (False, Some (Inl err))
     | Some (Inr _) \<Rightarrow>
         if initFlag fl then return (False, Some (Inr ()))
         else do {
           logVersionInfo (ext_imageCreated x) (ext_imageTag x);
           ProcessFIPSType;
           t \<leftarrow> configure_tls x fl;
           case t of
             None \<Rightarrow> return (False, None)
           | Some (Inl err) \<Rightarrow> return (False, Some (Inl err))
           | Some (Inr (keyLabel, p12)) \<Rightarrow> do {
               valid \<leftarrow> isLogConsoleSourceValid;
               (if \<not> valid
                then log_Printf (''One or more invalid value is provided for MQ_LOGGING_CONSOLE_SOURCE. Allowed values are ''
                       @ [CHR 0x27] @ ''qmgr'' @ [CHR 0x27] @ '','' @ [CHR 0x27] @ ''web'' @ [CHR 0x27] @ '' and ''
                       @ [CHR 0x27] @ ''mqsc'' @ [CHR 0x27] @ '' in csv format'')
                else return ());
               with_mirroring (run_and_finish x fl name keyLabel p12)
             }
         }
   }"

text \<open>The deferred function that unblocks the signal handler.\<close>

definition with_signal_handler :: "(bool \<times> unit res) io \<Rightarrow> unit res io" where
  "with_signal_handler m = do {
     emit (Spawned ''signalHandler'');
     upd (\<lambda>w. w\<lparr>collectDiagOnFail := True\<rparr>);
     (startupMarkedComplete, r) \<leftarrow> m;
     (if \<not> startupMarkedComplete then emit (Sent ''markStartupComplete'') else return ());
     return r
   }"

definition license_gate :: "externals \<Rightarrow> unit res io \<Rightarrow> unit res io" where
  "license_gate x m = do {
     r \<leftarrow> checkLicense;
     case r of
       Inl err \<Rightarrow> do {
         logTermination (ext_lib x) (''Error checking license acceptance: '' @ error_text err);
         fail err
       }
     | Inr accepted \<Rightarrow>
         if \<not> accepted then do {
           logTermination (ext_lib x) ''License not accepted'';
           fail (Errorf ''License not accepted'')
         } else m
   }"

definition show_info :: "externals \<Rightarrow> unit res io" where
  "show_info x = do {
     logVersionInfo (ext_imageCreated x) (ext_imageTag x);
     r \<leftarrow> LogContainerDetails (ext_platform x);
     case r of
       None \<Rightarrow> panic
     | Some (Inl err) \<Rightarrow> do { log_Printf (''Error displaying container details: '' @ error_text err); ok () }
     | Some (Inr _) \<Rightarrow> ok ()
   }"

text \<open>
  The logger is nil until \<open>configureLogger\<close> has set it; the failure of the file limit and of \<open>configureLogger\<close> itself are
  logged with it, which panics.
\<close>

definition raise_file_limit :: "unit res io" where
  "raise_file_limit = do {
     b \<leftarrow> os_Getenv ''MQ_ENABLE_SOFT_FILE_LIMIT_INCREASE'';
     if b = ''true'' then do {
       r \<leftarrow> setNoFileSoftLimitEqualToHardLimit;
       case r of Inl _ \<Rightarrow> panic | Inr _ \<Rightarrow> ok ()
     } else ok ()
   }"

definition doMain :: "externals \<Rightarrow> flags \<Rightarrow> unit res io" where
  "doMain x fl = try_res raise_file_limit (\<lambda>_. do {
     n \<leftarrow> GetQueueManagerName;
     mf \<leftarrow> configureLogger (ext_lib x) (case n of Inl _ \<Rightarrow> [] | Inr name \<Rightarrow> name);
     case mf of
       Inl _ \<Rightarrow> panic
     | Inr _ \<Rightarrow>
         if infoFlag fl then show_info x
         else do {
           r \<leftarrow> verifySingleProcess;
           case r of
             Inl err \<Rightarrow> do { log_Error (error_text err); fail err }
           | Inr _ \<Rightarrow>
               (case n of
                  Inl nameErr \<Rightarrow> do { logTermination (ext_lib x) ''<nil>''; ok () }
                | Inr name \<Rightarrow>
                    try_res (step x Clear) (\<lambda>_.
                    license_gate x (do {
                      log_Printf (''Using queue manager name: '' @ name);
                      with_signal_handler (start_up x fl name)
                    })))
         }
   })"

definition main_exit :: "externals \<Rightarrow> flags \<Rightarrow> int io" where
  "main_exit x fl = do {
     r \<leftarrow> doMain x fl;
     return (case r of None \<Rightarrow> 2 | Some (Inl _) \<Rightarrow> 1 | Some (Inr _) \<Rightarrow> 0)
   }"
section \<open>What the parts leave to the main thread\<close>

text \<open>Every event but those with which \<open>doMain\<close> talks to the signal handler.\<close>

fun local_event :: "event \<Rightarrow> bool" where
  "local_event (Sent s) \<longleftrightarrow> False"
| "local_event (Received s) \<longleftrightarrow> False"
| "local_event e \<longleftrightarrow> True"

lemma local_events [emits_intro]:
  "local_event (Wrote p)" "local_event (Log l m)" "local_event (Exec c args rc)" "local_event (Removed p)"
  "local_event (Spawned s)" "local_event (Stdout s)" "local_event (Stderr s)"
  by simp_all

lemma each_emits [emits_intro]: "(\<And>y. y \<in> set xs \<Longrightarrow> state_io_rel (emits E) (f y)) \<Longrightarrow> state_io_rel (emits E) (each f xs)"
  by (induction xs) (auto intro!: emits_intro)

lemma visit_local [emits_intro]: "state_io_rel (emits local_event) (visit skips p d)"
  unfolding visit_def by (intro emits_intro)

lemma walkDir_local [emits_intro]: "state_io_rel (emits local_event) (walkDir n skips p d)"
  by (induction n arbitrary: p d) (auto intro!: emits_intro split: prod.splits)

lemma volumes_local [emits_intro]:
  "state_io_rel (emits local_event) (createVolume p)" "state_io_rel (emits local_event) (cleanVolume p)"
  "state_io_rel (emits local_event) (cleanVolumeBestEffort p skips)" "state_io_rel (emits local_event) (CopyFile a b)"
  unfolding createVolume_def cleanVolume_def cleanVolumeBestEffort_def CopyFile_def CopyFileMode_def CheckFileSource_def filepath_Abs_def
  by (intro emits_intro)+

lemma diagnostics_local [emits_intro]:
  "state_io_rel (emits local_event) (logDiagnostics lib)" "state_io_rel (emits local_event) (logTermination lib m)"
  unfolding logTermination_def logDiagnostics_def getDebug_def logPathPermissions_def log_child_def logFilePermission_def logFDCSummary_def
  by (intro emits_intro)+

lemma step_res_local [emits_intro]: "state_io_rel (emits local_event) m \<Longrightarrow> state_io_rel (emits local_event) (step_res x m)"
  unfolding step_res_def by (intro emits_intro)

lemma step_local [emits_intro]: "state_io_rel (emits local_event) m \<Longrightarrow> state_io_rel (emits local_event) (step x m)"
  unfolding step_def by (intro emits_intro)

lemma steps_local [emits_intro]:
  "(\<And>p. state_io_rel (emits local_event) (f p)) \<Longrightarrow> state_io_rel (emits local_event) (steps x f ps)"
  unfolding steps_def by (intro emits_intro)

lemma traced_local [emits_intro]:
  "state_io_rel (emits local_event) m \<Longrightarrow> state_io_rel (emits local_event) (traced x v m)"
  unfolding traced_def getenv_on_def startMQTrace_def endMQTrace_def by (intro emits_intro)

lemma prepare_volumes_local [emits_intro]: "state_io_rel (emits local_event) (prepare_volumes x)"
  unfolding prepare_volumes_def by (intro emits_intro)

lemma prepare_files_local [emits_intro]: "state_io_rel (emits local_event) (prepare_files x fl)"
  unfolding prepare_files_def by (intro emits_intro)

lemma createDirStructure_local [emits_intro]: "state_io_rel (emits local_event) (createDirStructure (logDiagnostics lib))"
  unfolding createDirStructure_def by (intro emits_intro)

lemma mirror_local [emits_intro]:
  "state_io_rel (emits local_event) (mirrorWebServerLogs n b)" "state_io_rel (emits local_event) mirrorSystemErrorLogs"
  "state_io_rel (emits local_event) (mirrorQueueManagerErrorLogs n b)" "state_io_rel (emits local_event) (mirrorMQSCLogs n)"
  "state_io_rel (emits local_event) (mirrorMQSimpleAuthLogs n b)"
  unfolding mirrorWebServerLogs_def mirrorSystemErrorLogs_def mirrorQueueManagerErrorLogs_def mirrorMQSCLogs_def
    mirrorMQSimpleAuthLogs_def mirror_qm_file_def start_mirror_def
  by (intro emits_intro)+

lemma source_loop_local [emits_intro]: "state_io_rel (emits local_event) (source_loop s xs)"
proof (induction xs)
  case Nil
  show ?case unfolding source_loop.simps by (intro emits_intro)
next
  case (Cons a xs)
  show ?case unfolding source_loop.simps by (intro emits_intro Cons.IH)
qed

lemma when_mirrored_local [emits_intro]:
  "state_io_rel (emits local_event) m \<Longrightarrow> state_io_rel (emits local_event) (when_mirrored s m)"
  unfolding when_mirrored_def checkLogSourceForMirroring_def getMQLogConsoleSource_def by (intro emits_intro)

lemma keystore_local: "keystore_event e \<Longrightarrow> local_event e"
  by (cases e) (simp_all add: keystore_event_def)

lemma TLS_loops_local [emits_intro]:
  "state_io_rel (emits local_event) (write_blocks lib f i bs)" "state_io_rel (emits local_event) (rename_all ks i cs)"
  "state_io_rel (emits local_event) (have_in d ds)" "state_io_rel (emits local_event) (any_keys ds)"
proof -
  have entries: "state_io_rel (emits local_event) (entries_of d)" for d unfolding entries_of_def by (intro emits_intro)
  show have_in: "state_io_rel (emits local_event) (have_in d ds)" for d ds
    by (induction ds) (simp_all only: have_in.simps, (intro emits_intro entries; assumption)+)
  show "state_io_rel (emits local_event) (any_keys ds)"
    by (induction ds) (simp_all only: any_keys.simps haveKeysAndCerts_def, (intro emits_intro entries have_in; assumption)+)
  show "state_io_rel (emits local_event) (write_blocks lib f i bs)"
    by (induction bs arbitrary: i) (simp_all only: write_blocks.simps, (intro emits_intro; assumption)+)
  show "state_io_rel (emits local_event) (rename_all ks i cs)"
    by (induction cs arbitrary: i) (simp_all only: rename_all.simps, (intro emits_intro keystore_local; assumption)+)
qed

lemma TLS_small_local [emits_intro]:
  "state_io_rel (emits local_event) (entries_of d)" "state_io_rel (emits local_event) (res_of r)"
  "state_io_rel (emits local_event) (generateRandomPassword lib)" "state_io_rel (emits local_event) (validateCertificates c cs)"
  "state_io_rel (emits local_event) (read_key_file lib p)" "state_io_rel (emits local_event) (writeCertificatesToFile lib f bs)"
proof -
  show "state_io_rel (emits local_event) (generateRandomPassword lib)"
    by (auto simp: state_io_rel_def emits_def generateRandomPassword_def)
qed (unfold entries_of_def res_of_def validateCertificates_def read_key_file_def writeCertificatesToFile_def, (intro emits_intro)+)

lemma case_prod_app [emits_intro]: "(\<And>a b. state_io_rel (emits E) (f a b z)) \<Longrightarrow> state_io_rel (emits E) (case_prod f p z)"
  by (cases p) simp

lemma TLS_keys_local [emits_intro]:
  "state_io_rel (emits local_event) (processPrivateKey lib d n keys kd)"
  "state_io_rel (emits local_event) (processCertificates lib d n pre keys cms p12)"
  "state_io_rel (emits local_event) (load_key lib d n k pub cas cms)"
  unfolding processPrivateKey_def key_files_def processCertificates_def public_file_def ca_file_def ca_block_def add_to_cms_def
    load_key_def relabelCertificate_def Let_def
  by (intro emits_intro keystore_local; assumption?)+

lemma TLS_trust_local [emits_intro]:
  "state_io_rel (emits local_event) (processKeys lib ts d kdir)"
  "state_io_rel (emits local_event) (processTrustCertificates lib ts d)"
  "state_io_rel (emits local_event) (generateAllKeystores lib d c p)"
  unfolding processKeys_def process_key_set_def processTrustCertificates_def trust_set_def trust_file_def trust_block_def
    addCertificatesToTruststore_def addCertificatesToCMSKeystore_def add_trusted_def generateAllKeystores_def create_store_def Let_def
  by (intro emits_intro keystore_local; assumption?)+

lemma TLS_local [emits_intro]:
  "state_io_rel (emits local_event) (ConfigureDefaultTLSKeystores lib)" "state_io_rel (emits local_event) (ConfigureHATLSKeystore lib)"
  "state_io_rel (emits local_event) (ConfigureTLS render k cms dev)" "state_io_rel (emits local_event) (ConfigureWebTLS render k wk kd)"
  "state_io_rel (emits local_event) (ConfigureWebKeystore kd k)"
  unfolding ConfigureDefaultTLSKeystores_def ConfigureHATLSKeystore_def configureTLSKeystores_def ConfigureTLS_def tls_template_data_def
    configureTLSDev_def ConfigureWebTLS_def ConfigureWebKeystore_def web_keystore_file_def
  by (intro emits_intro keystore_local; assumption?)+

lemma web_walk_local [emits_intro]: "state_io_rel (emits local_event) (web_walk n p i)"
proof (induction n arbitrary: p i)
  case (Suc n)
  show ?case unfolding web_walk.simps web_visit_def logged_def by (intro emits_intro Suc.IH)
qed (simp only: web_walk.simps, intro emits_intro)

lemma any_env_emits [emits_intro]: "state_io_rel (emits E) (any_env vs)"
  by (induction vs) (simp_all only: any_env.simps, (intro emits_intro; assumption)+)

lemma configure_local [emits_intro]:
  "state_io_rel (emits local_event) (postInit render n k kd)" "state_io_rel (emits local_event) (ConfigureNativeHA lib render order)"
  unfolding postInit_def configureFIPSWebServer_def configureWebServer_def logged_def copy_web_config_def stop_unless_exists_def walk_web_config_def
    ConfigureNativeHA_def envConfigPresent_def loadConfigAndGenerate_def loadConfigFromEnv_def ha_instance_def ha_group_def ha_generate_def
  by (intro emits_intro)+
lemma startQueueManager_traces:
  "traces (\<lambda>r es. list_all local_event es
     \<and> (r = Inr () \<longrightarrow> (\<exists>rc. Exec ''strmqm'' [''-x'', name] rc \<in> set es \<and> rc \<in> {0, 30, 94}))) (startQueueManager name)"
proof (rule traces_conj)
  have run: "traces (\<lambda>(out, rc, err) es. Exec ''strmqm'' [''-x'', name] rc \<in> set es \<and> (err = None \<longleftrightarrow> rc = 0)) (Run ''strmqm'' [''-x'', name])"
    by (rule tracesI) (auto dest: Run_trace Run_result_err)
  show "traces (\<lambda>_. list_all local_event) (startQueueManager name)"
    unfolding startQueueManager_def command_failed_def by (intro traces_emits emits_intro)
  show "traces (\<lambda>r es. r = Inr () \<longrightarrow> (\<exists>rc. Exec ''strmqm'' [''-x'', name] rc \<in> set es \<and> rc \<in> {0, 30, 94})) (startQueueManager name)"
    unfolding startQueueManager_def command_failed_def
    by (rule traces_seq, intro emits_intro, simp, rule traces_seq, intro emits_intro, simp, rule traces_bind [OF run])
      (auto intro!: traces_cases traces_seq traces_return emits_intro)
qed

lemma case_bool_emits [emits_intro]:
  "state_io_rel (emits E) a \<Longrightarrow> state_io_rel (emits E) b \<Longrightarrow> state_io_rel (emits E) (case_bool a b c)"
  by (cases c) simp_all

lemma queue_manager_local [emits_intro]:
  "state_io_rel (emits local_event) (createQueueManager name dev)" "state_io_rel (emits local_event) updateCommandLevel"
  "state_io_rel (emits local_event) (updateQMini name)" "state_io_rel (emits local_event) (startQueueManager name)"
  unfolding createQueueManager_def existing_queue_manager_def new_queue_manager_def getCreateQueueManagerArgs_def readQMIni_def
    updateCommandLevel_def updateQMini_def startQueueManager_def command_failed_def log_on_error_def
  by (intro emits_intro)+

lemma simpleauth_emits [emits_intro]: "state_io_rel (emits E) simpleauth_IsEnabled"
  unfolding simpleauth_IsEnabled_def by (intro emits_intro)

lemma run_parts_local [emits_intro]:
  "state_io_rel (emits local_event) (configure_tls x fl)" "state_io_rel (emits local_event) (web_and_ha x n k kd)"
  "state_io_rel (emits local_event) (mirror_queue_manager x fl n b)"
  unfolding configure_tls_def web_and_ha_def mirror_queue_manager_def by (intro emits_intro)+

section \<open>What the main thread says to the signal handler\<close>

text \<open>
  Events in which the jobs are sent only after the queue manager has been started, in their order, and the
  answer is waited for only after the readiness file has been written.
\<close>

definition startup_order :: "event list \<Rightarrow> bool" where
  "startup_order es \<longleftrightarrow> Sent ''startReaping'' \<in> set es \<or> Received ''signalControl'' \<in> set es \<longrightarrow>
    (\<exists>pre post name rc. es = pre @ [Sent ''startReaping'', Sent ''reapNow'', Sent ''markStartupComplete''] @ post
      \<and> list_all local_event pre \<and> Exec ''strmqm'' [''-x'', name] rc \<in> set pre \<and> rc \<in> {0, 30, 94}
      \<and> (Received ''signalControl'' \<in> set post \<longrightarrow> prefix [Wrote readyFile, Received ''signalControl''] post))"

lemma local_not_sent:
  "list_all local_event es \<Longrightarrow> Sent s \<notin> set es" "list_all local_event es \<Longrightarrow> Received s \<notin> set es"
  by (auto simp: list_all_iff)

lemma startup_order_local: "list_all local_event es \<Longrightarrow> startup_order es"
  by (simp add: startup_order_def local_not_sent)

lemma startup_order_before:
  assumes "list_all local_event ds" "startup_order es"
  shows "startup_order (ds @ es)"
  unfolding startup_order_def
proof
  assume "Sent ''startReaping'' \<in> set (ds @ es) \<or> Received ''signalControl'' \<in> set (ds @ es)"
  with assms obtain pre post name rc where "es = pre @ [Sent ''startReaping'', Sent ''reapNow'', Sent ''markStartupComplete''] @ post"
    "list_all local_event pre" "Exec ''strmqm'' [''-x'', name] rc \<in> set pre" "rc \<in> {0, 30, 94}"
    "Received ''signalControl'' \<in> set post \<longrightarrow> prefix [Wrote readyFile, Received ''signalControl''] post"
    unfolding startup_order_def by (auto simp: local_not_sent)
  with assms(1) show "\<exists>pre post name rc. ds @ es = pre @ [Sent ''startReaping'', Sent ''reapNow'', Sent ''markStartupComplete''] @ post
      \<and> list_all local_event pre \<and> Exec ''strmqm'' [''-x'', name] rc \<in> set pre \<and> rc \<in> {0, 30, 94}
      \<and> (Received ''signalControl'' \<in> set post \<longrightarrow> prefix [Wrote readyFile, Received ''signalControl''] post)"
    by (intro exI [of _ "ds @ pre"] exI [of _ post] exI [of _ name] exI [of _ rc]) simp
qed

lemma startup_order_after:
  assumes "startup_order es" "Sent ''startReaping'' \<notin> set fs" "Received ''signalControl'' \<notin> set fs"
  shows "startup_order (es @ fs)"
  unfolding startup_order_def
proof
  assume "Sent ''startReaping'' \<in> set (es @ fs) \<or> Received ''signalControl'' \<in> set (es @ fs)"
  with assms obtain pre post name rc where "es = pre @ [Sent ''startReaping'', Sent ''reapNow'', Sent ''markStartupComplete''] @ post"
    "list_all local_event pre" "Exec ''strmqm'' [''-x'', name] rc \<in> set pre" "rc \<in> {0, 30, 94}"
    "Received ''signalControl'' \<in> set post \<longrightarrow> prefix [Wrote readyFile, Received ''signalControl''] post"
    unfolding startup_order_def by auto
  with assms(3) show "\<exists>pre post name rc. es @ fs = pre @ [Sent ''startReaping'', Sent ''reapNow'', Sent ''markStartupComplete''] @ post
      \<and> list_all local_event pre \<and> Exec ''strmqm'' [''-x'', name] rc \<in> set pre \<and> rc \<in> {0, 30, 94}
      \<and> (Received ''signalControl'' \<in> set post \<longrightarrow> prefix [Wrote readyFile, Received ''signalControl''] post)"
    by (intro exI [of _ pre] exI [of _ "post @ fs"] exI [of _ name] exI [of _ rc]) (auto intro: prefix_prefix)
qed

text \<open>The rules by which a program keeps the order.\<close>

abbreviation orderly :: "'a io \<Rightarrow> bool" where "orderly m \<equiv> traces (\<lambda>_. startup_order) m"

lemma orderly_local: "state_io_rel (emits local_event) m \<Longrightarrow> orderly m"
  by (rule traces_mono [OF traces_emits]) (auto intro: startup_order_local)

lemma orderly_return: "orderly (return y)"
  by (rule orderly_local) (intro emits_intro)

lemma orderly_bind:
  assumes "state_io_rel (emits local_event) m" "\<And>x. orderly (k x)"
  shows "orderly (State_Monad.bind m k)"
proof (rule traces_bind [OF traces_emits [OF assms(1)]])
  show "traces (\<lambda>_ es'. startup_order (es @ es')) (k x)" if "list_all local_event es" for x es
    by (rule traces_mono [OF assms(2)]) (auto intro: startup_order_before that)
qed

lemma orderly_try:
  assumes "state_io_rel (emits local_event) m" "\<And>x. orderly (k x)"
  shows "orderly (try_res m k)"
  unfolding try_res_def by (rule orderly_bind [OF assms(1)]) (intro traces_cases assms(2) orderly_return)

lemma orderly_then:
  assumes "orderly m" "\<And>x. state_io_rel (emits (\<lambda>e. e \<noteq> Sent ''startReaping'' \<and> e \<noteq> Received ''signalControl'')) (k x)"
  shows "orderly (State_Monad.bind m k)"
proof (rule traces_bind [OF assms(1)])
  show "traces (\<lambda>_ es'. startup_order (es @ es')) (k x)" if "startup_order es" for x es
    by (rule traces_mono [OF traces_emits [OF assms(2)]]) (auto simp: list_all_iff intro!: startup_order_after that)
qed

lemma with_mirroring_orderly: "orderly m \<Longrightarrow> orderly (with_mirroring m)"
  unfolding with_mirroring_def by (rule orderly_then) (auto intro!: emits_intro)

lemma with_signal_handler_orderly:
  assumes "orderly m"
  shows "orderly (with_signal_handler m)"
proof -
  have "orderly (do {
      (startupMarkedComplete, r) \<leftarrow> m;
      (if \<not> startupMarkedComplete then emit (Sent ''markStartupComplete'') else return ());
      return r
    })"
    by (rule orderly_then [OF assms]) (auto intro!: emits_intro split: prod.splits)
  then show ?thesis
    unfolding with_signal_handler_def
    by - (rule orderly_bind, intro emits_intro, rule orderly_bind, intro emits_intro, simp, assumption)
qed

text \<open>Where the queue manager was started, \<open>strmqm\<close> is in the trace.\<close>

definition started_in :: "string \<Rightarrow> event list \<Rightarrow> bool" where
  "started_in name es \<longleftrightarrow> (\<exists>rc. Exec ''strmqm'' [''-x'', name] rc \<in> set es \<and> rc \<in> {0, 30, 94})"

lemma started_in_append: "started_in name es \<or> started_in name fs \<Longrightarrow> started_in name (es @ fs)"
  by (auto simp: started_in_def)

abbreviation starts :: "string \<Rightarrow> 'a res io \<Rightarrow> bool" where
  "starts name m \<equiv> traces (\<lambda>r es. (\<exists>y. r = Some (Inr y)) \<longrightarrow> started_in name es) m"

lemma starts_try_first:
  assumes "starts name m" "\<And>y. state_io_rel (emits (\<lambda>_. True)) (k y)"
  shows "starts name (try_res m k)"
  by (rule traces_try [OF assms(1)])
    (auto intro: traces_mono [OF traces_any [OF assms(2)]] started_in_append)

lemma starts_try_later:
  assumes "state_io_rel (emits (\<lambda>_. True)) m" "\<And>y. starts name (k y)"
  shows "starts name (try_res m k)"
  by (rule traces_try [OF traces_any [OF assms(1)]])
    (auto intro: traces_mono [OF assms(2)] started_in_append)

lemma starts_later:
  assumes "state_io_rel (emits (\<lambda>_. True)) m" "\<And>y. starts name (k y)"
  shows "starts name (State_Monad.bind m k)"
  by (rule traces_seq [OF assms(1)]) (auto intro: traces_mono [OF assms(2)] started_in_append)

lemma local_any: "state_io_rel (emits local_event) m \<Longrightarrow> state_io_rel (emits (\<lambda>_. True)) m"
  by (erule emits_mono) simp

lemma start_step_starts: "starts name (step x (startQueueManager name))"
proof -
  have "traces (\<lambda>r es. (\<exists>y. Some r = Some (Inr y)) \<longrightarrow> started_in name es) (startQueueManager name)"
    by (rule traces_mono [OF startQueueManager_traces]) (auto simp: started_in_def)
  then show ?thesis
    unfolding step_def step_res_def
    by (rule traces_on_error [OF traces_lift]) (auto intro: diagnostics_local)
qed

lemma start_queue_manager_starts: "starts name (start_queue_manager x fl name)"
  unfolding start_queue_manager_def
  by (rule starts_try_later, rule local_any, intro emits_intro, rule starts_try_first [OF start_step_starts], rule local_any, intro emits_intro)

lemma traced_starts: "starts name m \<Longrightarrow> starts name (traced x v m)"
  unfolding traced_def
  by (rule starts_later, (auto intro!: emits_intro simp: getenv_on_def)[1], rule starts_try_later, rule local_any,
      (unfold startMQTrace_def endMQTrace_def, intro emits_intro)[1], rule starts_try_first, assumption, rule local_any,
      (unfold startMQTrace_def endMQTrace_def, intro emits_intro))

lemma run_queue_manager_traces:
  "traces (\<lambda>r es. list_all local_event es \<and> ((\<exists>y. r = Some (Inr y)) \<longrightarrow> started_in name es)) (run_queue_manager x fl name k kd)"
proof (rule traces_conj)
  show "traces (\<lambda>_. list_all local_event) (run_queue_manager x fl name k kd)"
    unfolding run_queue_manager_def getenv_on_def start_queue_manager_def by (rule traces_emits) (intro emits_intro)
  show "starts name (run_queue_manager x fl name k kd)"
    unfolding run_queue_manager_def
    by (rule starts_try_later, rule local_any, intro emits_intro, rule starts_try_later, rule local_any, intro emits_intro,
        rule starts_try_later, rule local_any, intro emits_intro, rule starts_try_later, rule local_any, intro emits_intro,
        rule starts_try_first [OF traced_starts [OF start_queue_manager_starts]], rule local_any, unfold getenv_on_def, intro emits_intro)
qed

lemma Ready_Set_traces:
  "traces (\<lambda>r es. list_all local_event es \<and> ((\<exists>y. r = Some (Inr y)) \<longrightarrow> es = [Wrote readyFile])) (step x Ready_Set)"
proof -
  have "traces (\<lambda>r es. list_all local_event es \<and> ((\<exists>y. Some r = Some (Inr y)) \<longrightarrow> es = [Wrote readyFile])) Ready_Set"
    by (rule tracesI) (auto simp: Ready_Set_def os_WriteFile_def change_def query_run split: sum.splits option.splits)
  then show ?thesis
    unfolding step_def step_res_def
    by (rule traces_on_error [OF traces_lift]) (auto intro: diagnostics_local)
qed

lemma traces_emit_seq: "traces (\<lambda>y es. P y (e # es)) m \<Longrightarrow> traces P (do { emit e; m })"
  by (rule traces_bind [OF traces_emit [where P = "\<lambda>_ es. es = [e]"]]) auto

lemma finish_startup_traces:
  "traces (\<lambda>_ es. \<exists>post. es = [Sent ''startReaping'', Sent ''reapNow'', Sent ''markStartupComplete''] @ post
     \<and> (Received ''signalControl'' \<in> set post \<longrightarrow> prefix [Wrote readyFile, Received ''signalControl''] post)) (finish_startup x)"
  unfolding finish_startup_def
proof (intro traces_emit_seq, rule traces_bind [OF Ready_Set_traces])
  fix r es assume es: "list_all local_event es \<and> ((\<exists>y. r = Some (Inr y)) \<longrightarrow> es = [Wrote readyFile])"
  have "traces (\<lambda>_ fs. fs = (if \<exists>y. r = Some (Inr y) then [Received ''signalControl''] else []))
      (case r of Some (Inr _) \<Rightarrow> emit (Received ''signalControl'') | _ \<Rightarrow> return ())"
    by (intro traces_cases) (auto intro!: traces_return traces_emit)
  then show "traces (\<lambda>_ fs. \<exists>post. Sent ''startReaping'' # Sent ''reapNow'' # Sent ''markStartupComplete'' # es @ fs
        = [Sent ''startReaping'', Sent ''reapNow'', Sent ''markStartupComplete''] @ post
      \<and> (Received ''signalControl'' \<in> set post \<longrightarrow> prefix [Wrote readyFile, Received ''signalControl''] post))
    (do { (case r of Some (Inr _) \<Rightarrow> emit (Received ''signalControl'') | _ \<Rightarrow> return ()); return (True, r) })"
    by (rule traces_bind) (use es in \<open>auto intro!: traces_return simp: local_not_sent split: if_splits\<close>)
qed

lemma run_and_finish_orderly: "orderly (run_and_finish x fl name k kd)"
  unfolding run_and_finish_def
proof (rule traces_bind [OF run_queue_manager_traces], intro traces_cases)
  fix q es y u assume "list_all local_event es \<and> ((\<exists>y. q = Some (Inr y)) \<longrightarrow> started_in name es)" "q = Some y" "y = Inr u"
  then have "list_all local_event es" "started_in name es" by auto
  then show "traces (\<lambda>_ es'. startup_order (es @ es')) (finish_startup x)"
    by (intro traces_mono [OF finish_startup_traces]) (auto simp: startup_order_def started_in_def; blast)
qed (auto intro!: traces_return startup_order_local)

lemma start_up_orderly: "orderly (start_up x fl name)"
  unfolding start_up_def isLogConsoleSourceValid_def getMQLogConsoleSource_def
  by (intro orderly_bind with_mirroring_orderly run_and_finish_orderly traces_cases orderly_return emits_intro)

lemma first_steps_emit [emits_intro]:
  "state_io_rel (emits E) raise_file_limit" "state_io_rel (emits E) (configureLogger lib n)"
  "E (Removed readyFile) \<Longrightarrow> E (Removed readyToSyncFile) \<Longrightarrow> state_io_rel (emits E) Clear"
  unfolding raise_file_limit_def setNoFileSoftLimitEqualToHardLimit_def configureLogger_def getLogFormat_def getDebug_def NewLogger_def
    Clear_def clearFile_def fileExists_def Let_def
  by (intro emits_intro; simp)+


section \<open>Errors\<close>

text \<open>A program that has logged what it returns as its error, perhaps after some other text.\<close>

definition error_logged :: "'a res \<Rightarrow> event list \<Rightarrow> bool" where
  "error_logged r es \<longleftrightarrow> (\<forall>e. r = Some (Inl e) \<longrightarrow> (\<exists>pre. Log ERROR (pre @ error_text e) \<in> set es))"

abbreviation reports :: "'a res io \<Rightarrow> bool" where "reports m \<equiv> traces error_logged m"

lemma error_logged_ok [simp]: "error_logged (Some (Inr y)) es" "error_logged None es"
  by (simp_all add: error_logged_def)

lemma error_logged_before: "error_logged r es \<Longrightarrow> error_logged r (ds @ es)"
  by (auto simp: error_logged_def)

lemma reports_seq:
  assumes "state_io_rel (emits (\<lambda>_. True)) m" "\<And>y. reports (k y)"
  shows "reports (State_Monad.bind m k)"
  by (rule traces_seq [OF assms(1)]) (auto intro: traces_mono [OF assms(2)] error_logged_before)

lemma reports_try:
  assumes "reports m" "\<And>y. reports (k y)"
  shows "reports (try_res m k)"
proof (rule traces_try [OF assms(1)])
  show "traces (\<lambda>z es'. error_logged z (es @ es')) (k y)" for y es
    by (rule traces_mono [OF assms(2)]) (rule error_logged_before)
qed (auto simp: error_logged_def)

lemma reports_ok: "reports (ok y)" "reports panic"
  by (auto intro!: traces_return)

lemma reports_for: "(\<And>s p. reports (f s p)) \<Longrightarrow> reports (for_res f s ps)"
  by (induction ps arbitrary: s) (auto intro: reports_ok reports_try)

lemma reports_logged: "reports (do { log_Error (pre @ error_text e); fail e })"
  unfolding log_Error_def by (intro traces_emit_seq traces_return) (auto simp: error_logged_def)

lemma logTermination_traces: "traces (\<lambda>_ es. Log ERROR m \<in> set es) (logTermination lib m)"
proof -
  have diag: "traces (\<lambda>_ es. Log ERROR m \<in> set (es0 @ Log ERROR m # es)) (do { c \<leftarrow> ask collectDiagOnFail; if c then logDiagnostics lib else return () })"
    for es0
    by (rule traces_mono [OF traces_any [OF local_any]]) (intro emits_intro, simp)
  show ?thesis
    unfolding logTermination_def log_Error_def
    by (rule traces_seq, intro emits_intro TrueI, rule traces_seq, intro emits_intro TrueI, rule traces_seq, intro emits_intro TrueI,
        rule traces_emit_seq) (use diag in \<open>simp add: append_assoc [symmetric] del: append_assoc\<close>)
qed

lemma reports_logTermination: "reports (do { logTermination lib (pre @ error_text e); fail e })"
  by (rule traces_bind [OF logTermination_traces], rule traces_return) (auto simp: error_logged_def)

lemma reports_step_res:
  assumes "state_io_rel (emits local_event) m"
  shows "reports (step_res x m)"
  unfolding step_res_def on_error_def
  by (rule reports_seq [OF local_any [OF assms]], intro traces_cases)
    (use reports_logTermination [where pre = "[]"] in \<open>auto intro: reports_ok\<close>)

lemma reports_step: "state_io_rel (emits local_event) m \<Longrightarrow> reports (step x m)"
  unfolding step_def by (intro reports_step_res emits_intro)

lemmas reports_rules = reports_try reports_ok reports_for reports_step_res reports_step traces_cases

lemma traced_reports:
  assumes "reports m"
  shows "reports (traced x v m)"
proof -
  have "reports (step x startMQTrace)" "reports (step x endMQTrace)"
    unfolding startMQTrace_def endMQTrace_def by (intro reports_step emits_intro)+
  then show ?thesis
    unfolding traced_def getenv_on_def
    by (intro reports_seq) (auto intro!: emits_intro reports_try reports_ok assms)
qed

lemma when_mirrored_reports: "reports m \<Longrightarrow> reports (when_mirrored s m)"
  unfolding when_mirrored_def checkLogSourceForMirroring_def getMQLogConsoleSource_def
  by (rule reports_seq, rule local_any, intro emits_intro, intro traces_cases reports_ok)

lemma parts_report:
  "reports (prepare_volumes x)" "reports (prepare_files x fl)" "reports (configure_tls x fl)" "reports (web_and_ha x name k kd)"
  "reports (mirror_queue_manager x fl name b)" "reports (start_queue_manager x fl name)"
  unfolding prepare_volumes_def prepare_files_def configure_tls_def web_and_ha_def mirror_queue_manager_def start_queue_manager_def steps_def
  by (intro reports_rules when_mirrored_reports reports_seq local_any emits_intro)+

lemma run_queue_manager_reports: "reports (run_queue_manager x fl name k kd)"
  unfolding run_queue_manager_def getenv_on_def
  by (intro reports_rules parts_report traced_reports reports_seq local_any emits_intro)

text \<open>The same for a program whose result comes with the mark that the start-up is complete.\<close>

abbreviation reports_marked :: "(bool \<times> 'a res) io \<Rightarrow> bool" where
  "reports_marked m \<equiv> traces (\<lambda>(_, r). error_logged r) m"

lemma error_logged_after: "error_logged r es \<Longrightarrow> error_logged r (es @ fs)"
  by (fastforce simp: error_logged_def)

lemma marked_seq:
  assumes "state_io_rel (emits local_event) m" "\<And>y. reports_marked (k y)"
  shows "reports_marked (State_Monad.bind m k)"
proof (rule traces_seq [OF local_any [OF assms(1)]])
  show "traces (\<lambda>z es'. (\<lambda>(_, r). error_logged r) z (es @ es')) (k y)" for y es
    by (rule traces_mono [OF assms(2)]) (auto intro: error_logged_before)
qed

lemma marked_case:
  assumes "reports m" "\<And>y. reports_marked (k y)"
  shows "reports_marked (do {
      r \<leftarrow> m;
      case r of
        None \<Rightarrow> return (False, None)
      | Some (Inl err) \<Rightarrow> return (False, Some (Inl err))
      | Some (Inr y) \<Rightarrow> k y
    })"
proof (rule traces_bind [OF assms(1)], intro traces_cases)
  show "traces (\<lambda>z es'. (\<lambda>(_, r). error_logged r) z (es @ es')) (k y)" for y es
    by (rule traces_mono [OF assms(2)]) (auto intro: error_logged_before)
qed (auto intro!: traces_return simp: error_logged_def)

lemma finish_startup_reports: "reports_marked (finish_startup x)"
proof -
  have set: "reports (step x Ready_Set)" unfolding Ready_Set_def by (intro reports_step emits_intro)
  have "reports_marked (do {
      r \<leftarrow> step x Ready_Set;
      (case r of Some (Inr _) \<Rightarrow> emit (Received ''signalControl'') | _ \<Rightarrow> return ());
      return (True, r)
    })"
    by (rule traces_bind [OF set], rule traces_bind [where Q = "\<lambda>_ _. True"])
      (auto intro!: traces_cases traces_return traces_emit error_logged_after)
  then show ?thesis
    unfolding finish_startup_def by (intro traces_emit_seq) (auto elim!: traces_mono simp: error_logged_def)
qed

lemma with_mirroring_reports: "reports_marked m \<Longrightarrow> reports_marked (with_mirroring m)"
  unfolding with_mirroring_def
  by (erule traces_bind, rule traces_seq, (auto intro!: emits_intro)[1], intro traces_emit_seq, rule traces_seq, (auto intro!: emits_intro)[1])
    (auto intro!: traces_return error_logged_after)

lemma start_up_reports: "reports_marked (start_up x fl name)"
proof -
  have first: "reports (try_res (if noLogRuntimeFlag fl then ok () else step_res x (LogContainerDetails (ext_platform x))) (\<lambda>_.
      try_res (prepare_volumes x) (\<lambda>_. try_res (prepare_files x fl) (\<lambda>_.
      traced x ''MQ_ENABLE_TRACE_CRTMQDIR'' (step x (createDirStructure (logDiagnostics (ext_lib x))))))))"
    by (intro reports_rules parts_report traced_reports emits_intro)
  have run: "reports_marked (run_and_finish x fl name k kd)" for k kd
    unfolding run_and_finish_def by (intro marked_case run_queue_manager_reports finish_startup_reports)
  show ?thesis
    unfolding start_up_def isLogConsoleSourceValid_def getMQLogConsoleSource_def
    by (rule marked_case [OF first])
      (auto intro!: traces_return marked_seq marked_case parts_report with_mirroring_reports run emits_intro split: prod.split)
qed

lemma with_signal_handler_reports:
  assumes "reports_marked m"
  shows "reports (with_signal_handler m)"
proof -
  have "reports (do {
      (startupMarkedComplete, r) \<leftarrow> m;
      (if \<not> startupMarkedComplete then emit (Sent ''markStartupComplete'') else return ());
      return r
    })"
    by (rule traces_bind [OF assms]) (auto intro!: traces_seq emits_intro traces_return error_logged_after)
  then show ?thesis
    unfolding with_signal_handler_def
    by - (rule reports_seq, intro emits_intro TrueI, rule reports_seq, intro emits_intro, simp, assumption)
qed

lemma license_gate_reports:
  assumes "reports m"
  shows "reports (license_gate x m)"
proof -
  have "reports (do { logTermination (ext_lib x) ''License not accepted''; fail (Errorf ''License not accepted'') } :: unit res io)"
    using reports_logTermination [where pre = "[]" and e = "Errorf ''License not accepted''"] by simp
  then have "reports (case r of
       Inl err \<Rightarrow> do {
         logTermination (ext_lib x) (''Error checking license acceptance: '' @ error_text err);
         fail err
       }
     | Inr accepted \<Rightarrow>
         if \<not> accepted then do {
           logTermination (ext_lib x) ''License not accepted'';
           fail (Errorf ''License not accepted'')
         } else m)" for r :: "error + bool"
    using assms by (intro traces_sum reports_logTermination) simp_all
  then show ?thesis
    unfolding license_gate_def by (intro reports_seq local_any) (intro emits_intro)
qed

lemma checks_report:
  "reports raise_file_limit" "reports (show_info x)" "reports (step x Clear)"
  unfolding raise_file_limit_def setNoFileSoftLimitEqualToHardLimit_def show_info_def
  by (intro reports_seq traces_cases reports_ok emits_intro TrueI, simp)
    (intro reports_seq traces_cases reports_ok reports_step local_any emits_intro)+

text \<open>
  C18: No error of the start-up is lost: whenever \<open>doMain\<close> returns an error, its text is in the log as an error.
\<close>

theorem doMain_reports_errors:
  "\<exists>es. trace (final (doMain x fl) w) = trace w @ es \<and> error_logged (result (doMain x fl) w) es"
proof -
  have accepted: "reports (do { log_Printf m; with_signal_handler (start_up x fl name) })" for m name
    by (rule reports_seq [OF local_any with_signal_handler_reports [OF start_up_reports]]) (intro emits_intro)
  have named: "reports (case n of
      Inl nameErr \<Rightarrow> do { logTermination (ext_lib x) ''<nil>''; ok () }
    | Inr name \<Rightarrow> try_res (step x Clear) (\<lambda>_. license_gate x (do {
          log_Printf (''Using queue manager name: '' @ name);
          with_signal_handler (start_up x fl name)
        })))" for n :: "error + string"
    by (intro traces_sum reports_try checks_report license_gate_reports accepted) (intro reports_seq reports_ok local_any emits_intro)
  have single: "reports (case r of
      Inl err \<Rightarrow> do { log_Error (error_text err); fail err }
    | Inr _ \<Rightarrow> (case n of
      Inl nameErr \<Rightarrow> do { logTermination (ext_lib x) ''<nil>''; ok () }
    | Inr name \<Rightarrow> try_res (step x Clear) (\<lambda>_. license_gate x (do {
          log_Printf (''Using queue manager name: '' @ name);
          with_signal_handler (start_up x fl name)
        }))))" for r :: "error + unit" and n :: "error + string"
    by (rule traces_sum, rule reports_logged [where pre = "[]", unfolded append_Nil], rule named)
  have "reports (doMain x fl)"
    unfolding doMain_def
    by (rule reports_try [OF checks_report(1)], rule reports_seq, rule local_any, intro emits_intro, rule reports_seq, rule local_any, intro emits_intro,
        intro traces_sum traces_if reports_ok checks_report, rule reports_seq [OF local_any single], intro emits_intro)
  then show ?thesis by (rule tracesD [OF _ prod.collapse [symmetric]]) blast
qed

section \<open>The licence\<close>

text \<open>What may happen before the licence has been accepted: nothing is created, started or announced.\<close>

fun before_license :: "event \<Rightarrow> bool" where
  "before_license (Log l m) \<longleftrightarrow> True"
| "before_license (Exec c args rc) \<longleftrightarrow> c \<in> {''pgrep'', ''dspmqver'', ''/opt/mqm/bin/ffstsummary''}"
| "before_license (Wrote p) \<longleftrightarrow> p = termination_log"
| "before_license (Removed p) \<longleftrightarrow> p \<in> {readyFile, readyToSyncFile}"
| "before_license e \<longleftrightarrow> False"

text \<open>A program that does no more than that as long as the licence is not accepted.\<close>

definition gated :: "world \<Rightarrow> world \<Rightarrow> bool" where
  "gated w w' \<longleftrightarrow> (map_of (env w) ''LICENSE'' \<noteq> Some ''accept'' \<longrightarrow> emits before_license w w' \<and> env w' = env w)"

interpretation gt: kept gated
proof
  show "gated w w" for w by (simp add: gated_def em.R_refl)
  show "gated w u" if "gated w v" "gated v u" for w v u
    using that em.R_trans [of before_license w v u] by (auto simp: gated_def)
qed

lemma gatedI: "state_io_rel (emits before_license) m \<Longrightarrow> state_io_rel same_env m \<Longrightarrow> state_io_rel gated m"
  by (auto simp: state_io_rel_def gated_def same_env_def)

lemma logTermination_keeps:
  "state_io_rel (emits before_license) (logTermination lib m)" "state_io_rel same_env (logTermination lib m)"
proof -
  have each_env: "(\<And>y. state_io_rel same_env (f y)) \<Longrightarrow> state_io_rel same_env (each f xs)" for f :: "string \<Rightarrow> unit io" and xs
    by (induction xs) (auto intro!: env_intro)
  show "state_io_rel (emits before_license) (logTermination lib m)" "state_io_rel same_env (logTermination lib m)"
    unfolding logTermination_def logDiagnostics_def getDebug_def logPathPermissions_def log_child_def logFilePermission_def logFDCSummary_def
    by (intro emits_intro; simp) (intro env_intro each_env)
qed

lemma license_gate_gated: "state_io_rel gated (license_gate x m)"
proof (rule state_io_relI)
  fix r w w' assume run: "run_state (license_gate x m) w = (r, w')"
  show "gated w w'"
    unfolding gated_def
  proof
    assume "map_of (env w) ''LICENSE'' \<noteq> Some ''accept''"
    then have not: "result checkLicense w \<noteq> Inr True" by (simp add: checkLicense_accept)
    let ?refuse = "\<lambda>r :: error + bool. case r of
        Inl err \<Rightarrow> do { logTermination (ext_lib x) (''Error checking license acceptance: '' @ error_text err); fail err }
      | Inr _ \<Rightarrow> do { logTermination (ext_lib x) ''License not accepted''; fail (Errorf ''License not accepted'') }"
    have refused: "run_state (do { r \<leftarrow> checkLicense; ?refuse r }) w = (r, w')"
      using run not by (auto simp: license_gate_def split: prod.splits sum.splits)
    have "state_io_rel (emits before_license) (do { r \<leftarrow> checkLicense; ?refuse r })"
      by (intro emits_intro logTermination_keeps) simp
    with refused have "emits before_license w w'" by blast
    moreover have "state_io_rel same_env (do { r \<leftarrow> checkLicense; ?refuse r })"
      unfolding checkLicense_def resolveLicenseFile_def by (intro env_intro logTermination_keeps)
    with refused have "same_env w w'" by blast
    ultimately show "emits before_license w w' \<and> env w' = env w" by (simp add: same_env_def)
  qed
qed

lemma checks_gated:
  "state_io_rel gated raise_file_limit" "state_io_rel gated GetQueueManagerName" "state_io_rel gated (configureLogger lib n)"
  "state_io_rel gated (show_info x)" "state_io_rel gated verifySingleProcess" "state_io_rel gated (step x Clear)"
proof -
  have details: "state_io_rel same_env (LogContainerDetails pf)" for pf by (rule quiet_env [OF LogContainerDetails_quiet])
  show "state_io_rel gated raise_file_limit" "state_io_rel gated GetQueueManagerName" "state_io_rel gated (configureLogger lib n)"
    by (rule gatedI, intro emits_intro,
        (unfold raise_file_limit_def setNoFileSoftLimitEqualToHardLimit_def GetQueueManagerName_def configureLogger_def getLogFormat_def
          getDebug_def NewLogger_def Let_def, intro env_intro; simp))+
  show "state_io_rel gated (show_info x)"
    unfolding show_info_def logVersionInfo_def logDateStamp_def logGitRepo_def logGitCommit_def logImageTag_def logMQVersion_def log_on_error_def
      Version_Get_def
    by (rule gatedI; intro emits_intro env_intro details; simp)
  show "state_io_rel gated verifySingleProcess"
    unfolding verifySingleProcess_def determineExecutable_def verifyOnlyOne_def
    by (rule gatedI; intro emits_intro env_intro; simp)
  show "state_io_rel gated (step x Clear)"
    unfolding step_def step_res_def Clear_def clearFile_def fileExists_def
    by (rule gatedI; intro emits_intro env_intro logTermination_keeps; simp)
qed

text \<open>
  C3: Without the acceptance of the licence nothing is started: unless the variable \<open>LICENSE\<close> is \<open>accept\<close>, the program runs no command of MQ but
  \<open>dspmqver\<close> (and the summary of diagnostics), writes no file but the termination log, removes nothing but the readiness files, and
  starts no thread.
\<close>

theorem license_required:
  assumes "map_of (env w) ''LICENSE'' \<noteq> Some ''accept''"
  shows "\<exists>es. trace (final (doMain x fl) w) = trace w @ es \<and> list_all before_license es"
proof -
  have "state_io_rel gated (doMain x fl)"
    unfolding doMain_def
    by (intro gt.io_res_rules gt.io_rules checks_gated license_gate_gated gatedI [OF logTermination_keeps])
      (rule gatedI; intro emits_intro env_intro; simp)
  then have "gated w (final (doMain x fl) w)" by (simp add: state_io_rel_def)
  with assms show ?thesis by (auto simp: gated_def emits_def)
qed

definition example_externals :: externals where
  "example_externals = \<lparr>ext_lib = example_lib, ext_crypto = example_crypto, ext_platform = example_platform,
     ext_render = (\<lambda>_ _. Inr (''x'', None)), ext_order = (\<lambda>xs. xs), ext_imageCreated = [], ext_imageTag = []\<rparr>"

definition example_flags :: flags where
  "example_flags = \<lparr>initFlag = False, infoFlag = False, noLogRuntimeFlag = True, devFlag = False\<rparr>"

theorem license_required_witness:
  "\<exists>es. trace (final (doMain example_externals example_flags) base_world) = es \<and> list_all before_license es"
proof -
  have "map_of (env base_world) ''LICENSE'' \<noteq> Some ''accept''" "trace base_world = []" by code_simp+
  with license_required [of base_world example_externals example_flags] show ?thesis by simp
qed


end
