(* ===== verification/Metric_Names.thy ===== *)
theory Metric_Names
  imports Go_Strings
begin

text \<open>
  The names under which the metrics of a queue manager are published (\<open>internal/metrics/mapping.go\<close>): a map from the key
  of a metric, made of its class, type and description, to its name and whether it is enabled.
\<close>

record metricLookup =
  lookup_name :: string
  enabled :: bool

definition generateMetricNamesMap :: "(string \<times> metricLookup) list" where
  "generateMetricNamesMap = [
    (''CPU/SystemSummary/CPU load - one minute average'', \<lparr>lookup_name = ''cpu_load_one_minute_average_percentage'', enabled = True\<rparr>),
    (''CPU/SystemSummary/CPU load - five minute average'', \<lparr>lookup_name = ''cpu_load_five_minute_average_percentage'', enabled = True\<rparr>),
    (''CPU/SystemSummary/CPU load - fifteen minute average'', \<lparr>lookup_name = ''cpu_load_fifteen_minute_average_percentage'', enabled = True\<rparr>),
    (''CPU/SystemSummary/System CPU time percentage'', \<lparr>lookup_name = ''system_cpu_time_percentage'', enabled = True\<rparr>),
    (''CPU/SystemSummary/User CPU time percentage'', \<lparr>lookup_name = ''user_cpu_time_percentage'', enabled = True\<rparr>),
    (''CPU/SystemSummary/RAM free percentage'', \<lparr>lookup_name = ''ram_free_percentage'', enabled = True\<rparr>),
    (''CPU/SystemSummary/RAM total bytes'', \<lparr>lookup_name = ''system_ram_size_bytes'', enabled = False\<rparr>),
    (''CPU/QMgrSummary/System CPU time - percentage estimate for queue manager'', \<lparr>lookup_name = ''system_cpu_time_estimate_for_queue_manager_percentage'', enabled = True\<rparr>),
    (''CPU/QMgrSummary/User CPU time - percentage estimate for queue manager'', \<lparr>lookup_name = ''user_cpu_time_estimate_for_queue_manager_percentage'', enabled = True\<rparr>),
    (''CPU/QMgrSummary/RAM total bytes - estimate for queue manager'', \<lparr>lookup_name = ''ram_usage_estimate_for_queue_manager_bytes'', enabled = True\<rparr>),
    (''DISK/SystemSummary/MQ trace file system - free space'', \<lparr>lookup_name = ''trace_file_system_free_space_percentage'', enabled = True\<rparr>),
    (''DISK/SystemSummary/MQ trace file system - bytes in use'', \<lparr>lookup_name = ''trace_file_system_in_use_bytes'', enabled = True\<rparr>),
    (''DISK/SystemSummary/MQ errors file system - free space'', \<lparr>lookup_name = ''errors_file_system_free_space_percentage'', enabled = True\<rparr>),
    (''DISK/SystemSummary/MQ errors file system - bytes in use'', \<lparr>lookup_name = ''errors_file_system_in_use_bytes'', enabled = True\<rparr>),
    (''DISK/SystemSummary/MQ FDC file count'', \<lparr>lookup_name = ''fdc_files'', enabled = True\<rparr>),
    (''DISK/QMgrSummary/Queue Manager file system - free space'', \<lparr>lookup_name = ''queue_manager_file_system_free_space_percentage'', enabled = True\<rparr>),
    (''DISK/QMgrSummary/Queue Manager file system - bytes in use'', \<lparr>lookup_name = ''queue_manager_file_system_in_use_bytes'', enabled = True\<rparr>),
    (''DISK/Log/Log - logical bytes written'', \<lparr>lookup_name = ''log_logical_written_bytes_total'', enabled = True\<rparr>),
    (''DISK/Log/Log - physical bytes written'', \<lparr>lookup_name = ''log_physical_written_bytes_total'', enabled = True\<rparr>),
    (''DISK/Log/Log - current primary space in use'', \<lparr>lookup_name = ''log_primary_space_in_use_percentage'', enabled = True\<rparr>),
    (''DISK/Log/Log - workload primary space utilization'', \<lparr>lookup_name = ''log_workload_primary_space_utilization_percentage'', enabled = True\<rparr>),
    (''DISK/Log/Log - write latency'', \<lparr>lookup_name = ''log_write_latency_seconds'', enabled = True\<rparr>),
    (''DISK/Log/Log - bytes max'', \<lparr>lookup_name = ''log_max_bytes'', enabled = True\<rparr>),
    (''DISK/Log/Log - write size'', \<lparr>lookup_name = ''log_write_size_bytes'', enabled = True\<rparr>),
    (''DISK/Log/Log - bytes in use'', \<lparr>lookup_name = ''log_in_use_bytes'', enabled = True\<rparr>),
    (''DISK/Log/Log file system - bytes max'', \<lparr>lookup_name = ''log_file_system_max_bytes'', enabled = True\<rparr>),
    (''DISK/Log/Log file system - bytes in use'', \<lparr>lookup_name = ''log_file_system_in_use_bytes'', enabled = True\<rparr>),
    (''DISK/Log/Log file system - free space'', \<lparr>lookup_name = ''log_file_system_free_space_percentage'', enabled = True\<rparr>),
    (''DISK/Log/Log - bytes occupied by reusable extents'', \<lparr>lookup_name = ''log_occupied_by_reusable_extents_bytes'', enabled = True\<rparr>),
    (''DISK/Log/Log - bytes occupied by extents waiting to be archived'', \<lparr>lookup_name = ''log_occupied_by_extents_waiting_to_be_archived_bytes'', enabled = True\<rparr>),
    (''DISK/Log/Log - bytes required for media recovery'', \<lparr>lookup_name = ''log_required_for_media_recovery_bytes'', enabled = True\<rparr>),
    (''DISK/Log/Log - disk written log sequence number'', \<lparr>lookup_name = ''log_sequence_number_disk_total'', enabled = True\<rparr>),
    (''DISK/Log/Log - quorum log sequence number'', \<lparr>lookup_name = ''log_sequence_number_quorum_total'', enabled = True\<rparr>),
    (''DISK/Log/Log - timestamp of slowest write'', \<lparr>lookup_name = ''log_slowest_write_timestamp_seconds'', enabled = True\<rparr>),
    (''DISK/Log/Log - slowest write since restart'', \<lparr>lookup_name = ''log_slowest_write_since_restart_seconds'', enabled = True\<rparr>),
    (''STATMQI/SUBSCRIBE/Create durable subscription count'', \<lparr>lookup_name = ''durable_subscription_create_total'', enabled = True\<rparr>),
    (''STATMQI/SUBSCRIBE/Alter durable subscription count'', \<lparr>lookup_name = ''durable_subscription_alter_total'', enabled = True\<rparr>),
    (''STATMQI/SUBSCRIBE/Resume durable subscription count'', \<lparr>lookup_name = ''durable_subscription_resume_total'', enabled = True\<rparr>),
    (''STATMQI/SUBSCRIBE/Delete durable subscription count'', \<lparr>lookup_name = ''durable_subscription_delete_total'', enabled = True\<rparr>),
    (''STATMQI/SUBSCRIBE/Create non-durable subscription count'', \<lparr>lookup_name = ''non_durable_subscription_create_total'', enabled = True\<rparr>),
    (''STATMQI/SUBSCRIBE/Delete non-durable subscription count'', \<lparr>lookup_name = ''non_durable_subscription_delete_total'', enabled = True\<rparr>),
    (''STATMQI/SUBSCRIBE/Failed create/alter/resume subscription count'', \<lparr>lookup_name = ''failed_subscription_create_alter_resume_total'', enabled = True\<rparr>),
    (''STATMQI/SUBSCRIBE/Subscription delete failure count'', \<lparr>lookup_name = ''failed_subscription_delete_total'', enabled = True\<rparr>),
    (''STATMQI/SUBSCRIBE/MQSUBRQ count'', \<lparr>lookup_name = ''mqsubrq_total'', enabled = True\<rparr>),
    (''STATMQI/SUBSCRIBE/Failed MQSUBRQ count'', \<lparr>lookup_name = ''failed_mqsubrq_total'', enabled = True\<rparr>),
    (''STATMQI/SUBSCRIBE/Durable subscriber - high water mark'', \<lparr>lookup_name = ''durable_subscriber_high_water_mark'', enabled = False\<rparr>),
    (''STATMQI/SUBSCRIBE/Durable subscriber - low water mark'', \<lparr>lookup_name = ''durable_subscriber_low_water_mark'', enabled = False\<rparr>),
    (''STATMQI/SUBSCRIBE/Non-durable subscriber - high water mark'', \<lparr>lookup_name = ''non_durable_subscriber_high_water_mark'', enabled = False\<rparr>),
    (''STATMQI/SUBSCRIBE/Non-durable subscriber - low water mark'', \<lparr>lookup_name = ''non_durable_subscriber_low_water_mark'', enabled = False\<rparr>),
    (''STATMQI/PUBLISH/Topic MQPUT/MQPUT1 interval total'', \<lparr>lookup_name = ''topic_mqput_mqput1_total'', enabled = True\<rparr>),
    (''STATMQI/PUBLISH/Interval total topic bytes put'', \<lparr>lookup_name = ''topic_put_bytes_total'', enabled = True\<rparr>),
    (''STATMQI/PUBLISH/Failed topic MQPUT/MQPUT1 count'', \<lparr>lookup_name = ''failed_topic_mqput_mqput1_total'', enabled = True\<rparr>),
    (''STATMQI/PUBLISH/Persistent - topic MQPUT/MQPUT1 count'', \<lparr>lookup_name = ''persistent_topic_mqput_mqput1_total'', enabled = True\<rparr>),
    (''STATMQI/PUBLISH/Non-persistent - topic MQPUT/MQPUT1 count'', \<lparr>lookup_name = ''non_persistent_topic_mqput_mqput1_total'', enabled = True\<rparr>),
    (''STATMQI/PUBLISH/Published to subscribers - message count'', \<lparr>lookup_name = ''published_to_subscribers_message_total'', enabled = True\<rparr>),
    (''STATMQI/PUBLISH/Published to subscribers - byte count'', \<lparr>lookup_name = ''published_to_subscribers_bytes_total'', enabled = True\<rparr>),
    (''STATMQI/CONNDISC/MQCONN/MQCONNX count'', \<lparr>lookup_name = ''mqconn_mqconnx_total'', enabled = True\<rparr>),
    (''STATMQI/CONNDISC/Failed MQCONN/MQCONNX count'', \<lparr>lookup_name = ''failed_mqconn_mqconnx_total'', enabled = True\<rparr>),
    (''STATMQI/CONNDISC/MQDISC count'', \<lparr>lookup_name = ''mqdisc_total'', enabled = True\<rparr>),
    (''STATMQI/CONNDISC/Concurrent connections - high water mark'', \<lparr>lookup_name = ''concurrent_connections_high_water_mark'', enabled = False\<rparr>),
    (''STATMQI/OPENCLOSE/MQOPEN count'', \<lparr>lookup_name = ''mqopen_total'', enabled = True\<rparr>),
    (''STATMQI/OPENCLOSE/Failed MQOPEN count'', \<lparr>lookup_name = ''failed_mqopen_total'', enabled = True\<rparr>),
    (''STATMQI/OPENCLOSE/MQCLOSE count'', \<lparr>lookup_name = ''mqclose_total'', enabled = True\<rparr>),
    (''STATMQI/OPENCLOSE/Failed MQCLOSE count'', \<lparr>lookup_name = ''failed_mqclose_total'', enabled = True\<rparr>),
    (''STATMQI/INQSET/MQINQ count'', \<lparr>lookup_name = ''mqinq_total'', enabled = True\<rparr>),
    (''STATMQI/INQSET/Failed MQINQ count'', \<lparr>lookup_name = ''failed_mqinq_total'', enabled = True\<rparr>),
    (''STATMQI/INQSET/MQSET count'', \<lparr>lookup_name = ''mqset_total'', enabled = True\<rparr>),
    (''STATMQI/INQSET/Failed MQSET count'', \<lparr>lookup_name = ''failed_mqset_total'', enabled = True\<rparr>),
    (''STATMQI/PUT/Persistent message MQPUT count'', \<lparr>lookup_name = ''persistent_message_mqput_total'', enabled = True\<rparr>),
    (''STATMQI/PUT/Persistent message MQPUT1 count'', \<lparr>lookup_name = ''persistent_message_mqput1_total'', enabled = True\<rparr>),
    (''STATMQI/PUT/Put persistent messages - byte count'', \<lparr>lookup_name = ''persistent_message_put_bytes_total'', enabled = True\<rparr>),
    (''STATMQI/PUT/Non-persistent message MQPUT count'', \<lparr>lookup_name = ''non_persistent_message_mqput_total'', enabled = True\<rparr>),
    (''STATMQI/PUT/Non-persistent message MQPUT1 count'', \<lparr>lookup_name = ''non_persistent_message_mqput1_total'', enabled = True\<rparr>),
    (''STATMQI/PUT/Put non-persistent messages - byte count'', \<lparr>lookup_name = ''non_persistent_message_put_bytes_total'', enabled = True\<rparr>),
    (''STATMQI/PUT/Interval total MQPUT/MQPUT1 count'', \<lparr>lookup_name = ''mqput_mqput1_total'', enabled = True\<rparr>),
    (''STATMQI/PUT/Interval total MQPUT/MQPUT1 byte count'', \<lparr>lookup_name = ''mqput_mqput1_bytes_total'', enabled = True\<rparr>),
    (''STATMQI/PUT/Failed MQPUT count'', \<lparr>lookup_name = ''failed_mqput_total'', enabled = True\<rparr>),
    (''STATMQI/PUT/Failed MQPUT1 count'', \<lparr>lookup_name = ''failed_mqput1_total'', enabled = True\<rparr>),
    (''STATMQI/PUT/MQSTAT count'', \<lparr>lookup_name = ''mqstat_total'', enabled = True\<rparr>),
    (''STATMQI/GET/Persistent message destructive get - count'', \<lparr>lookup_name = ''persistent_message_destructive_get_total'', enabled = True\<rparr>),
    (''STATMQI/GET/Persistent message browse - count'', \<lparr>lookup_name = ''persistent_message_browse_total'', enabled = True\<rparr>),
    (''STATMQI/GET/Got persistent messages - byte count'', \<lparr>lookup_name = ''persistent_message_get_bytes_total'', enabled = True\<rparr>),
    (''STATMQI/GET/Persistent message browse - byte count'', \<lparr>lookup_name = ''persistent_message_browse_bytes_total'', enabled = True\<rparr>),
    (''STATMQI/GET/Non-persistent message destructive get - count'', \<lparr>lookup_name = ''non_persistent_message_destructive_get_total'', enabled = True\<rparr>),
    (''STATMQI/GET/Non-persistent message browse - count'', \<lparr>lookup_name = ''non_persistent_message_browse_total'', enabled = True\<rparr>),
    (''STATMQI/GET/Got non-persistent messages - byte count'', \<lparr>lookup_name = ''non_persistent_message_get_bytes_total'', enabled = True\<rparr>),
    (''STATMQI/GET/Non-persistent message browse - byte count'', \<lparr>lookup_name = ''non_persistent_message_browse_bytes_total'', enabled = True\<rparr>),
    (''STATMQI/GET/Interval total destructive get- count'', \<lparr>lookup_name = ''destructive_get_total'', enabled = True\<rparr>),
    (''STATMQI/GET/Interval total destructive get - byte count'', \<lparr>lookup_name = ''destructive_get_bytes_total'', enabled = True\<rparr>),
    (''STATMQI/GET/Failed MQGET - count'', \<lparr>lookup_name = ''failed_mqget_total'', enabled = True\<rparr>),
    (''STATMQI/GET/Failed browse count'', \<lparr>lookup_name = ''failed_browse_total'', enabled = True\<rparr>),
    (''STATMQI/GET/MQCTL count'', \<lparr>lookup_name = ''mqctl_total'', enabled = True\<rparr>),
    (''STATMQI/GET/Expired message count'', \<lparr>lookup_name = ''expired_message_total'', enabled = True\<rparr>),
    (''STATMQI/GET/Purged queue count'', \<lparr>lookup_name = ''purged_queue_total'', enabled = True\<rparr>),
    (''STATMQI/GET/MQCB count'', \<lparr>lookup_name = ''mqcb_total'', enabled = True\<rparr>),
    (''STATMQI/GET/Failed MQCB count'', \<lparr>lookup_name = ''failed_mqcb_total'', enabled = True\<rparr>),
    (''STATMQI/SYNCPOINT/Commit count'', \<lparr>lookup_name = ''commit_total'', enabled = True\<rparr>),
    (''STATMQI/SYNCPOINT/Rollback count'', \<lparr>lookup_name = ''rollback_total'', enabled = True\<rparr>),
    (''NHAREPLICA/REPLICATION/Catch-up log bytes sent'', \<lparr>lookup_name = ''replication_catchup_log_sent_bytes'', enabled = True\<rparr>),
    (''NHAREPLICA/REPLICATION/MQ FDC file count'', \<lparr>lookup_name = ''replication_mq_fdc_file_count'', enabled = True\<rparr>),
    (''NHAREPLICA/REPLICATION/Catch-up log bytes decompressed'', \<lparr>lookup_name = ''replication_catch_up_log_decompressed_bytes'', enabled = True\<rparr>),
    (''NHAREPLICA/REPLICATION/Acknowledged log sequence number'', \<lparr>lookup_name = ''replication_acknowledged_log_sequence_number_total'', enabled = True\<rparr>),
    (''NHAREPLICA/REPLICATION/Log file system - bytes in use'', \<lparr>lookup_name = ''replication_log_file_system_in_use_bytes'', enabled = True\<rparr>),
    (''NHAREPLICA/REPLICATION/Log file system - free space'', \<lparr>lookup_name = ''replication_log_file_system_free_space_percent'', enabled = True\<rparr>),
    (''NHAREPLICA/REPLICATION/Synchronous log bytes sent'', \<lparr>lookup_name = ''replication_synchronous_log_sent_bytes'', enabled = True\<rparr>),
    (''NHAREPLICA/REPLICATION/Log write average acknowledgement size'', \<lparr>lookup_name = ''replication_log_write_average_acknowledgement_size_bytes'', enabled = True\<rparr>),
    (''NHAREPLICA/REPLICATION/Backlog average bytes'', \<lparr>lookup_name = ''replication_backlog_average_bytes'', enabled = True\<rparr>),
    (''NHAREPLICA/REPLICATION/Synchronous compressed log bytes sent'', \<lparr>lookup_name = ''replication_synchronous_compressed_log_sent_bytes'', enabled = True\<rparr>),
    (''NHAREPLICA/REPLICATION/Synchronous uncompressed log bytes sent'', \<lparr>lookup_name = ''replication_synchronous_uncompressed_log_sent_bytes'', enabled = True\<rparr>),
    (''NHAREPLICA/REPLICATION/Synchronous log data average compression time'', \<lparr>lookup_name = ''replication_synchronous_log_data_average_compression_time_seconds'', enabled = True\<rparr>),
    (''NHAREPLICA/REPLICATION/Catch-up log data average compression time'', \<lparr>lookup_name = ''replication_catch_up_log_data_average_compression_time_seconds'', enabled = True\<rparr>),
    (''NHAREPLICA/REPLICATION/Average network round trip time'', \<lparr>lookup_name = ''replication_average_network_round_trip_time_seconds'', enabled = True\<rparr>),
    (''NHAREPLICA/REPLICATION/Synchronous log bytes decompressed'', \<lparr>lookup_name = ''replication_synchronous_log_decompressed_bytes'', enabled = True\<rparr>),
    (''NHAREPLICA/REPLICATION/Synchronous log data average decompression time'', \<lparr>lookup_name = ''replication_synchronous_log_data_average_decompression_time_seconds'', enabled = True\<rparr>),
    (''NHAREPLICA/REPLICATION/Queue Manager file system - free space'', \<lparr>lookup_name = ''replication_queue_manager_file_system_free_space_percent'', enabled = True\<rparr>),
    (''NHAREPLICA/REPLICATION/Catch-up log data average decompression time'', \<lparr>lookup_name = ''replication_catch_up_log_data_average_decompression_time_seconds'', enabled = True\<rparr>),
    (''NHAREPLICA/REPLICATION/Log write average acknowledgement latency'', \<lparr>lookup_name = ''replication_log_write_average_acknowledgement_latency_seconds'', enabled = True\<rparr>),
    (''NHAREPLICA/REPLICATION/Backlog bytes'', \<lparr>lookup_name = ''replication_backlog_bytes'', enabled = True\<rparr>),
    (''NHAREPLICA/REPLICATION/Catch-up compressed log bytes sent'', \<lparr>lookup_name = ''replication_catch_up_compressed_log_sent_bytes'', enabled = True\<rparr>),
    (''NHAREPLICA/REPLICATION/Catch-up uncompressed log bytes sent'', \<lparr>lookup_name = ''replication_catch_up_uncompressed_log_sent_bytes'', enabled = True\<rparr>),
    (''NHAREPLICA/REPLICATION/Queue Manager file system - bytes in use'', \<lparr>lookup_name = ''replication_queue_manager_file_system_in_use_bytes'', enabled = True\<rparr>),
    (''NHAREPLICA/REPLICATION/Backlog long-term average bytes'', \<lparr>lookup_name = ''replication_backlog_long_term_average_bytes'', enabled = True\<rparr>),
    (''NHAREPLICA/REPLICATION/Catch-up time percentage'', \<lparr>lookup_name = ''replication_catch_up_time_percentage'', enabled = True\<rparr>),
    (''NHAREPLICA/REPLICATION/Throttling time percentage'', \<lparr>lookup_name = ''replication_throttling_time_percentage'', enabled = True\<rparr>),
    (''NHAREPLICA/REPLICATION/Log - write latency'', \<lparr>lookup_name = ''replication_log_write_latency_seconds'', enabled = True\<rparr>),
    (''NHAREPLICA/REPLICATION/Log - write size'', \<lparr>lookup_name = ''replication_log_write_size_bytes'', enabled = True\<rparr>),
    (''NHAREPLICA/REPLICATION/Log - slowest write since restart'', \<lparr>lookup_name = ''replication_log_slowest_write_since_restart_seconds'', enabled = True\<rparr>),
    (''NHAREPLICA/REPLICATION/Log - timestamp of slowest write'', \<lparr>lookup_name = ''replication_log_slowest_write_timestamp_seconds'', enabled = True\<rparr>),
    (''NHAREPLICA/RECOVERY/Compressed log bytes sent'', \<lparr>lookup_name = ''recovery_compressed_log_sent_bytes'', enabled = True\<rparr>),
    (''NHAREPLICA/RECOVERY/Backlog average bytes'', \<lparr>lookup_name = ''recovery_backlog_average_bytes'', enabled = True\<rparr>),
    (''NHAREPLICA/RECOVERY/Rebase count'', \<lparr>lookup_name = ''recovery_rebase_count'', enabled = True\<rparr>),
    (''NHAREPLICA/RECOVERY/Average network round trip time'', \<lparr>lookup_name = ''recovery_average_network_round_trip_time_seconds'', enabled = True\<rparr>),
    (''NHAREPLICA/RECOVERY/Log data average compression time'', \<lparr>lookup_name = ''recovery_log_data_average_compression_time_seconds'', enabled = True\<rparr>),
    (''NHAREPLICA/RECOVERY/Log bytes decompressed'', \<lparr>lookup_name = ''recovery_log_decompressed_bytes'', enabled = True\<rparr>),
    (''NHAREPLICA/RECOVERY/Log data average decompression time'', \<lparr>lookup_name = ''recovery_log_data_average_decompression_time_seconds'', enabled = True\<rparr>),
    (''NHAREPLICA/RECOVERY/Log bytes sent'', \<lparr>lookup_name = ''recovery_log_sent_bytes'', enabled = True\<rparr>),
    (''NHAREPLICA/RECOVERY/Backlog bytes'', \<lparr>lookup_name = ''recovery_backlog_bytes'', enabled = True\<rparr>),
    (''NHAREPLICA/RECOVERY/Recovery log sequence number'', \<lparr>lookup_name = ''recovery_recovery_log_sequence_number'', enabled = True\<rparr>)]"

section \<open>The names are distinct and valid\<close>

text \<open>A strictly increasing selection of as many elements as a list has shows that the list has no repetition.\<close>

fun string_less :: "string \<Rightarrow> string \<Rightarrow> bool" where
  "string_less s [] = False"
| "string_less [] (d # t) = True"
| "string_less (c # s) (d # t) = (if c = d then string_less s t else (of_char c :: nat) < of_char d)"

fun increasing :: "string list \<Rightarrow> bool" where
  "increasing (s # t # ss) = (string_less s t \<and> increasing (t # ss))"
| "increasing ss = True"

lemma string_less_trans: "string_less s t \<Longrightarrow> string_less t u \<Longrightarrow> string_less s u"
proof (induction s t arbitrary: u rule: string_less.induct)
  case (2 d t)
  then show ?case by (cases u) auto
next
  case (3 c s d t)
  then show ?case by (cases u) (auto split: if_splits)
qed simp

lemma string_less_irrefl: "\<not> string_less s s"
  by (induction s) auto

lemma increasing_distinct: "increasing ss \<Longrightarrow> distinct ss"
proof -
  assume "increasing ss"
  then have "sorted_wrt string_less ss"
  proof (induction ss rule: increasing.induct)
    case (1 s t ss)
    then show ?case by (auto intro: string_less_trans)
  qed simp_all
  then show ?thesis
    by (induction ss) (auto dest: string_less_irrefl [THEN notE])
qed

lemma distinct_by_order:
  assumes "increasing (map ((!) ss) ix)" "length ix = length ss" "list_all (\<lambda>i. i < length ss) ix"
  shows "distinct ss"
proof -
  have "set (map ((!) ss) ix) \<subseteq> set ss" using assms(3) by (auto simp: list_all_iff)
  then have "card (set (map ((!) ss) ix)) \<le> card (set ss)" by (rule card_mono [OF finite_set])
  moreover have "card (set (map ((!) ss) ix)) = length ss"
    using distinct_card [OF increasing_distinct [OF assms(1)]] assms(2) by simp
  ultimately show ?thesis using card_length [of ss] by (intro card_distinct) simp
qed

definition key_order :: "nat list" where
  "key_order =
    [9, 7, 8, 2, 1, 0, 5, 6, 3, 4, 24, 22, 29, 28, 30, 19, 31, 17, 18, 32, 34, 33, 20, 21, 23, 26, 25, 27, 16, 15,
     14, 13, 12, 11, 10, 131, 129, 136, 128, 133, 135, 132, 134, 130, 137, 101, 111, 106, 117, 121, 118, 100, 98,
     110, 115, 122, 119, 126, 127, 124, 125, 102, 103, 116, 105, 99, 120, 114, 107, 112, 104, 109, 113, 108, 123,
     59, 57, 56, 58, 92, 95, 89, 90, 85, 81, 88, 87, 94, 91, 86, 84, 83, 82, 80, 79, 93, 65, 67, 64, 66, 63, 61,
     62, 60, 51, 50, 53, 52, 55, 54, 49, 76, 77, 75, 74, 78, 71, 72, 68, 69, 73, 70, 36, 35, 39, 38, 40, 45, 46,
     44, 41, 43, 47, 48, 37, 42, 96, 97]"

definition name_order :: "nat list" where
  "name_order =
    [96, 59, 2, 1, 0, 88, 87, 45, 46, 36, 35, 38, 37, 12, 13, 92, 90, 95, 63, 57, 89, 65, 61, 77, 76, 67, 44, 41,
     42, 51, 14, 27, 26, 25, 24, 17, 22, 29, 28, 18, 19, 30, 31, 32, 34, 33, 20, 21, 23, 94, 62, 56, 91, 58, 64,
     60, 75, 74, 66, 78, 43, 47, 48, 39, 40, 86, 84, 83, 85, 72, 71, 73, 53, 82, 80, 79, 81, 69, 68, 70, 52, 55,
     54, 93, 15, 16, 5, 9, 131, 129, 136, 128, 132, 134, 133, 135, 130, 137, 101, 111, 106, 117, 121, 118, 110,
     115, 100, 122, 119, 98, 103, 102, 126, 127, 116, 105, 124, 125, 99, 114, 120, 107, 109, 113, 112, 104, 108,
     123, 97, 7, 3, 6, 49, 50, 10, 11, 8, 4]"

lemma keys_increasing: "increasing (map ((!) (map fst generateMetricNamesMap)) key_order)"
  by code_simp

lemma names_increasing: "increasing (map ((!) (map (\<lambda>e. lookup_name (snd e)) generateMetricNamesMap)) name_order)"
  by code_simp

text \<open>The characters of the names, decided by the bits of a character.\<close>

fun name_char :: "char \<Rightarrow> bool" where
  "name_char (Char b0 b1 b2 b3 b4 b5 b6 b7) =
    (\<not> b7 \<and>
     (if \<not> b6 then b5 \<and> b4 \<and> \<not> (b3 \<and> (b2 \<or> b1))
      else if b5 then (b0 \<or> b1 \<or> b2 \<or> b3 \<or> b4) \<and> \<not> (b4 \<and> b3 \<and> (b2 \<or> b1 \<and> b0))
      else b4 \<and> b3 \<and> b2 \<and> b1 \<and> b0))"

lemma name_char_set: "name_char c \<longleftrightarrow> c \<in> set ''abcdefghijklmnopqrstuvwxyz_0123456789''"
proof (cases c)
  case (Char b0 b1 b2 b3 b4 b5 b6 b7)
  then show ?thesis
    by (cases b0; cases b1; cases b2; cases b3; cases b4; cases b5; cases b6; cases b7) simp_all
qed

lemma names_valid: "list_all (\<lambda>e. list_all name_char (lookup_name (snd e))) generateMetricNamesMap"
  by code_simp

lemma orders_cover:
  "length key_order = length generateMetricNamesMap" "list_all (\<lambda>i. i < length generateMetricNamesMap) key_order"
  "length name_order = length generateMetricNamesMap" "list_all (\<lambda>i. i < length generateMetricNamesMap) name_order"
  by code_simp+

lemmas metric_keys_distinct = distinct_by_order [OF keys_increasing]
lemmas metric_names_distinct = distinct_by_order [OF names_increasing]

lemma names_map_ok:
  "distinct (map fst generateMetricNamesMap)" "distinct (map (\<lambda>e. lookup_name (snd e)) generateMetricNamesMap)"
  by (simp_all add: metric_keys_distinct metric_names_distinct orders_cover)

lemma lookup_name_inj:
  assumes "map_of generateMetricNamesMap k = Some l" "map_of generateMetricNamesMap k' = Some l'"
    and "lookup_name l = lookup_name l'"
  shows "k = k'"
proof -
  have "(k, l) \<in> set generateMetricNamesMap" "(k', l') \<in> set generateMetricNamesMap"
    using assms(1,2) by (auto dest: map_of_SomeD)
  moreover have "inj_on (\<lambda>e. lookup_name (snd e)) (set generateMetricNamesMap)"
    using names_map_ok(2) by (simp add: distinct_map)
  ultimately have "(k, l) = (k', l')" using assms(3) by (auto dest: inj_onD [where x = "(k, l)" and y = "(k', l')"])
  then show ?thesis by simp
qed

lemma lookup_name_chars:
  "map_of generateMetricNamesMap k = Some l \<Longrightarrow> set (lookup_name l) \<subseteq> set ''abcdefghijklmnopqrstuvwxyz_0123456789''"
  using names_valid by (force simp: list_all_iff name_char_set dest: map_of_SomeD)


end
