(* ===== verification/Metrics.thy ===== *)
theory Metrics
  imports Metric_Names Go_Result Logger
begin

text \<open>
  The metrics of a queue manager: which are published and how their values are taken from the publications of the queue
  manager (\<open>internal/metrics/update.go\<close>), and how they are handed to Prometheus (\<open>internal/metrics/exporter.go\<close>).

  The packages \<open>mqmetric\<close> and \<open>prometheus\<close> are outside of the program.  \<open>mqmetric.Metrics\<close> is the list of classes, types and
  elements in the order of one iteration over its maps, \<open>mqmetric.Normalise\<close> and the operations on \<open>float64\<close> values are
  arguments.
\<close>

section \<open>Metric data\<close>

record MonElement =
  Description :: string
  Datatype :: int
  Values :: "(string \<times> int) list"

record MonType =
  MonType_Name :: string
  ObjectTopic :: string
  Elements :: "MonElement list"

record MonClass =
  MonClass_Name :: string
  Types :: "MonType list"

record 'f metricData =
  metric_name :: string
  description :: string
  objectType :: bool
  nhaType :: bool
  metric_values :: "(string \<times> 'f) list"
  isDelta :: bool

type_synonym 'f metrics = "(string \<times> 'f metricData) list"

definition MQIAMO_MONITOR_DELTA :: int where "MQIAMO_MONITOR_DELTA = 2"

text \<open>\<open>metricElement.Parent\<close> is the type and \<open>metricElement.Parent.Parent\<close> the class in which the element is found.\<close>

definition makeKey :: "MonClass \<Rightarrow> MonType \<Rightarrow> MonElement \<Rightarrow> string" where
  "makeKey c t e = MonClass_Name c @ ''/'' @ MonType_Name t @ ''/'' @ Description e"

definition isNHA :: "MonClass \<Rightarrow> bool" where
  "isNHA c \<longleftrightarrow> MonClass_Name c = ''NHAREPLICA''"

definition considered :: "MonClass \<Rightarrow> MonType \<Rightarrow> bool" where
  "considered c t \<longleftrightarrow> isNHA c \<or> \<not> Contains (ObjectTopic t) ''%s''"

section \<open>\<open>initialiseMetrics\<close>\<close>

fun for_io :: "('s \<Rightarrow> 'a \<Rightarrow> 's io) \<Rightarrow> 's \<Rightarrow> 'a list \<Rightarrow> 's io" where
  "for_io body s [] = return s"
| "for_io body s (x # xs) = do { s' \<leftarrow> body s x; for_io body s' xs }"

definition new_metric :: "metricLookup \<Rightarrow> bool \<Rightarrow> MonElement \<Rightarrow> 'f metricData" where
  "new_metric l nha e = \<lparr>metric_name = lookup_name l, description = Description e, objectType = False, nhaType = nha,
     metric_values = [], isDelta = (Datatype e = MQIAMO_MONITOR_DELTA)\<rparr>"

definition initialise_element :: "MonClass \<Rightarrow> MonType \<Rightarrow> 'f metrics \<times> bool \<Rightarrow> MonElement \<Rightarrow> ('f metrics \<times> bool) io" where
  "initialise_element c t s e = (case s of (metrics, validMetrics) \<Rightarrow>
    let key = makeKey c t e in
    (case map_of generateMetricNamesMap key of
       Some metricLookup \<Rightarrow>
         if enabled metricLookup then
           (case map_of metrics key of
              None \<Rightarrow> return (AList.update key (new_metric metricLookup (isNHA c) e) metrics, validMetrics)
            | Some _ \<Rightarrow> do {
                log_Error (''Metrics Error: Found duplicate metric key ['' @ key @ '']'');
                return (metrics, False)
              })
         else do {
           log_Debug (''Metrics: Skipping metric, metric is not enabled for key ['' @ key @ '']'');
           return (metrics, validMetrics)
         }
     | None \<Rightarrow> do {
         log_Printf (''Metrics Warning: Skipping metric, unexpected key ['' @ key @ '']'');
         return (metrics, False)
       }))"

definition initialise_type :: "MonClass \<Rightarrow> 'f metrics \<times> bool \<Rightarrow> MonType \<Rightarrow> ('f metrics \<times> bool) io" where
  "initialise_type c s t = (if considered c t then for_io (initialise_element c t) s (Elements t) else return s)"

definition initialise_class :: "'f metrics \<times> bool \<Rightarrow> MonClass \<Rightarrow> ('f metrics \<times> bool) io" where
  "initialise_class s c = for_io (initialise_type c) s (Types c)"

definition initialiseMetrics :: "MonClass list \<Rightarrow> ('f metrics \<times> error option) io" where
  "initialiseMetrics classes = do {
     (metrics, validMetrics) \<leftarrow> for_io initialise_class ([], True) classes;
     return (metrics, if validMetrics then None else Some (Errorf ''Invalid metrics data''))
   }"

section \<open>\<open>updateMetrics\<close>\<close>

text \<open>A loop over a list whose elements are changed in place.\<close>

fun map_in_place :: "('s \<Rightarrow> 'a \<Rightarrow> 's \<times> 'a) \<Rightarrow> 's \<Rightarrow> 'a list \<Rightarrow> 's \<times> 'a list" where
  "map_in_place f s [] = (s, [])"
| "map_in_place f s (x # xs) = (let (s', y) = f s x; (s'', ys) = map_in_place f s' xs in (s'', y # ys))"

definition update_element ::
  "(MonElement \<Rightarrow> string \<Rightarrow> int \<Rightarrow> 'f) \<Rightarrow> MonClass \<Rightarrow> MonType \<Rightarrow> 'f metrics \<Rightarrow> MonElement \<Rightarrow> 'f metrics \<times> MonElement" where
  "update_element normal c t metrics e =
    (let key = makeKey c t e in
     (case map_of metrics key of
        None \<Rightarrow> metrics
      | Some metric \<Rightarrow>
          AList.update key (metric\<lparr>metric_values := map (\<lambda>(label, v). (label, normal e label v)) (Values e)\<rparr>) metrics,
      e\<lparr>Values := []\<rparr>))"

definition update_type ::
  "(MonElement \<Rightarrow> string \<Rightarrow> int \<Rightarrow> 'f) \<Rightarrow> MonClass \<Rightarrow> 'f metrics \<Rightarrow> MonType \<Rightarrow> 'f metrics \<times> MonType" where
  "update_type normal c metrics t =
    (if considered c t
     then (let (metrics', es) = map_in_place (update_element normal c t) metrics (Elements t) in (metrics', t\<lparr>Elements := es\<rparr>))
     else (metrics, t))"

definition update_class ::
  "(MonElement \<Rightarrow> string \<Rightarrow> int \<Rightarrow> 'f) \<Rightarrow> 'f metrics \<Rightarrow> MonClass \<Rightarrow> 'f metrics \<times> MonClass" where
  "update_class normal metrics c =
    (let (metrics', ts) = map_in_place (update_type normal c) metrics (Types c) in (metrics', c\<lparr>Types := ts\<rparr>))"

definition updateMetrics ::
  "(MonElement \<Rightarrow> string \<Rightarrow> int \<Rightarrow> 'f) \<Rightarrow> 'f metrics \<Rightarrow> MonClass list \<Rightarrow> 'f metrics \<times> MonClass list" where
  "updateMetrics normal metrics classes = map_in_place (update_class normal) metrics classes"
section \<open>What is published\<close>

text \<open>The elements that are looked at, with their keys, in the order of the loops.\<close>

definition elements :: "MonClass list \<Rightarrow> (string \<times> bool \<times> MonElement) list" where
  "elements classes = concat (map (\<lambda>c. concat (map (\<lambda>t.
     if considered c t then map (\<lambda>e. (makeKey c t e, isNHA c, e)) (Elements t) else []) (Types c))) classes)"

text \<open>The metric of a key: made from the first element with the key, where the key has an enabled name.\<close>

definition published :: "(string \<times> bool \<times> MonElement) list \<Rightarrow> string \<Rightarrow> 'f metricData option" where
  "published es k = (case map_of generateMetricNamesMap k of
     Some l \<Rightarrow> if enabled l then map_option (\<lambda>(nha, e). new_metric l nha e) (map_of es k) else None
   | None \<Rightarrow> None)"

definition is_enabled :: "string \<Rightarrow> bool" where
  "is_enabled k \<longleftrightarrow> (case map_of generateMetricNamesMap k of Some l \<Rightarrow> enabled l | None \<Rightarrow> False)"

lemma foldl_concat: "foldl f s (concat xss) = foldl (foldl f) s xss"
  by (induction xss arbitrary: s) auto

lemma foldl_map_arg: "foldl f s (map g xs) = foldl (\<lambda>s x. f s (g x)) s xs"
  by (induction xs arbitrary: s) auto

lemma for_io_result:
  assumes "\<And>s x w. result (body s x) w = g s x"
  shows "result (for_io body s xs) w = foldl g s xs"
proof (induction xs arbitrary: s w)
  case (Cons x xs)
  have "result (for_io body s (x # xs)) w = result (for_io body (result (body s x) w) xs) (final (body s x) w)"
    by (simp add: case_prod_beta)
  with Cons assms show ?case by simp
qed simp

text \<open>The loops without their log messages.\<close>

fun initialise_one :: "'f metrics \<times> bool \<Rightarrow> string \<times> bool \<times> MonElement \<Rightarrow> 'f metrics \<times> bool" where
  "initialise_one (ms, v) (key, nha, e) = (case map_of generateMetricNamesMap key of
     Some l \<Rightarrow>
       if enabled l then
         (case map_of ms key of None \<Rightarrow> (AList.update key (new_metric l nha e) ms, v) | Some _ \<Rightarrow> (ms, False))
       else (ms, v)
   | None \<Rightarrow> (ms, False))"

lemma initialise_element_result: "result (initialise_element c t s e) w = initialise_one s (makeKey c t e, isNHA c, e)"
  by (cases s) (simp add: initialise_element_def Let_def case_prod_beta split: option.split)

lemma initialise_type_result:
  "result (initialise_type c s t) w =
    foldl initialise_one s (if considered c t then map (\<lambda>e. (makeKey c t e, isNHA c, e)) (Elements t) else [])"
  by (simp add: initialise_type_def for_io_result [OF initialise_element_result] foldl_map_arg)

lemma initialise_class_result:
  "result (initialise_class s c) w = foldl initialise_one s (elements [c])"
  by (simp add: initialise_class_def for_io_result [OF initialise_type_result] elements_def foldl_concat foldl_map_arg)

lemma initialise_loop_result: "result (for_io initialise_class s classes) w = foldl initialise_one s (elements classes)"
  by (simp add: for_io_result [OF initialise_class_result] elements_def foldl_concat foldl_map_arg)

lemma initialise_one_cases:
  obtains (add) l where "map_of generateMetricNamesMap k = Some l" "enabled l" "is_enabled k" "map_of ms k = None"
      "initialise_one (ms, v) (k, nha, e) = (AList.update k (new_metric l nha e) ms, v)"
  | (duplicate) l d where "map_of generateMetricNamesMap k = Some l" "is_enabled k" "map_of ms k = Some d"
      "initialise_one (ms, v) (k, nha, e) = (ms, False)"
  | (disabled) l where "map_of generateMetricNamesMap k = Some l" "\<not> enabled l" "\<not> is_enabled k"
      "initialise_one (ms, v) (k, nha, e) = (ms, v)"
  | (unknown) "map_of generateMetricNamesMap k = None" "\<not> is_enabled k" "initialise_one (ms, v) (k, nha, e) = (ms, False)"
proof (cases "map_of generateMetricNamesMap k")
  case None
  then show ?thesis using unknown by (simp add: is_enabled_def)
next
  case (Some l)
  show ?thesis
  proof (cases "enabled l")
    case True
    then show ?thesis using Some add duplicate by (cases "map_of ms k") (simp_all add: is_enabled_def)
  qed (use Some disabled in \<open>simp add: is_enabled_def\<close>)
qed

lemma published_Cons:
  "published ((k', nha, e) # es) k =
    (if k = k' then (case map_of generateMetricNamesMap k of
       Some l \<Rightarrow> if enabled l then Some (new_metric l nha e) else None | None \<Rightarrow> None)
     else published es k)"
  by (auto simp: published_def split: option.split)

lemma published_disabled: "\<not> is_enabled k \<Longrightarrow> published es k = None"
  by (auto simp: published_def is_enabled_def split: option.splits)

lemma initialise_fold_lookup:
  assumes "foldl initialise_one (ms, v) es = (ms', v')"
  shows "map_of ms' k = (case map_of ms k of Some d \<Rightarrow> Some d | None \<Rightarrow> published es k)"
  using assms
proof (induction es arbitrary: ms v)
  case Nil
  then show ?case by (simp add: published_def split: option.split)
next
  case (Cons x es)
  obtain k' nha e where x: "x = (k', nha, e)" by (cases x)
  show ?case
    by (rule initialise_one_cases [of k' ms v nha e])
      (use Cons x in \<open>auto simp: published_Cons published_disabled update_conv' split: option.splits if_splits\<close>)
qed

lemma initialise_fold_distinct:
  assumes "foldl initialise_one (ms, v) es = (ms', v')" "distinct (map fst ms)"
  shows "distinct (map fst ms')"
  using assms
proof (induction es arbitrary: ms v)
  case (Cons x es)
  obtain k' nha e where x: "x = (k', nha, e)" by (cases x)
  show ?case
    by (rule initialise_one_cases [of k' ms v nha e]) (use Cons x in \<open>auto intro: distinct_update\<close>)
qed simp

lemma initialise_fold_valid:
  assumes "foldl initialise_one (ms, v) es = (ms', v')"
  shows "v' \<longleftrightarrow> v \<and> list_all (\<lambda>x. map_of generateMetricNamesMap (fst x) \<noteq> None) es
    \<and> distinct (filter is_enabled (map fst es)) \<and> list_all (\<lambda>x. is_enabled (fst x) \<longrightarrow> map_of ms (fst x) = None) es"
  using assms
proof (induction es arbitrary: ms v)
  case (Cons x es)
  obtain k' nha e where x: "x = (k', nha, e)" by (cases x)
  show ?case
  proof (rule initialise_one_cases [of k' ms v nha e])
    fix l assume "map_of generateMetricNamesMap k' = Some l" "is_enabled k'" "map_of ms k' = None"
      "initialise_one (ms, v) (k', nha, e) = (AList.update k' (new_metric l nha e) ms, v)"
    moreover from \<open>is_enabled k'\<close>
    have "list_all (\<lambda>x. is_enabled (fst x) \<longrightarrow> map_of (AList.update k' d ms) (fst x) = None) es \<longleftrightarrow>
        k' \<notin> set (filter is_enabled (map fst es)) \<and> list_all (\<lambda>x. is_enabled (fst x) \<longrightarrow> map_of ms (fst x) = None) es" for d
      by (induction es) (auto simp: update_conv')
    ultimately show ?thesis
      using Cons.IH [of "AList.update k' (new_metric l nha e) ms" v] Cons.prems x by (simp add: conj_ac)
  next
    fix l d assume "map_of generateMetricNamesMap k' = Some l" "is_enabled k'" "map_of ms k' = Some d"
      "initialise_one (ms, v) (k', nha, e) = (ms, False)"
    with Cons.IH [of ms False] Cons.prems x show ?thesis by simp
  next
    fix l assume "map_of generateMetricNamesMap k' = Some l" "\<not> is_enabled k'"
      "initialise_one (ms, v) (k', nha, e) = (ms, v)"
    with Cons.IH [of ms v] Cons.prems x show ?thesis by simp
  next
    assume "map_of generateMetricNamesMap k' = None" "initialise_one (ms, v) (k', nha, e) = (ms, False)"
    with Cons.IH [of ms False] Cons.prems x show ?thesis by simp
  qed
qed simp

lemma initialiseMetrics_result:
  obtains ms :: "'f metrics" and v where "foldl initialise_one ([], True) (elements classes) = (ms, v)"
    "result (initialiseMetrics classes) w = (ms, if v then None else Some (Errorf ''Invalid metrics data''))"
proof -
  obtain ms :: "'f metrics" and v where fold: "foldl initialise_one ([], True) (elements classes) = (ms, v)" by (metis surj_pair)
  moreover have "result (for_io initialise_class ([], True) classes) w = (ms, v)"
    by (simp add: initialise_loop_result fold)
  ultimately show ?thesis using that by (simp add: initialiseMetrics_def case_prod_beta)
qed

lemma initialiseMetrics_lookup:
  "map_of (fst (result (initialiseMetrics classes :: ('f metrics \<times> error option) io) w)) k = published (elements classes) k"
proof -
  obtain ms :: "'f metrics" and v where "foldl initialise_one ([], True) (elements classes) = (ms, v)"
    "result (initialiseMetrics classes) w = (ms, if v then None else Some (Errorf ''Invalid metrics data''))"
    by (rule initialiseMetrics_result)
  then show ?thesis by (simp add: initialise_fold_lookup [where k = k])
qed

lemma initialiseMetrics_distinct:
  "distinct (map fst (fst (result (initialiseMetrics classes :: ('f metrics \<times> error option) io) w)))"
proof -
  obtain ms :: "'f metrics" and v where "foldl initialise_one ([], True) (elements classes) = (ms, v)"
    "result (initialiseMetrics classes) w = (ms, if v then None else Some (Errorf ''Invalid metrics data''))"
    by (rule initialiseMetrics_result)
  then show ?thesis by (simp add: initialise_fold_distinct)
qed

text \<open>
  C25: For every set of classes \<open>initialiseMetrics\<close> publishes exactly the metrics of the elements it looks at (those of Native HA
  and those that are not about an object) that have an enabled name, each key once, with the data of the first element
  that has the key.  It reports an error exactly if an element has an unknown key or two elements have the same enabled
  key.
\<close>

theorem initialiseMetrics_spec:
  fixes classes :: "MonClass list" and w :: world and r :: "'f metrics \<times> error option"
  defines "r \<equiv> result (initialiseMetrics classes) w"
  shows "distinct (map fst (fst r)) \<and> (\<forall>k. map_of (fst r) k = published (elements classes) k) \<and>
    (snd r = None \<longleftrightarrow> list_all (\<lambda>x. map_of generateMetricNamesMap (fst x) \<noteq> None) (elements classes)
      \<and> distinct (filter is_enabled (map fst (elements classes))))"
proof -
  obtain ms :: "'f metrics" and v where fold: "foldl initialise_one ([], True) (elements classes) = (ms, v)"
    and r: "r = (ms, if v then None else Some (Errorf ''Invalid metrics data''))"
    unfolding r_def by (rule initialiseMetrics_result)
  from initialise_fold_valid [OF fold] r have "snd r = None \<longleftrightarrow>
      list_all (\<lambda>x. map_of generateMetricNamesMap (fst x) \<noteq> None) (elements classes)
      \<and> distinct (filter is_enabled (map fst (elements classes)))"
    by (simp add: list_all_iff)
  then show ?thesis unfolding r_def by (simp add: initialiseMetrics_lookup initialiseMetrics_distinct)
qed

section \<open>What an update transfers\<close>

definition clear_type :: "MonClass \<Rightarrow> MonType \<Rightarrow> MonType" where
  "clear_type c t = (if considered c t then t\<lparr>Elements := map (\<lambda>e. e\<lparr>Values := []\<rparr>) (Elements t)\<rparr> else t)"

definition clear_class :: "MonClass \<Rightarrow> MonClass" where
  "clear_class c = c\<lparr>Types := map (clear_type c) (Types c)\<rparr>"

definition normalised :: "(MonElement \<Rightarrow> string \<Rightarrow> int \<Rightarrow> 'f) \<Rightarrow> MonElement \<Rightarrow> (string \<times> 'f) list" where
  "normalised normal e = map (\<lambda>(label, v). (label, normal e label v)) (Values e)"

lemma map_in_place_foldl:
  assumes "\<And>s x. f s x = (g s x, h x)"
  shows "map_in_place f s xs = (foldl g s xs, map h xs)"
  by (induction xs arbitrary: s) (simp_all add: assms)

text \<open>The updates of the metrics, without the changes to the elements.\<close>

fun update_one :: "(MonElement \<Rightarrow> string \<Rightarrow> int \<Rightarrow> 'f) \<Rightarrow> 'f metrics \<Rightarrow> string \<times> bool \<times> MonElement \<Rightarrow> 'f metrics" where
  "update_one normal ms (key, nha, e) = (case map_of ms key of
     None \<Rightarrow> ms
   | Some d \<Rightarrow> AList.update key (d\<lparr>metric_values := normalised normal e\<rparr>) ms)"

lemma update_element_eq:
  "update_element normal c t ms e = (update_one normal ms (makeKey c t e, isNHA c, e), e\<lparr>Values := []\<rparr>)"
  by (simp add: update_element_def Let_def normalised_def split: option.split)

lemma update_type_eq:
  "update_type normal c ms t =
    (foldl (update_one normal) ms (if considered c t then map (\<lambda>e. (makeKey c t e, isNHA c, e)) (Elements t) else []),
     clear_type c t)"
  by (simp add: update_type_def map_in_place_foldl [OF update_element_eq] foldl_map_arg clear_type_def)

lemma update_class_eq:
  "update_class normal ms c = (foldl (update_one normal) ms (elements [c]), clear_class c)"
  by (simp add: update_class_def map_in_place_foldl [OF update_type_eq] elements_def foldl_concat foldl_map_arg clear_class_def)

lemma updateMetrics_eq:
  "updateMetrics normal ms classes = (foldl (update_one normal) ms (elements classes), map clear_class classes)"
  by (simp add: updateMetrics_def map_in_place_foldl [OF update_class_eq] elements_def foldl_concat foldl_map_arg)

lemma update_fold_lookup:
  "map_of (foldl (update_one normal) ms es) k =
    map_option (\<lambda>d. case map_of (rev es) k of None \<Rightarrow> d | Some (_, e) \<Rightarrow> d\<lparr>metric_values := normalised normal e\<rparr>) (map_of ms k)"
proof (induction es rule: rev_induct)
  case Nil
  then show ?case by (cases "map_of ms k") simp_all
next
  case (snoc x es)
  obtain k' nha e where x: "x = (k', nha, e)" by (cases x)
  show ?case
    using snoc by (cases "map_of ms k'"; cases "map_of ms k")
      (auto simp: x update_conv' split: option.splits)
qed

lemma update_fold_keys: "map fst (foldl (update_one normal) ms es) = map fst ms"
proof (induction es rule: rev_induct)
  case (snoc x es)
  obtain k nha e where x: "x = (k, nha, e)" by (cases x)
  show ?case
  proof (cases "map_of (foldl (update_one normal) ms es) k")
    case None
    with snoc x show ?thesis by simp
  next
    case (Some d)
    then have "k \<in> set (map fst (foldl (update_one normal) ms es))"
      using map_of_eq_None_iff [of "foldl (update_one normal) ms es" k] by simp
    with snoc x Some show ?thesis by (simp add: update_keys)
  qed
qed simp

lemma elements_clear:
  "elements (map clear_class classes) = map (\<lambda>(k, nha, e). (k, nha, e\<lparr>Values := []\<rparr>)) (elements classes)"
proof -
  have key: "makeKey (clear_class c) (clear_type c t) (e\<lparr>Values := []\<rparr>) = makeKey c t e"
      "considered (clear_class c) (clear_type c t) = considered c t" "isNHA (clear_class c) = isNHA c" for c t e
    by (auto simp: makeKey_def considered_def isNHA_def clear_class_def clear_type_def)
  have types: "Types (clear_class c) = map (clear_type c) (Types c)" for c
    by (simp add: clear_class_def)
  have els: "considered c t \<Longrightarrow> Elements (clear_type c t) = map (\<lambda>e. e\<lparr>Values := []\<rparr>) (Elements t)" for c t
    by (simp add: clear_type_def)
  show ?thesis
    by (simp add: elements_def map_concat types key els comp_def if_distrib [of "map _"] cong: if_cong)
qed

text \<open>
  C24: An update moves the values published since the last one into the metrics: a metric for whose key there is an element gets
  exactly the normalised values cached in the last such element, and no others; all other metrics stay as they are, no
  metric is added or removed, and afterwards the cache of every element that was looked at is empty, so that no value
  is seen by two updates.
\<close>

theorem updateMetrics_transfers:
  fixes normal :: "MonElement \<Rightarrow> string \<Rightarrow> int \<Rightarrow> 'f"
  shows "(\<forall>k. map_of (fst (updateMetrics normal ms classes)) k =
      map_option (\<lambda>d. case map_of (rev (elements classes)) k of
        None \<Rightarrow> d | Some (_, e) \<Rightarrow> d\<lparr>metric_values := normalised normal e\<rparr>) (map_of ms k))
    \<and> map fst (fst (updateMetrics normal ms classes)) = map fst ms
    \<and> snd (updateMetrics normal ms classes) = map clear_class classes
    \<and> elements (map clear_class classes) = map (\<lambda>(k, nha, e). (k, nha, e\<lparr>Values := []\<rparr>)) (elements classes)"
  by (simp add: updateMetrics_eq update_fold_lookup update_fold_keys elements_clear)

end
