(* ===== verification/Metrics_Exporter.thy ===== *)
theory Metrics_Exporter
  imports Metrics
begin

text \<open>
  The exporter of metrics to Prometheus (\<open>internal/metrics/exporter.go\<close>).  It asks the goroutine of \<open>processMetrics\<close> for the
  metrics; the answer is an argument here, a list in the order of one iteration over the map.

  Of the package \<open>prometheus\<close> the exporter uses vectors of counters and gauges, which hold one value per list of label
  values.  The error of \<open>GetMetricWithLabelValues\<close> for a list of label values, and the arithmetic of \<open>float64\<close>, are fields of
  the record \<open>prom\<close>.
\<close>

section \<open>Vectors of metrics\<close>

record 'f prom =
  label_error :: "string list \<Rightarrow> string list \<Rightarrow> string option"
  f_zero :: 'f
  f_add :: "'f \<Rightarrow> 'f \<Rightarrow> 'f"
  f_neg :: "'f \<Rightarrow> bool"

record 'f vec =
  fqName :: string
  vec_help :: string
  vec_labels :: "string list"
  children :: "(string list \<times> 'f) list"

definition getVecDetails :: "bool \<Rightarrow> bool \<Rightarrow> string \<times> string list" where
  "getVecDetails ot nha =
    (if ot then (''object'', [''object'', ''qmgr''])
     else if nha then (''nha'', [''instance'', ''qmgr''])
     else (''qmgr'', [''qmgr'']))"

definition new_vec :: "string \<Rightarrow> string \<Rightarrow> bool \<Rightarrow> bool \<Rightarrow> 'f vec" where
  "new_vec name descr ot nha = (case getVecDetails ot nha of (pre, labels) \<Rightarrow>
     \<lparr>fqName = ''ibmmq'' @ ''_'' @ pre @ ''_'' @ name, vec_help = descr, vec_labels = labels, children = []\<rparr>)"

definition createCounterVec :: "string \<Rightarrow> string \<Rightarrow> bool \<Rightarrow> bool \<Rightarrow> 'f vec" where
  "createCounterVec = new_vec"

definition createGaugeVec :: "string \<Rightarrow> string \<Rightarrow> bool \<Rightarrow> bool \<Rightarrow> 'f vec" where
  "createGaugeVec = new_vec"

section \<open>The exporter\<close>

record 'f exporter =
  exporter_qmName :: string
  gaugeMap :: "(string \<times> 'f vec) list"
  counterMap :: "(string \<times> 'f vec) list"
  firstCollect :: bool

definition newExporter :: "string \<Rightarrow> 'f exporter" where
  "newExporter qmName = \<lparr>exporter_qmName = qmName, gaugeMap = [], counterMap = [], firstCollect = True\<rparr>"

text \<open>\<open>Describe\<close> returns the exporter and the descriptions it sends.\<close>

type_synonym desc = "string \<times> string \<times> string list"

definition vec_Describe :: "'f vec \<Rightarrow> desc" where
  "vec_Describe v = (fqName v, vec_help v, vec_labels v)"

definition describe_metric :: "'f exporter \<times> desc list \<Rightarrow> string \<times> 'f metricData \<Rightarrow> 'f exporter \<times> desc list" where
  "describe_metric s x = (case (s, x) of ((e, ch), (key, metric)) \<Rightarrow>
    (if isDelta metric then
       (let counterVec = createCounterVec (metric_name metric) (description metric) (objectType metric) (nhaType metric)
        in (e\<lparr>counterMap := AList.update key counterVec (counterMap e)\<rparr>, ch @ [vec_Describe counterVec]))
     else
       (let gaugeVec = createGaugeVec (metric_name metric) (description metric) (objectType metric) (nhaType metric)
        in (e\<lparr>gaugeMap := AList.update key gaugeVec (gaugeMap e)\<rparr>, ch @ [vec_Describe gaugeVec]))))"

definition Describe :: "'f exporter \<Rightarrow> 'f metrics \<Rightarrow> 'f exporter \<times> desc list" where
  "Describe e response = foldl describe_metric (e, []) response"

text \<open>The label values for a label of the published data.\<close>

definition qmgrLabelValue :: string where "qmgrLabelValue = ''@self''"
definition nhaLabelValue :: string where "nhaLabelValue = ''@NATIVEHA@''"

definition label_values :: "string \<Rightarrow> string \<Rightarrow> string list" where
  "label_values qmName label =
    (if label = qmgrLabelValue then [qmName]
     else if HasPrefix label nhaLabelValue then [ReplaceAll label nhaLabelValue [], qmName]
     else [label, qmName])"

definition counter_value :: "'f prom \<Rightarrow> string \<Rightarrow> 'f vec \<Rightarrow> string \<times> 'f \<Rightarrow> 'f vec res io" where
  "counter_value lib qmName v x = (case x of (label, val) \<Rightarrow>
    let lvs = label_values qmName label in
    (case label_error lib (vec_labels v) lvs of
       Some err \<Rightarrow> do { log_Error (''Metrics Error: '' @ err); ok v }
     | None \<Rightarrow>
         if f_neg lib val then panic
         else ok (v\<lparr>children := AList.update lvs
           (f_add lib (case map_of (children v) lvs of None \<Rightarrow> f_zero lib | Some old \<Rightarrow> old) val) (children v)\<rparr>)))"

definition gauge_value :: "'f prom \<Rightarrow> string \<Rightarrow> 'f vec \<Rightarrow> string \<times> 'f \<Rightarrow> 'f vec res io" where
  "gauge_value lib qmName v x = (case x of (label, val) \<Rightarrow>
    let lvs = label_values qmName label in
    (case label_error lib (vec_labels v) lvs of
       Some err \<Rightarrow> do { log_Error (''Metrics Error: '' @ err); ok v }
     | None \<Rightarrow> ok (v\<lparr>children := AList.update lvs val (children v)\<rparr>)))"

text \<open>The samples that are sent: name, label values and value.  A missing vector is nil, and its methods panic.\<close>

type_synonym 'f sample = "string \<times> string list \<times> 'f"

definition vec_Collect :: "'f vec \<Rightarrow> 'f sample list" where
  "vec_Collect v = map (\<lambda>(lvs, x). (fqName v, lvs, x)) (children v)"

definition collect_metric ::
  "'f prom \<Rightarrow> 'f exporter \<times> 'f sample list \<Rightarrow> string \<times> 'f metricData \<Rightarrow> ('f exporter \<times> 'f sample list) res io" where
  "collect_metric lib s x = (case (s, x) of ((e, ch), (key, metric)) \<Rightarrow>
    (if isDelta metric then
       (case map_of (counterMap e) key of
          None \<Rightarrow> panic
        | Some counterVec \<Rightarrow>
            try_res (if \<not> firstCollect e then for_res (counter_value lib (exporter_qmName e)) counterVec (metric_values metric)
                     else ok counterVec) (\<lambda>v.
            ok (e\<lparr>counterMap := AList.update key v (counterMap e)\<rparr>, ch @ vec_Collect v)))
     else
       (case map_of (gaugeMap e) key of
          None \<Rightarrow> panic
        | Some gaugeVec \<Rightarrow>
            try_res (if \<not> firstCollect e
                     then for_res (gauge_value lib (exporter_qmName e)) (gaugeVec\<lparr>children := []\<rparr>) (metric_values metric)
                     else ok (gaugeVec\<lparr>children := []\<rparr>)) (\<lambda>v.
            ok (e\<lparr>gaugeMap := AList.update key v (gaugeMap e)\<rparr>, ch @ vec_Collect v)))))"

definition exporter_Collect :: "'f prom \<Rightarrow> 'f exporter \<Rightarrow> 'f metrics \<Rightarrow> ('f exporter \<times> 'f sample list) res io" where
  "exporter_Collect lib e response =
    try_res (for_res (collect_metric lib) (e, []) response) (\<lambda>(e', ch). ok (e'\<lparr>firstCollect := False\<rparr>, ch))"

section \<open>The names of the metrics\<close>

text \<open>The descriptions of the metrics that \<open>initialiseMetrics\<close> has found.\<close>

lemma describe_fold:
  "snd (foldl describe_metric (e, ch) response) =
    ch @ map (\<lambda>(_, m). vec_Describe (new_vec (metric_name m) (description m) (objectType m) (nhaType m) :: 'f vec)) response"
  for response :: "'f metrics"
proof (induction response arbitrary: e ch)
  case (Cons x response)
  have "snd (describe_metric (e, ch) x) = ch @ [vec_Describe
      (new_vec (metric_name (snd x)) (description (snd x)) (objectType (snd x)) (nhaType (snd x)) :: 'f vec)]"
    by (cases x) (simp add: describe_metric_def createCounterVec_def createGaugeVec_def Let_def)
  then obtain e' where "describe_metric (e, ch) x = (e', ch @ [vec_Describe
      (new_vec (metric_name (snd x)) (description (snd x)) (objectType (snd x)) (nhaType (snd x)) :: 'f vec)])"
    by (metis prod.collapse)
  with Cons show ?case by (simp add: case_prod_beta)
qed simp

lemma published_data:
  assumes "published es k = Some m"
  obtains l where "map_of generateMetricNamesMap k = Some l" "metric_name m = lookup_name l" "\<not> objectType m"
  using assms by (auto simp: published_def new_metric_def split: option.splits if_splits)

definition metric_chars :: string where
  "metric_chars = ''abcdefghijklmnopqrstuvwxyz_0123456789''"

lemma metric_chars_ok:
  "set ''ibmmq_nha_'' \<subseteq> set metric_chars" "set ''ibmmq_qmgr_'' \<subseteq> set metric_chars"
  "map_of generateMetricNamesMap k = Some l \<Longrightarrow> set (lookup_name l) \<subseteq> set metric_chars"
  using lookup_name_chars [of k l] unfolding metric_chars_def by simp_all

lemma fqName_new_vec: "\<not> ot \<Longrightarrow> fqName (new_vec name descr ot nha) = (if nha then ''ibmmq_nha_'' else ''ibmmq_qmgr_'') @ name"
  by (simp add: new_vec_def getVecDetails_def)

text \<open>
  C26: The metrics that \<open>initialiseMetrics\<close> publishes are described to Prometheus under different names, and every name consists of
  lower-case letters, digits and underscores: whatever the queue manager publishes, the registration cannot fail for
  a name that is not valid or is used twice.
\<close>

theorem described_names_distinct:
  fixes classes :: "MonClass list" and w :: world and ms :: "'f metrics"
  defines "ms \<equiv> fst (result (initialiseMetrics classes) w)"
  shows "distinct (map fst (snd (Describe (newExporter qmName) ms)))
    \<and> list_all (\<lambda>name. set name \<subseteq> set metric_chars) (map fst (snd (Describe (newExporter qmName) ms)))"
proof -
  define name where "name x = fqName (new_vec (metric_name (snd x)) (description (snd x)) (objectType (snd x)) (nhaType (snd x)) :: 'f vec)"
    for x :: "string \<times> 'f metricData"
  have names: "map fst (snd (Describe (newExporter qmName :: 'f exporter) ms)) = map name ms"
    unfolding Describe_def name_def by (auto simp: describe_fold vec_Describe_def)
  have keys: "distinct (map fst ms)" unfolding ms_def by (rule initialiseMetrics_distinct)
  have data: "\<exists>l. map_of generateMetricNamesMap (fst x) = Some l \<and> metric_name (snd x) = lookup_name l \<and> \<not> objectType (snd x)"
    if "x \<in> set ms" for x
  proof -
    have "map_of ms (fst x) = Some (snd x)"
      using that keys by simp
    then have "published (elements classes) (fst x) = Some (snd x)"
      unfolding ms_def by (simp add: initialiseMetrics_lookup)
    then show ?thesis by (rule published_data) auto
  qed
  have "inj_on name (set ms)"
  proof (rule inj_onI)
    fix x y assume "x \<in> set ms" "y \<in> set ms" "name x = name y"
    moreover from data [OF this(1)] data [OF this(2)] this(3) have "metric_name (snd x) = metric_name (snd y)"
      by (auto simp: name_def fqName_new_vec split: if_splits)
    ultimately have "fst x = fst y" using data [of x] data [of y] lookup_name_inj by metis
    then show "x = y" using \<open>x \<in> set ms\<close> \<open>y \<in> set ms\<close> keys by (metis distinct_map inj_onD)
  qed
  moreover have "distinct ms" using keys by (simp add: distinct_map)
  moreover have "set (name x) \<subseteq> set metric_chars" if mem: "x \<in> set ms" for x
  proof -
    obtain l where "map_of generateMetricNamesMap (fst x) = Some l" "metric_name (snd x) = lookup_name l" "\<not> objectType (snd x)"
      using data [OF mem] by blast
    then show ?thesis
      using metric_chars_ok unfolding name_def by (simp add: fqName_new_vec del: set_simps)
  qed
  ultimately show ?thesis unfolding names by (auto simp: distinct_map list_all_iff)
qed

section \<open>Total results\<close>

text \<open>\<open>gives x m\<close>: in every world \<open>m\<close> neither panics nor fails, and returns \<open>x\<close>.\<close>

definition gives :: "'a \<Rightarrow> 'a res io \<Rightarrow> bool" where
  "gives x m \<longleftrightarrow> (\<forall>w. result m w = Some (Inr x))"

lemma gives_ok: "gives x (ok x)"
  by (simp add: gives_def)

lemma gives_try:
  assumes "gives x m" "gives y (k x)"
  shows "gives y (try_res m k)"
  unfolding gives_def
proof
  fix w
  obtain w' where "run_state m w = (Some (Inr x), w')" using assms(1) unfolding gives_def by (metis prod.collapse)
  then show "result (try_res m k) w = Some (Inr y)" using assms(2) by (simp add: try_res_def gives_def)
qed

lemma gives_seq: "gives x m \<Longrightarrow> gives x (do { log_Error s; m })"
  by (simp add: gives_def log_Error_def)

lemma gives_for:
  assumes "\<And>s x. x \<in> set xs \<Longrightarrow> P s \<Longrightarrow> gives (g s x) (body s x) \<and> P (g s x)" "P s"
  shows "gives (foldl g s xs) (for_res body s xs)"
  using assms
proof (induction xs arbitrary: s)
  case Nil
  then show ?case by (simp add: gives_ok)
next
  case (Cons x xs)
  then have "gives (g s x) (body s x)" "P (g s x)" by simp_all
  moreover from this(2) Cons have "gives (foldl g (g s x) xs) (for_res body (g s x) xs)" by simp
  ultimately show ?case by (auto intro: gives_try)
qed

section \<open>What is collected\<close>

text \<open>The values of a metric that have as many label values as the vector has labels, with their label values.\<close>

definition accepted :: "'f prom \<Rightarrow> string \<Rightarrow> string list \<Rightarrow> (string \<times> 'f) list \<Rightarrow> (string list \<times> 'f) list" where
  "accepted lib qm labels vals =
    filter (\<lambda>(lvs, _). label_error lib labels lvs = None) (map (\<lambda>(label, x). (label_values qm label, x)) vals)"

definition add_child :: "'f prom \<Rightarrow> (string list \<times> 'f) list \<Rightarrow> string list \<times> 'f \<Rightarrow> (string list \<times> 'f) list" where
  "add_child lib cs x =
    AList.update (fst x) (f_add lib (case map_of cs (fst x) of None \<Rightarrow> f_zero lib | Some old \<Rightarrow> old) (snd x)) cs"

definition set_child :: "(string list \<times> 'f) list \<Rightarrow> string list \<times> 'f \<Rightarrow> (string list \<times> 'f) list" where
  "set_child cs x = AList.update (fst x) (snd x) cs"

lemma counter_values_give:
  assumes "list_all (\<lambda>(_, x). \<not> f_neg lib x) vals"
  shows "gives (v\<lparr>children := foldl (add_child lib) (children v) (accepted lib qm (vec_labels v) vals)\<rparr>) (for_res (counter_value lib qm) v vals)"
  using assms
proof (induction vals arbitrary: v)
  case (Cons p vals)
  obtain label x where p: "p = (label, x)" by (cases p)
  define v' where "v' = (if label_error lib (vec_labels v) (label_values qm label) = None
    then v\<lparr>children := add_child lib (children v) (label_values qm label, x)\<rparr> else v)"
  have "gives v' (counter_value lib qm v p)"
    using Cons.prems by (auto simp: p v'_def counter_value_def Let_def add_child_def intro!: gives_ok gives_seq split: option.split)
  moreover have "gives (v'\<lparr>children := foldl (add_child lib) (children v') (accepted lib qm (vec_labels v') vals)\<rparr>)
      (for_res (counter_value lib qm) v' vals)"
    using Cons by simp
  moreover have "v'\<lparr>children := foldl (add_child lib) (children v') (accepted lib qm (vec_labels v') vals)\<rparr>
      = v\<lparr>children := foldl (add_child lib) (children v) (accepted lib qm (vec_labels v) (p # vals))\<rparr>"
    by (simp add: v'_def p accepted_def)
  ultimately show ?case by (auto intro: gives_try)
qed (simp add: gives_ok accepted_def)

lemma gauge_values_give:
  "gives (v\<lparr>children := foldl set_child (children v) (accepted lib qm (vec_labels v) vals)\<rparr>) (for_res (gauge_value lib qm) v vals)"
proof (induction vals arbitrary: v)
  case (Cons p vals)
  obtain label x where p: "p = (label, x)" by (cases p)
  define v' where "v' = (if label_error lib (vec_labels v) (label_values qm label) = None
    then v\<lparr>children := set_child (children v) (label_values qm label, x)\<rparr> else v)"
  have "gives v' (gauge_value lib qm v p)"
    by (auto simp: p v'_def gauge_value_def Let_def set_child_def intro!: gives_ok gives_seq split: option.split)
  moreover have "v'\<lparr>children := foldl set_child (children v') (accepted lib qm (vec_labels v') vals)\<rparr>
      = v\<lparr>children := foldl set_child (children v) (accepted lib qm (vec_labels v) (p # vals))\<rparr>"
    by (simp add: v'_def p accepted_def)
  ultimately show ?case using Cons [of v'] by (auto intro: gives_try)
qed (simp add: gives_ok accepted_def)

text \<open>One round of the collection, where the vectors exist.\<close>

definition counter_after :: "'f prom \<Rightarrow> bool \<Rightarrow> string \<Rightarrow> 'f metricData \<Rightarrow> 'f vec \<Rightarrow> 'f vec" where
  "counter_after lib first qm m v =
    (if first then v else v\<lparr>children := foldl (add_child lib) (children v) (accepted lib qm (vec_labels v) (metric_values m))\<rparr>)"

definition gauge_after :: "'f prom \<Rightarrow> bool \<Rightarrow> string \<Rightarrow> 'f metricData \<Rightarrow> 'f vec \<Rightarrow> 'f vec" where
  "gauge_after lib first qm m v =
    v\<lparr>children := if first then [] else foldl set_child [] (accepted lib qm (vec_labels v) (metric_values m))\<rparr>"

lemma after_first [simp]:
  "counter_after lib True qm m v = v" "gauge_after lib True qm m v = v\<lparr>children := []\<rparr>"
  by (simp_all add: counter_after_def gauge_after_def)

lemma after_labels [simp]:
  "vec_labels (counter_after lib first qm m v) = vec_labels v" "vec_labels (gauge_after lib first qm m v) = vec_labels v"
  by (simp_all add: counter_after_def gauge_after_def)

fun collect_one :: "'f prom \<Rightarrow> 'f exporter \<times> 'f sample list \<Rightarrow> string \<times> 'f metricData \<Rightarrow> 'f exporter \<times> 'f sample list" where
  "collect_one lib (e, ch) (k, m) =
    (if isDelta m
     then (let v = counter_after lib (firstCollect e) (exporter_qmName e) m (the (map_of (counterMap e) k))
           in (e\<lparr>counterMap := AList.update k v (counterMap e)\<rparr>, ch @ vec_Collect v))
     else (let v = gauge_after lib (firstCollect e) (exporter_qmName e) m (the (map_of (gaugeMap e) k))
           in (e\<lparr>gaugeMap := AList.update k v (gaugeMap e)\<rparr>, ch @ vec_Collect v)))"

definition has_vec :: "'f exporter \<Rightarrow> string \<times> 'f metricData \<Rightarrow> bool" where
  "has_vec e x \<longleftrightarrow> map_of (if isDelta (snd x) then counterMap e else gaugeMap e) (fst x) \<noteq> None"

definition increases :: "'f prom \<Rightarrow> 'f metricData \<Rightarrow> bool" where
  "increases lib m \<longleftrightarrow> (isDelta m \<longrightarrow> list_all (\<lambda>(_, x). \<not> f_neg lib x) (metric_values m))"

lemma collect_metric_gives:
  assumes "has_vec e x" "increases lib (snd x)"
  shows "gives (collect_one lib (e, ch) x) (collect_metric lib (e, ch) x)"
proof -
  obtain k m where x: "x = (k, m)" by (cases x)
  show ?thesis
  proof (cases "isDelta m")
    case True
    with assms x obtain v where v: "map_of (counterMap e) k = Some v" by (auto simp: has_vec_def)
    have "gives (counter_after lib (firstCollect e) (exporter_qmName e) m v)
        (if \<not> firstCollect e then for_res (counter_value lib (exporter_qmName e)) v (metric_values m) else ok v)"
      using assms(2) True x by (auto simp: counter_after_def increases_def intro: gives_ok counter_values_give)
    then show ?thesis
      using True v x by (auto simp: collect_metric_def Let_def intro!: gives_try gives_ok)
  next
    case False
    with assms x obtain v where v: "map_of (gaugeMap e) k = Some v" by (auto simp: has_vec_def)
    have "gives (gauge_after lib (firstCollect e) (exporter_qmName e) m v)
        (if \<not> firstCollect e then for_res (gauge_value lib (exporter_qmName e)) (v\<lparr>children := []\<rparr>) (metric_values m)
         else ok (v\<lparr>children := []\<rparr>))"
      using gauge_values_give [of "v\<lparr>children := []\<rparr>" lib "exporter_qmName e" "metric_values m"]
      by (auto simp: gauge_after_def accepted_def intro: gives_ok)
    then show ?thesis
      using False v x by (auto simp: collect_metric_def Let_def intro!: gives_try gives_ok)
  qed
qed

lemma has_vec_first [simp]: "has_vec (e\<lparr>firstCollect := b\<rparr>) x = has_vec e x"
  by (simp add: has_vec_def)

lemma has_vec_collect_one: "has_vec e y \<Longrightarrow> has_vec (fst (collect_one lib (e, ch) x)) y"
  by (cases x) (auto simp: has_vec_def Let_def update_conv' split: if_splits)

lemma exporter_Collect_gives:
  assumes "list_all (has_vec e) r" "list_all (\<lambda>(_, m). increases lib m) r"
  shows "gives ((fst (foldl (collect_one lib) (e, []) r))\<lparr>firstCollect := False\<rparr>, snd (foldl (collect_one lib) (e, []) r)) (exporter_Collect lib e r)"
  unfolding exporter_Collect_def
proof (rule gives_try)
  show "gives (foldl (collect_one lib) (e, []) r) (for_res (collect_metric lib) (e, []) r)"
  proof (rule gives_for [where P = "\<lambda>s. list_all (has_vec (fst s)) r"])
    fix s :: "'a exporter \<times> 'a sample list" and x
    assume x: "x \<in> set r" and s: "list_all (has_vec (fst s)) r"
    then show "gives (collect_one lib s x) (collect_metric lib s x) \<and> list_all (has_vec (fst (collect_one lib s x))) r"
      using assms(2) collect_metric_gives [of "fst s" x lib "snd s"] has_vec_collect_one [of "fst s" _ lib "snd s" x]
      by (auto simp: list_all_iff)
  qed (use assms(1) in simp)
qed (simp add: case_prod_beta gives_ok)

lemma collect_fold_frame:
  "firstCollect (fst (foldl (collect_one lib) (e, ch) r)) = firstCollect e"
  "exporter_qmName (fst (foldl (collect_one lib) (e, ch) r)) = exporter_qmName e"
proof (induction r arbitrary: e ch)
  case (Cons x r)
  {
    case 1
    then show ?case using Cons by (cases x; cases "collect_one lib (e, ch) x") (auto simp: Let_def split: if_splits)
  next
    case 2
    then show ?case using Cons by (cases x; cases "collect_one lib (e, ch) x") (auto simp: Let_def split: if_splits)
  }
qed simp_all

lemma collect_fold_counter:
  assumes "distinct (map fst r)"
  shows "map_of (counterMap (fst (foldl (collect_one lib) (e, ch) r))) k =
    (case map_of r k of
       Some m \<Rightarrow> if isDelta m then Some (counter_after lib (firstCollect e) (exporter_qmName e) m (the (map_of (counterMap e) k)))
                 else map_of (counterMap e) k
     | None \<Rightarrow> map_of (counterMap e) k)"
  using assms
proof (induction r arbitrary: e ch)
  case (Cons x r)
  obtain k' m where x: "x = (k', m)" by (cases x)
  obtain e' ch' where s: "collect_one lib (e, ch) x = (e', ch')" by (cases "collect_one lib (e, ch) x")
  have frame: "firstCollect e' = firstCollect e" "exporter_qmName e' = exporter_qmName e"
    using collect_fold_frame [of lib e ch "[x]"] s by simp_all
  have map: "map_of (counterMap e') j = (if isDelta m \<and> j = k'
      then Some (counter_after lib (firstCollect e) (exporter_qmName e) m (the (map_of (counterMap e) k'))) else map_of (counterMap e) j)" for j
    using s x by (auto simp: Let_def update_conv' split: if_splits)
  have "map_of r k' = None" using Cons.prems x by (simp add: map_of_eq_None_iff)
  with Cons x s frame map show ?case by (auto split: option.split)
qed simp

lemma collect_fold_gauge:
  assumes "distinct (map fst r)"
  shows "map_of (gaugeMap (fst (foldl (collect_one lib) (e, ch) r))) k =
    (case map_of r k of
       Some m \<Rightarrow> if \<not> isDelta m then Some (gauge_after lib (firstCollect e) (exporter_qmName e) m (the (map_of (gaugeMap e) k)))
                 else map_of (gaugeMap e) k
     | None \<Rightarrow> map_of (gaugeMap e) k)"
  using assms
proof (induction r arbitrary: e ch)
  case (Cons x r)
  obtain k' m where x: "x = (k', m)" by (cases x)
  obtain e' ch' where s: "collect_one lib (e, ch) x = (e', ch')" by (cases "collect_one lib (e, ch) x")
  have frame: "firstCollect e' = firstCollect e" "exporter_qmName e' = exporter_qmName e"
    using collect_fold_frame [of lib e ch "[x]"] s by simp_all
  have map: "map_of (gaugeMap e') j = (if \<not> isDelta m \<and> j = k'
      then Some (gauge_after lib (firstCollect e) (exporter_qmName e) m (the (map_of (gaugeMap e) k'))) else map_of (gaugeMap e) j)" for j
    using s x by (auto simp: Let_def update_conv' split: if_splits)
  have "map_of r k' = None" using Cons.prems x by (simp add: map_of_eq_None_iff)
  with Cons x s frame map show ?case by (auto split: option.split)
qed simp

section \<open>Sequences of collections\<close>

fun collect_all :: "'f prom \<Rightarrow> 'f exporter \<Rightarrow> 'f metrics list \<Rightarrow> 'f exporter res io" where
  "collect_all lib e [] = ok e"
| "collect_all lib e (r # rs) = try_res (exporter_Collect lib e r) (\<lambda>(e', _). collect_all lib e' rs)"

text \<open>The metrics \<open>r\<close> are among those described by \<open>r0\<close>, as counters or gauges as described, and no counter decreases.\<close>

definition compatible :: "'f prom \<Rightarrow> 'f metrics \<Rightarrow> 'f metrics \<Rightarrow> bool" where
  "compatible lib r0 r \<longleftrightarrow> distinct (map fst r)
    \<and> list_all (\<lambda>(k, m). case map_of r0 k of Some m0 \<Rightarrow> isDelta m0 = isDelta m | None \<Rightarrow> False) r
    \<and> list_all (\<lambda>(_, m). increases lib m) r"

definition covers :: "'f exporter \<Rightarrow> 'f metrics \<Rightarrow> bool" where
  "covers e r0 \<longleftrightarrow> (\<forall>k m. map_of r0 k = Some m \<longrightarrow> has_vec e (k, m))"

lemma covers_has_vec:
  assumes "covers e r0" "compatible lib r0 r"
  shows "list_all (has_vec e) r"
  unfolding list_all_iff
proof
  fix x assume "x \<in> set r"
  with assms(2) obtain m0 where "map_of r0 (fst x) = Some m0" "isDelta m0 = isDelta (snd x)"
    by (fastforce simp: compatible_def list_all_iff split: option.splits)
  with assms(1) show "has_vec e x" by (fastforce simp: covers_def has_vec_def)
qed

lemma exporter_Collect_step:
  assumes "covers e r0" "compatible lib r0 r"
  obtains e' ch where "gives (e', ch) (exporter_Collect lib e r)" "\<not> firstCollect e'" "exporter_qmName e' = exporter_qmName e" "covers e' r0"
    "\<And>k m0 v. map_of r0 k = Some m0 \<Longrightarrow> isDelta m0 \<Longrightarrow> map_of (counterMap e) k = Some v \<Longrightarrow>
       map_of (counterMap e') k = Some (case map_of r k of None \<Rightarrow> v | Some m \<Rightarrow> counter_after lib (firstCollect e) (exporter_qmName e) m v)"
    "\<And>k m0 v. map_of r0 k = Some m0 \<Longrightarrow> \<not> isDelta m0 \<Longrightarrow> map_of (gaugeMap e) k = Some v \<Longrightarrow>
       map_of (gaugeMap e') k = Some (case map_of r k of None \<Rightarrow> v | Some m \<Rightarrow> gauge_after lib (firstCollect e) (exporter_qmName e) m v)"
proof -
  let ?s = "foldl (collect_one lib) (e, []) r"
  let ?e = "(fst ?s)\<lparr>firstCollect := False\<rparr>"
  have dist: "distinct (map fst r)" and inc: "list_all (\<lambda>(_, m). increases lib m) r"
    using assms(2) by (simp_all add: compatible_def)
  have delta: "isDelta m0 = isDelta m" if "map_of r k = Some m" "map_of r0 k = Some m0" for k m m0
    using that assms(2) by (fastforce simp: compatible_def list_all_iff dest: map_of_SomeD)
  have grows: "has_vec (fst (foldl (collect_one lib) (e, ch) xs)) y" if "has_vec e y" for ch xs and e :: "'a exporter" and y
    using that
  proof (induction xs arbitrary: e ch)
    case (Cons x xs)
    then show ?case using has_vec_collect_one [of e y lib ch x] by (cases "collect_one lib (e, ch) x") simp
  qed simp
  show ?thesis
  proof (rule that [of ?e "snd ?s"])
    show "gives (?e, snd ?s) (exporter_Collect lib e r)"
      using exporter_Collect_gives [OF covers_has_vec [OF assms] inc] .
    show "covers ?e r0" using assms(1) by (auto simp: covers_def intro: grows)
    show "map_of (counterMap ?e) k = Some (case map_of r k of None \<Rightarrow> v | Some m \<Rightarrow> counter_after lib (firstCollect e) (exporter_qmName e) m v)"
      if "map_of r0 k = Some m0" "isDelta m0" "map_of (counterMap e) k = Some v" for k m0 v
      using that delta by (auto simp: collect_fold_counter [OF dist] split: option.split)
    show "map_of (gaugeMap ?e) k = Some (case map_of r k of None \<Rightarrow> v | Some m \<Rightarrow> gauge_after lib (firstCollect e) (exporter_qmName e) m v)"
      if "map_of r0 k = Some m0" "\<not> isDelta m0" "map_of (gaugeMap e) k = Some v" for k m0 v
      using that delta by (auto simp: collect_fold_gauge [OF dist] split: option.split)
  qed (simp_all add: collect_fold_frame)
qed

text \<open>The values reported for a key and a list of label values in a sequence of answers, in order.\<close>

definition reported :: "'f prom \<Rightarrow> string \<Rightarrow> string list \<Rightarrow> string \<Rightarrow> 'f metrics list \<Rightarrow> (string list \<times> 'f) list" where
  "reported lib qm labels k rs = concat (map (\<lambda>r. case map_of r k of
     None \<Rightarrow> [] | Some m \<Rightarrow> accepted lib qm labels (metric_values m)) rs)"

lemma reported_simps [simp]:
  "reported lib qm labels k [] = []"
  "reported lib qm labels k (r # rs) =
    (case map_of r k of None \<Rightarrow> [] | Some m \<Rightarrow> accepted lib qm labels (metric_values m)) @ reported lib qm labels k rs"
  by (simp_all add: reported_def)

definition values_at :: "string list \<Rightarrow> (string list \<times> 'f) list \<Rightarrow> 'f list" where
  "values_at lvs xs = map snd (filter (\<lambda>x. fst x = lvs) xs)"

lemma values_at_simps [simp]:
  "values_at lvs [] = []" "values_at lvs (x # xs) = (if fst x = lvs then snd x # values_at lvs xs else values_at lvs xs)"
  by (simp_all add: values_at_def)

lemma add_child_lookup:
  "map_of (foldl (add_child lib) cs xs) lvs =
    (if values_at lvs xs = [] then map_of cs lvs
     else Some (foldl (f_add lib) (case map_of cs lvs of None \<Rightarrow> f_zero lib | Some x \<Rightarrow> x) (values_at lvs xs)))"
proof (induction xs arbitrary: cs)
  case (Cons x xs)
  then show ?case
    by (auto simp: add_child_def update_conv')
qed simp

lemma set_child_lookup:
  "map_of (foldl set_child cs xs) lvs = (if values_at lvs xs = [] then map_of cs lvs else Some (last (values_at lvs xs)))"
proof (induction xs arbitrary: cs)
  case (Cons x xs)
  then show ?case
    by (auto simp: set_child_def update_conv')
qed simp

lemma collect_all_counter:
  assumes "covers e r0" "list_all (compatible lib r0) rs" "map_of r0 k = Some m0" "isDelta m0" "map_of (counterMap e) k = Some v"
  obtains e' where "gives e' (collect_all lib e rs)"
    "map_of (counterMap e') k = Some (v\<lparr>children := foldl (add_child lib) (children v)
       (reported lib (exporter_qmName e) (vec_labels v) k (if firstCollect e then tl rs else rs))\<rparr>)"
proof -
  have "\<exists>e'. gives e' (collect_all lib e rs) \<and> map_of (counterMap e') k = Some (v\<lparr>children := foldl (add_child lib) (children v)
       (reported lib (exporter_qmName e) (vec_labels v) k (if firstCollect e then tl rs else rs))\<rparr>)"
    using assms
  proof (induction rs arbitrary: e v)
    case Nil
    then show ?case by (auto intro!: gives_ok)
  next
    case (Cons r rs)
    from Cons.prems(2) have r: "compatible lib r0 r" and rs: "list_all (compatible lib r0) rs" by simp_all
    from exporter_Collect_step [OF Cons.prems(1) r] obtain e1 ch where e1: "gives (e1, ch) (exporter_Collect lib e r)" "\<not> firstCollect e1"
        "exporter_qmName e1 = exporter_qmName e" "covers e1 r0"
      and v1: "map_of (counterMap e1) k = Some (case map_of r k of None \<Rightarrow> v | Some m \<Rightarrow> counter_after lib (firstCollect e) (exporter_qmName e) m v)"
      using Cons.prems(3-5) by metis
    from Cons.IH [OF e1(4) rs Cons.prems(3,4) v1] e1(2,3) obtain e' where e': "gives e' (collect_all lib e1 rs)"
        "map_of (counterMap e') k = Some ((case map_of r k of None \<Rightarrow> v | Some m \<Rightarrow> counter_after lib (firstCollect e) (exporter_qmName e) m v)
          \<lparr>children := foldl (add_child lib) (children (case map_of r k of None \<Rightarrow> v | Some m \<Rightarrow> counter_after lib (firstCollect e) (exporter_qmName e) m v))
            (reported lib (exporter_qmName e) (vec_labels (case map_of r k of None \<Rightarrow> v | Some m \<Rightarrow> counter_after lib (firstCollect e) (exporter_qmName e) m v)) k rs)\<rparr>)"
      by auto
    have "gives e' (collect_all lib e (r # rs))"
      using e'(1) by (auto intro: gives_try [OF e1(1)])
    moreover have "map_of (counterMap e') k = Some (v\<lparr>children := foldl (add_child lib) (children v)
        (reported lib (exporter_qmName e) (vec_labels v) k (if firstCollect e then tl (r # rs) else r # rs))\<rparr>)"
      unfolding e'(2) by (cases "map_of r k") (simp_all add: counter_after_def)
    ultimately show ?case by blast
  qed
  then show ?thesis using that by blast
qed

lemma collect_all_gauge:
  assumes "covers e r0" "list_all (compatible lib r0) (rs @ [r])" "map_of r0 k = Some m0" "\<not> isDelta m0"
    "map_of (gaugeMap e) k = Some v" "map_of r k = Some m" "firstCollect e \<longrightarrow> rs \<noteq> []"
  obtains e' where "gives e' (collect_all lib e (rs @ [r]))"
    "map_of (gaugeMap e') k = Some (v\<lparr>children := foldl set_child [] (accepted lib (exporter_qmName e) (vec_labels v) (metric_values m))\<rparr>)"
proof -
  have "\<exists>e'. gives e' (collect_all lib e (rs @ [r])) \<and> map_of (gaugeMap e') k =
      Some (v\<lparr>children := foldl set_child [] (accepted lib (exporter_qmName e) (vec_labels v) (metric_values m))\<rparr>)"
    using assms
  proof (induction rs arbitrary: e v)
    case Nil
    then have r: "compatible lib r0 r" by simp
    from exporter_Collect_step [OF Nil.prems(1) r] obtain e1 ch where "gives (e1, ch) (exporter_Collect lib e r)"
      "map_of (gaugeMap e1) k = Some (gauge_after lib (firstCollect e) (exporter_qmName e) m v)"
      using Nil.prems(3-6) by (metis option.simps(5))
    then show ?case
      using Nil.prems(7) by (intro exI [of _ e1]) (auto simp: gauge_after_def intro: gives_try gives_ok)
  next
    case (Cons r' rs)
    from Cons.prems(2) have r': "compatible lib r0 r'" and rs: "list_all (compatible lib r0) (rs @ [r])" by simp_all
    from exporter_Collect_step [OF Cons.prems(1) r'] obtain e1 ch where e1: "gives (e1, ch) (exporter_Collect lib e r')" "\<not> firstCollect e1"
        "exporter_qmName e1 = exporter_qmName e" "covers e1 r0"
      and v1: "map_of (gaugeMap e1) k = Some (case map_of r' k of None \<Rightarrow> v | Some m \<Rightarrow> gauge_after lib (firstCollect e) (exporter_qmName e) m v)"
      using Cons.prems(3-5) by metis
    from Cons.IH [OF e1(4) rs Cons.prems(3,4) v1 Cons.prems(6)] e1(2,3) obtain e' where "gives e' (collect_all lib e1 (rs @ [r]))"
        "map_of (gaugeMap e') k = Some (v\<lparr>children := foldl set_child [] (accepted lib (exporter_qmName e) (vec_labels v) (metric_values m))\<rparr>)"
      by (auto simp: gauge_after_def split: option.splits)
    then show ?case by (intro exI [of _ e']) (auto intro: gives_try [OF e1(1)])
  qed
  then show ?thesis using that by blast
qed

lemma describe_metric_fields:
  "map_of (counterMap (fst (describe_metric (e, ch) (k, m)))) j =
    (if isDelta m \<and> j = k then Some (new_vec (metric_name m) (description m) (objectType m) (nhaType m)) else map_of (counterMap e) j)"
  "map_of (gaugeMap (fst (describe_metric (e, ch) (k, m)))) j =
    (if \<not> isDelta m \<and> j = k then Some (new_vec (metric_name m) (description m) (objectType m) (nhaType m)) else map_of (gaugeMap e) j)"
  "firstCollect (fst (describe_metric (e, ch) (k, m))) = firstCollect e"
  "exporter_qmName (fst (describe_metric (e, ch) (k, m))) = exporter_qmName e"
  by (simp_all add: describe_metric_def createCounterVec_def createGaugeVec_def Let_def update_conv')

definition described :: "'f exporter \<Rightarrow> 'f exporter \<Rightarrow> 'f metrics \<Rightarrow> bool" where
  "described e e' r0 \<longleftrightarrow> firstCollect e' = firstCollect e \<and> exporter_qmName e' = exporter_qmName e \<and>
    (\<forall>k. map_of (counterMap e') k = (case map_of r0 k of
       Some m \<Rightarrow> if isDelta m then Some (new_vec (metric_name m) (description m) (objectType m) (nhaType m)) else map_of (counterMap e) k
     | None \<Rightarrow> map_of (counterMap e) k)) \<and>
    (\<forall>k. map_of (gaugeMap e') k = (case map_of r0 k of
       Some m \<Rightarrow> if \<not> isDelta m then Some (new_vec (metric_name m) (description m) (objectType m) (nhaType m)) else map_of (gaugeMap e) k
     | None \<Rightarrow> map_of (gaugeMap e) k))"

lemma Describe_described:
  assumes "distinct (map fst r0)"
  shows "described e (fst (foldl describe_metric (e, ch) r0)) r0"
  using assms
proof (induction r0 arbitrary: e ch)
  case (Cons x r0)
  obtain k m where x: "x = (k, m)" by (cases x)
  obtain e1 ch1 where e1: "describe_metric (e, ch) (k, m) = (e1, ch1)" by (cases "describe_metric (e, ch) (k, m)")
  note fields = describe_metric_fields [of e ch k m, unfolded e1, simplified]
  have "map_of r0 k = None" using Cons.prems x by (simp add: map_of_eq_None_iff)
  moreover have "described e1 (fst (foldl describe_metric (e1, ch1) r0)) r0" using Cons by simp
  ultimately show ?case by (auto simp: described_def x e1 fields split: option.split)
qed (simp add: described_def)

lemma Describe_covers:
  assumes "distinct (map fst r0)"
  shows "covers (fst (Describe (newExporter qm) r0)) r0"
  using Describe_described [OF assms, of "newExporter qm" "[]"]
  by (auto simp: covers_def has_vec_def described_def Describe_def split: option.split)

text \<open>
  C12: The counters of an exporter that was described with the metrics \<open>r0\<close> and then asked to collect any number of times: no
  collection panics or fails, and afterwards a counter has, for every list of label values, the sum of the deltas
  reported in all collections but the first, in order, and no value where none was reported.  What the queue manager
  had accumulated before the first collection is not counted.
\<close>

theorem counters_accumulate:
  assumes "distinct (map fst r0)" "map_of r0 k = Some m" "isDelta m" "list_all (compatible lib r0) rs"
  shows "\<exists>e v. gives e (collect_all lib (fst (Describe (newExporter qm) r0)) rs) \<and> map_of (counterMap e) k = Some v
    \<and> (\<forall>lvs. map_of (children v) lvs =
        (let xs = values_at lvs (reported lib qm (snd (getVecDetails (objectType m) (nhaType m))) k (tl rs))
         in if xs = [] then None else Some (foldl (f_add lib) (f_zero lib) xs)))"
proof -
  let ?v = "new_vec (metric_name m) (description m) (objectType m) (nhaType m)"
  have v: "children ?v = []" "vec_labels ?v = snd (getVecDetails (objectType m) (nhaType m))"
    by (simp_all add: new_vec_def case_prod_beta)
  let ?e = "fst (Describe (newExporter qm) r0)"
  have d: "described (newExporter qm) ?e r0" unfolding Describe_def by (rule Describe_described [OF assms(1)])
  then have e: "map_of (counterMap ?e) k = Some ?v" "firstCollect ?e" "exporter_qmName ?e = qm"
    using assms(2,3) by (auto simp: described_def newExporter_def)
  obtain e' where "gives e' (collect_all lib ?e rs)"
    "map_of (counterMap e') k = Some (?v\<lparr>children := foldl (add_child lib) [] (reported lib qm (vec_labels ?v) k (tl rs))\<rparr>)"
    by (rule collect_all_counter [OF Describe_covers [OF assms(1)] assms(4,2,3) e(1)]) (simp add: e v)
  then show ?thesis by (intro exI conjI) (auto simp: add_child_lookup v Let_def)
qed

text \<open>
  After a collection other than the first, a gauge shows exactly the values of that collection, whatever it showed before: for
  every list of label values the last value reported for it, and nothing where none was reported.
\<close>

theorem gauges_show_last:
  assumes "distinct (map fst r0)" "map_of r0 k = Some m" "\<not> isDelta m" "list_all (compatible lib r0) (rs @ [r])"
    "rs \<noteq> []" "map_of r k = Some m'"
  shows "\<exists>e v. gives e (collect_all lib (fst (Describe (newExporter qm) r0)) (rs @ [r])) \<and> map_of (gaugeMap e) k = Some v
    \<and> (\<forall>lvs. map_of (children v) lvs =
        (let xs = values_at lvs (accepted lib qm (snd (getVecDetails (objectType m) (nhaType m))) (metric_values m'))
         in if xs = [] then None else Some (last xs)))"
proof -
  let ?v = "new_vec (metric_name m) (description m) (objectType m) (nhaType m)"
  have v: "vec_labels ?v = snd (getVecDetails (objectType m) (nhaType m))"
    by (simp add: new_vec_def case_prod_beta)
  let ?e = "fst (Describe (newExporter qm) r0)"
  have d: "described (newExporter qm) ?e r0" unfolding Describe_def by (rule Describe_described [OF assms(1)])
  then have e: "map_of (gaugeMap ?e) k = Some ?v" "exporter_qmName ?e = qm"
    using assms(2,3) by (auto simp: described_def newExporter_def)
  obtain e' where "gives e' (collect_all lib ?e (rs @ [r]))"
    "map_of (gaugeMap e') k = Some (?v\<lparr>children := foldl set_child []
      (accepted lib qm (snd (getVecDetails (objectType m) (nhaType m))) (metric_values m'))\<rparr>)"
    by (rule collect_all_gauge [OF Describe_covers [OF assms(1)] assms(4,2,3) e(1) assms(6)]) (simp_all add: assms(5) e(2) v)
  then show ?thesis by (intro exI conjI) (auto simp: set_child_lookup v Let_def)
qed

text \<open>An example: a counter and a gauge of the queue manager.\<close>

definition int_prom :: "int prom" where
  "int_prom = \<lparr>label_error = (\<lambda>ls vs. if length ls = length vs then None else Some ''inconsistent label cardinality''),
     f_zero = 0, f_add = (+), f_neg = (\<lambda>x. x < 0)\<rparr>"

definition example_metrics :: "int \<Rightarrow> int \<Rightarrow> int metrics" where
  "example_metrics c g =
    [(''puts'', \<lparr>metric_name = ''puts_total'', description = ''Puts'', objectType = False, nhaType = False,
        metric_values = [(''@self'', c)], isDelta = True\<rparr>),
     (''load'', \<lparr>metric_name = ''load'', description = ''Load'', objectType = False, nhaType = False,
        metric_values = [(''@self'', g), (''other'', g)], isDelta = False\<rparr>)]"

theorem counters_accumulate_witness:
  "\<exists>e v. gives e (collect_all int_prom (fst (Describe (newExporter ''QM1'') (example_metrics 0 0)))
      [example_metrics 100 1, example_metrics 7 2, example_metrics 3 5]) \<and> map_of (counterMap e) ''puts'' = Some v
    \<and> map_of (children v) [''QM1''] = Some 10"
proof -
  let ?rs = "[example_metrics 100 1, example_metrics 7 2, example_metrics 3 5]"
  let ?m = "snd (hd (example_metrics 0 0))"
  have "distinct (map fst (example_metrics 0 0))" "map_of (example_metrics 0 0) ''puts'' = Some ?m" "isDelta ?m"
    "list_all (compatible int_prom (example_metrics 0 0)) ?rs"
    by code_simp+
  from counters_accumulate [OF this, of "''QM1''"] obtain e v where
    ev: "gives e (collect_all int_prom (fst (Describe (newExporter ''QM1'') (example_metrics 0 0))) ?rs)" "map_of (counterMap e) ''puts'' = Some v"
    and all: "\<forall>lvs. map_of (children v) lvs =
      (let xs = values_at lvs (reported int_prom ''QM1'' (snd (getVecDetails (objectType ?m) (nhaType ?m))) ''puts'' (tl ?rs))
       in if xs = [] then None else Some (foldl (f_add int_prom) (f_zero int_prom) xs))"
    by (elim exE conjE)
  have "(let xs = values_at [''QM1''] (reported int_prom ''QM1'' (snd (getVecDetails (objectType ?m) (nhaType ?m))) ''puts'' (tl ?rs))
      in if xs = [] then None else Some (foldl (f_add int_prom) (f_zero int_prom) xs)) = Some 10"
    by code_simp
  from ev trans [OF spec [OF all] this] show ?thesis by (intro exI conjI)
qed

theorem gauges_show_last_witness:
  "\<exists>e v. gives e (collect_all int_prom (fst (Describe (newExporter ''QM1'') (example_metrics 0 0)))
      ([example_metrics 100 1] @ [example_metrics 7 2])) \<and> map_of (gaugeMap e) ''load'' = Some v
    \<and> map_of (children v) [''QM1''] = Some 2 \<and> map_of (children v) [''other'', ''QM1''] = None"
proof -
  let ?m = "snd (hd (tl (example_metrics 0 0)))"
  let ?m' = "snd (hd (tl (example_metrics 7 2)))"
  have "distinct (map fst (example_metrics 0 0))" "map_of (example_metrics 0 0) ''load'' = Some ?m" "\<not> isDelta ?m"
    "list_all (compatible int_prom (example_metrics 0 0)) ([example_metrics 100 1] @ [example_metrics 7 2])"
    "[example_metrics 100 1] \<noteq> []" "map_of (example_metrics 7 2) ''load'' = Some ?m'"
    by code_simp+
  from gauges_show_last [OF this, of "''QM1''"] obtain e v where
    ev: "gives e (collect_all int_prom (fst (Describe (newExporter ''QM1'') (example_metrics 0 0))) ([example_metrics 100 1] @ [example_metrics 7 2]))"
      "map_of (gaugeMap e) ''load'' = Some v"
    and all: "\<forall>lvs. map_of (children v) lvs =
      (let xs = values_at lvs (accepted int_prom ''QM1'' (snd (getVecDetails (objectType ?m) (nhaType ?m))) (metric_values ?m'))
       in if xs = [] then None else Some (last xs))"
    by (elim exE conjE)
  let ?xs = "\<lambda>lvs. values_at lvs (accepted int_prom ''QM1'' (snd (getVecDetails (objectType ?m) (nhaType ?m))) (metric_values ?m'))"
  have "(let xs = ?xs [''QM1''] in if xs = [] then None else Some (last xs)) = Some 2"
    "(let xs = ?xs [''other'', ''QM1''] in if xs = [] then None else Some (last xs)) = None"
    by code_simp+
  from ev trans [OF spec [OF all] this(1)] trans [OF spec [OF all] this(2)] show ?thesis by (intro exI conjI)
qed

section \<open>Metrics that were not described\<close>

definition no_error :: "'a res io \<Rightarrow> bool" where
  "no_error m \<longleftrightarrow> (\<forall>w e. result m w \<noteq> Some (Inl e))"

lemma no_error_ok: "no_error (ok x)" "no_error panic"
  by (simp_all add: no_error_def)

lemma no_error_try: "no_error m \<Longrightarrow> (\<And>x. no_error (k x)) \<Longrightarrow> no_error (try_res m k)"
  by (auto simp: no_error_def try_res_def case_prod_beta split: option.split sum.split)

lemma no_error_for: "(\<And>s x. no_error (body s x)) \<Longrightarrow> no_error (for_res body s xs)"
  by (induction xs arbitrary: s) (auto intro: no_error_ok no_error_try)

lemma no_error_values: "no_error (counter_value lib qm v x)" "no_error (gauge_value lib qm v x)"
  by (auto simp: no_error_def counter_value_def gauge_value_def Let_def split: prod.split option.split)

lemma collect_metric_cases:
  assumes "run_state (collect_metric lib (e, ch) x) w = (r, w')"
  obtains "r = None" | e1 ch1 where "r = Some (Inr (e1, ch1))" "has_vec e x" "\<And>y. has_vec e1 y = has_vec e y"
proof -
  obtain k m where x: "x = (k, m)" by (cases x)
  let ?m = "if isDelta m then counterMap e else gaugeMap e"
  show ?thesis
  proof (cases "map_of ?m k")
    case None
    with assms x show ?thesis using that(1) by (simp add: collect_metric_def split: if_splits)
  next
    case (Some v)
    have "no_error (collect_metric lib (e, ch) x)"
      unfolding collect_metric_def x
      by (auto intro!: no_error_try no_error_for no_error_values no_error_ok split: option.split)
    with assms have "r = None \<or> (\<exists>s. r = Some (Inr s))" by (cases r; cases "the r") (auto simp: no_error_def, metis fst_conv)
    moreover have "has_vec e1 y = has_vec e y" if "r = Some (Inr (e1, ch1))" for e1 ch1 y
      using assms that x Some
      by (auto simp: collect_metric_def has_vec_def update_conv' elim!: try_res_InrE split: if_splits)
    ultimately show ?thesis using that Some x by (auto simp: has_vec_def)
  qed
qed

text \<open>
  A collection whose answer has a metric that was not described, as after a new connection to a queue manager with other
  metrics, panics: the vector of the metric is nil.
\<close>

theorem Collect_undescribed_panics:
  assumes "x \<in> set r" "\<not> has_vec e x"
  shows "result (exporter_Collect lib e r) w = None"
proof -
  have "result (for_res (collect_metric lib) (e, ch) r) w = None" for ch
    using assms
  proof (induction r arbitrary: e ch w)
    case (Cons y r)
    obtain res w1 where run: "run_state (collect_metric lib (e, ch) y) w = (res, w1)"
      by (cases "run_state (collect_metric lib (e, ch) y) w")
    then show ?case
    proof (cases rule: collect_metric_cases)
      case 1
      with run show ?thesis by (simp add: try_res_def)
    next
      case (2 e1 ch1)
      with Cons.prems have "x \<in> set r" "\<not> has_vec e1 x" by auto
      with Cons.IH run 2(1) show ?thesis by (simp add: try_res_def)
    qed
  qed simp
  then have "fst (run_state (for_res (collect_metric lib) (e, []) r) w) = None" by simp
  then show ?thesis
    by (cases "run_state (for_res (collect_metric lib) (e, []) r) w") (simp add: exporter_Collect_def try_res_def)
qed

theorem Collect_undescribed_panics_witness:
  "result (exporter_Collect int_prom (fst (Describe (newExporter ''QM1'') [])) (example_metrics 1 1)) base_world = None"
proof (rule Collect_undescribed_panics)
  show "hd (example_metrics 1 1) \<in> set (example_metrics 1 1)" by (simp add: example_metrics_def)
  show "\<not> has_vec (fst (Describe (newExporter ''QM1'') [])) (hd (example_metrics 1 1))"
    by (simp add: Describe_def newExporter_def has_vec_def)
qed

end
