(* ===== verification/Metrics_Server.thy ===== *)
theory Metrics_Server
  imports Go_Traces Ready Log_Rotation
begin

text \<open>
  The server of the metrics: the certificates it uses (\<open>internal/metrics/tlswatch.go\<close>), the audit log of its requests
  (\<open>internal/metrics/audit.go\<close>) and its start (\<open>internal/metrics/metrics.go\<close>).  The goroutines it starts and the channels
  between them are events of the trace here; the theory of the metrics protocol has their steps.
\<close>

section \<open>Certificates\<close>

text \<open>\<open>tls.X509KeyPair\<close> and the serial number of the first certificate of a pair, and \<open>fsnotify\<close>.\<close>

record 'c key_lib =
  X509KeyPair :: "string \<Rightarrow> string \<Rightarrow> error + 'c"
  leaf_serial :: "'c \<Rightarrow> error + string"
  NewWatcher :: "error option"
  Watcher_Add :: "string \<Rightarrow> error option"

record 'c certificateMonitor =
  certDir :: string
  cert :: "'c option"
  certSerial :: string

definition newCertificateMonitor :: "string \<Rightarrow> 'c certificateMonitor" where
  "newCertificateMonitor d = \<lparr>certDir = d, cert = None, certSerial = []\<rparr>"

definition latestCert :: "'c certificateMonitor \<Rightarrow> 'c option" where
  "latestCert cm = cert cm"

fun load_cert_files :: "string \<Rightarrow> string list \<Rightarrow> (error + string) io" where
  "load_cert_files certPEM [] = return (Inr certPEM)"
| "load_cert_files certPEM (certFile # certFiles) = do {
     r \<leftarrow> os_ReadFile (Clean certFile);
     case r of
       Inl err \<Rightarrow>
         if IsNotExist err then load_cert_files certPEM certFiles
         else return (Inl (Errorf (''failed to read cert file ('' @ certFile @ ''): '' @ error_text err)))
     | Inr c \<Rightarrow>
         (let c' = (if certPEM \<noteq> [] \<and> last certPEM \<noteq> nl then c @ [nl] else c)
          in load_cert_files (certPEM @ c') certFiles)
   }"

text \<open>Switching to a certificate that was loaded, if its serial number can be read.\<close>

definition install :: "'c key_lib \<Rightarrow> 'c certificateMonitor \<Rightarrow> string \<Rightarrow> 'c \<Rightarrow> ((error + unit) \<times> 'c certificateMonitor) io" where
  "install lib cm updateTrigger newCertPair = (case leaf_serial lib newCertPair of
     Inl err \<Rightarrow> do { log_Error (''error reading certificate serial: '' @ error_text err); return (Inl err, cm) }
   | Inr serial \<Rightarrow> do {
       (if serial \<noteq> certSerial cm
        then emit (Stderr (''HTTPS metrics TLS certificate reload triggered by '' @ updateTrigger
               @ '', Loaded new certificate (serial: '' @ serial @ '')''))
        else return ());
       return (Inr (), cm\<lparr>certSerial := serial, cert := Some newCertPair\<rparr>)
     })"

definition updateCert :: "'c key_lib \<Rightarrow> 'c certificateMonitor \<Rightarrow> string \<Rightarrow> ((error + unit) \<times> 'c certificateMonitor) io" where
  "updateCert lib cm updateTrigger = (
     let keyFile = certDir cm @ ''/tls.key''; certFiles = [certDir cm @ ''/tls.crt'', certDir cm @ ''/ca.crt''] in do {
       r \<leftarrow> load_cert_files [] certFiles;
       case r of
         Inl err \<Rightarrow> return (Inl err, cm)
       | Inr certPEM \<Rightarrow> do {
           k \<leftarrow> os_ReadFile (Clean keyFile);
           case k of
             Inl err \<Rightarrow> return (Inl (Errorf (''failed to read key file ('' @ keyFile @ ''): '' @ error_text err)), cm)
           | Inr keyPEM \<Rightarrow>
               (case X509KeyPair lib certPEM keyPEM of
                  Inl err \<Rightarrow> do { log_Error (''error loading key pair: '' @ error_text err); return (Inl err, cm) }
                | Inr newCertPair \<Rightarrow> install lib cm updateTrigger newCertPair)
         }
     })"

text \<open>The goroutines of \<open>watch\<close> are started; the order of what they do is below.\<close>

definition watch :: "'c key_lib \<Rightarrow> 'c certificateMonitor \<Rightarrow> (error + unit) io" where
  "watch lib cm = (case NewWatcher lib of
     Some err \<Rightarrow> return (Inl (Errorf (''failed to set up fsnotify: '' @ error_text err)))
   | None \<Rightarrow>
       (case Watcher_Add lib (certDir cm) of
          Some err \<Rightarrow> return (Inl (Errorf (''failed to watch certificate directory: '' @ error_text err)))
        | None \<Rightarrow> do {
            emit (Spawned ''certificateMonitor.update'');
            emit (Spawned ''certificateMonitor.events'');
            return (Inr ())
          }))"

definition loadAndWatchCertificates :: "'c key_lib \<Rightarrow> string \<Rightarrow> (error + 'c certificateMonitor) io" where
  "loadAndWatchCertificates lib d = do {
     (r, cm) \<leftarrow> updateCert lib (newCertificateMonitor d) ''startup'';
     case r of
       Inl err \<Rightarrow> do { emit (Sent ''certificateMonitor.shutdown''); return (Inl err) }
     | Inr _ \<Rightarrow> do {
         v \<leftarrow> watch lib cm;
         case v of
           Inl err \<Rightarrow> do { emit (Sent ''certificateMonitor.shutdown''); return (Inl err) }
         | Inr _ \<Rightarrow> return (Inr cm)
       }
   }"

definition GetCertificate :: "'c certificateMonitor \<Rightarrow> error + 'c" where
  "GetCertificate cm = (case latestCert cm of None \<Rightarrow> Inl (Errorf ''no certificate loaded'') | Some c \<Rightarrow> Inr c)"

section \<open>The audit log\<close>

text \<open>
  A handler answers a request by calls to the response writer, in order.  The wrapped writer passes every call on and
  keeps the last status code; the audit event is written as one JSON object, with the fields in the order of the struct.
  The text of a time and \<open>http.StatusText\<close> are arguments.
\<close>

datatype response_call = WriteHeader int | Write string

record request =
  RequestURI :: string
  RemoteAddr :: string

type_synonym handler = "request \<Rightarrow> response_call list io"

record audit_lib =
  RFC3339 :: "int \<Rightarrow> string"
  StatusText :: "int \<Rightarrow> string"

record auditEvent =
  Timestamp :: string
  Event :: string
  Pod :: string
  audit_RemoteAddr :: string
  Endpoint :: string
  Result :: string
  StatusCode :: int
  QueuemanagerName :: string

definition json_field :: "string \<Rightarrow> string \<Rightarrow> string" where
  "json_field k v = json_string k @ '':'' @ v"

definition marshal_event :: "auditEvent \<Rightarrow> string" where
  "marshal_event ev = ''{'' @ Join
    [json_field ''timestamp'' (json_string (Timestamp ev)), json_field ''event'' (json_string (Event ev)),
     json_field ''pod'' (json_string (Pod ev)), json_field ''remote_addr'' (json_string (audit_RemoteAddr ev)),
     json_field ''endpoint'' (json_string (Endpoint ev)), json_field ''result'' (json_string (Result ev)),
     json_field ''status_code'' (Itoa (StatusCode ev)), json_field ''queuemanager_name'' (json_string (QueuemanagerName ev))] '','' @ ''}''"

fun captured_status :: "int \<Rightarrow> response_call list \<Rightarrow> int" where
  "captured_status statusCode [] = statusCode"
| "captured_status statusCode (WriteHeader c # rs) = captured_status c rs"
| "captured_status statusCode (Write _ # rs) = captured_status statusCode rs"

definition passthroughHandlerFuncWrapper :: "handler \<Rightarrow> handler" where
  "passthroughHandlerFuncWrapper base = base"

definition newAuditingHandlerFuncWrapper :: "audit_lib \<Rightarrow> string \<Rightarrow> RotatingLogger \<Rightarrow> handler \<Rightarrow> handler" where
  "newAuditingHandlerFuncWrapper lib qmName logger base req = do {
     pod \<leftarrow> os_Hostname;
     now \<leftarrow> time_Now_Unix;
     rs \<leftarrow> base req;
     let statusCode = captured_status 0 rs;
     Append logger (marshal_event
       \<lparr>Timestamp = RFC3339 lib now, Event = ''metrics'', Pod = (case pod of Inl _ \<Rightarrow> [] | Inr h \<Rightarrow> h),
        audit_RemoteAddr = RemoteAddr req, Endpoint = RequestURI req, Result = StatusText lib statusCode,
        StatusCode = statusCode, QueuemanagerName = qmName\<rparr>) False;
     return rs
   }"

section \<open>Starting the server\<close>

definition keyDirMetrics :: string where "keyDirMetrics = ''/etc/mqm/metrics/pki/keys''"

definition two_digits :: "nat \<Rightarrow> string" where
  "two_digits n = (if n < 10 then ''0'' else []) @ nat_digits n"

definition auditLog :: RotatingLogger where
  "auditLog = \<lparr>baseDirectory = ''/var/mqm/errors'', filenameFormat = (\<lambda>i. ''metricaudit'' @ two_digits i @ ''.json''),
     maxFileBytes = 4 * 1024 * 1024, logFilesCount = 3\<rparr>"

definition isHTTPSMetricsEnabled :: "string \<Rightarrow> (error + bool) io" where
  "isHTTPSMetricsEnabled keyDirectory = (let quoted = CHR 0x27 # keyDirectory @ [CHR 0x27] in do {
     r \<leftarrow> os_ReadDir keyDirectory;
     case r of
       Inl err \<Rightarrow>
         return (if Contains (error_text err) ''no such file or directory'' then Inr False
                 else Inl (Errorf (''Unable to read files in '' @ quoted @ '': '' @ error_text err)))
     | Inr names \<Rightarrow>
         if names \<noteq> [] then
           (let certFile = (''tls.crt'' \<in> set names); keyFile = (''tls.key'' \<in> set names) in
            if certFile \<and> keyFile then return (Inr True)
            else do {
              (if \<not> certFile then log_Error (''Metrics Error: Unable to find required file '' @ CHR 0x27 # ''tls.crt'' @ CHR 0x27 # '' in '' @ quoted)
               else return ());
              (if \<not> keyFile then log_Error (''Metrics Error: Unable to find required file '' @ CHR 0x27 # ''tls.key'' @ CHR 0x27 # '' in '' @ quoted)
               else return ());
              return (Inl (Errorf ''Missing files required for HTTPS''))
            })
         else return (Inr False)
   })"

text \<open>\<open>prometheus.Register\<close> succeeds, fails, or panics with a value; a panic is recovered and logged.\<close>

datatype registration = Registered | Not_Registered error | Register_Panics string

definition set_up_audit :: "(error + unit) io" where
  "set_up_audit = do {
     b \<leftarrow> os_Getenv ''MQ_LOGGING_METRICS_AUDIT_ENABLED'';
     if b = ''true'' then wrap_error (\<lambda>t. ''Failed to set up metric audit log: '' @ t) (Init auditLog) else return (Inr ())
   }"

definition serve :: "bool \<Rightarrow> (error + unit) io" where
  "serve httpsMetricsEnabled = do {
     emit (Spawned (if httpsMetricsEnabled then ''metricsServer.ListenAndServeTLS'' else ''metricsServer.ListenAndServe''));
     return (Inr ())
   }"

definition register_and_serve :: "'c key_lib \<Rightarrow> registration \<Rightarrow> bool \<Rightarrow> (error + unit) io" where
  "register_and_serve lib reg httpsMetricsEnabled = (case reg of
     Register_Panics v \<Rightarrow> do { log_Error (''Metrics Error: '' @ v); return (Inr ()) }
   | Not_Registered err \<Rightarrow> return (Inl (Errorf (''Failed to register metrics: '' @ error_text err)))
   | Registered \<Rightarrow>
       if httpsMetricsEnabled then do {
         r \<leftarrow> loadAndWatchCertificates lib keyDirMetrics;
         case r of
           Inl err \<Rightarrow> return (Inl (Errorf (''failed to set up TLS certificate monitor: '' @ error_text err)))
         | Inr _ \<Rightarrow> serve True
       } else serve False)"

definition gather_and_serve :: "'c key_lib \<Rightarrow> registration \<Rightarrow> bool \<Rightarrow> (error + unit) io" where
  "gather_and_serve lib reg httpsMetricsEnabled = do {
     a \<leftarrow> set_up_audit;
     case a of
       Inl err \<Rightarrow> return (Inl err)
     | Inr _ \<Rightarrow> do {
         log_Printf (if httpsMetricsEnabled then ''Starting HTTPS metrics gathering'' else ''Starting HTTP (insecure) metrics gathering'');
         emit (Spawned ''processMetrics'');
         emit (Received ''startChannel'');
         register_and_serve lib reg httpsMetricsEnabled
       }
   }"

definition startMetricsGathering :: "'c key_lib \<Rightarrow> registration \<Rightarrow> string \<Rightarrow> (error + unit) io" where
  "startMetricsGathering lib reg qmName = do {
     r \<leftarrow> isHTTPSMetricsEnabled keyDirMetrics;
     case r of
       Inl err \<Rightarrow> return (Inl (Errorf (''Failed to validate HTTPS metrics configuration: '' @ error_text err)))
     | Inr httpsMetricsEnabled \<Rightarrow> gather_and_serve lib reg httpsMetricsEnabled
   }"

text \<open>
  \<open>StopMetricsGathering\<close> sends on the buffered channel and shuts the server down; \<open>down\<close> is the error of that, if any.
\<close>

definition StopMetricsGathering :: "bool \<Rightarrow> error option \<Rightarrow> unit io" where
  "StopMetricsGathering metricsEnabled down =
    (if metricsEnabled then do {
       emit (Sent ''stopChannel'');
       (case down of Some err \<Rightarrow> log_Error (''Failed to shutdown metrics server: '' @ error_text err) | None \<Rightarrow> return ())
     } else return ())"

text \<open>The wait for an active queue manager, for at most \<open>fuel\<close> rounds; \<open>False\<close> is that it is still waiting.\<close>

fun wait_active :: "nat \<Rightarrow> string \<Rightarrow> bool io" where
  "wait_active 0 qmName = return False"
| "wait_active (Suc fuel) qmName = do {
     status \<leftarrow> Status qmName;
     case status of Inr StatusActiveQM \<Rightarrow> return True | _ \<Rightarrow> wait_active fuel qmName
   }"

definition GatherMetrics :: "nat \<Rightarrow> 'c key_lib \<Rightarrow> registration \<Rightarrow> error option \<Rightarrow> string \<Rightarrow> bool io" where
  "GatherMetrics fuel lib reg down qmName = do {
     active \<leftarrow> wait_active fuel qmName;
     if \<not> active then return False
     else do {
       r \<leftarrow> startMetricsGathering lib reg qmName;
       (case r of
          Inl err \<Rightarrow> do { log_Error (''Metrics Error: '' @ error_text err); StopMetricsGathering True down }
        | Inr _ \<Rightarrow> return ());
       return True
     }
   }"

section \<open>Certificates that are used\<close>

text \<open>The text handed to \<open>tls.X509KeyPair\<close>, from the contents of \<open>tls.crt\<close> and \<open>ca.crt\<close>, where they exist.\<close>

fun cert_text :: "string option \<Rightarrow> string option \<Rightarrow> string" where
  "cert_text None None = []"
| "cert_text (Some c) None = c"
| "cert_text None (Some ca) = ca"
| "cert_text (Some c) (Some ca) = c @ ca @ (if c \<noteq> [] \<and> last c \<noteq> nl then [nl] else [])"

definition read_opt :: "fs \<Rightarrow> string \<Rightarrow> string option \<Rightarrow> bool" where
  "read_opt f p c \<longleftrightarrow> (case c of Some s \<Rightarrow> fs_read f (Clean p) = Inr s | None \<Rightarrow> fs_read f (Clean p) = Inl ENOENT)"

lemma ReadFile_cases:
  assumes "run_state (os_ReadFile p) w = (r, w')"
  obtains c where "r = Inr c" "fs_read (files w) p = Inr c" "files w' = files w"
  | "r = Inl (PathError ''open'' p ENOENT)" "fs_read (files w) p = Inl ENOENT" "files w' = files w"
  | e where "r = Inl (PathError ''open'' p e)" "e \<noteq> ENOENT" "files w' = files w"
proof -
  have w': "files w' = files w" using assms by (auto simp: os_ReadFile_def query_run)
  show ?thesis
  proof (cases "fault_of w ''open'' p")
    case None
    with assms that w' show ?thesis
      by (cases "fs_read (files w) p"; cases "projl (fs_read (files w) p) = ENOENT")
        (auto simp: os_ReadFile_def query_run)
  next
    case (Some e)
    with assms fault_of_ENOENT [of w "''open''" p] show ?thesis
      using that(3) [of e] w' by (auto simp: os_ReadFile_def query_run)
  qed
qed

lemma load_cert_files_run:
  assumes "run_state (load_cert_files [] [p, q]) w = (Inr t, w')"
  shows "\<exists>c ca. read_opt (files w) p c \<and> read_opt (files w) q ca \<and> t = cert_text c ca \<and> files w' = files w"
proof -
  obtain r1 w1 where r1: "run_state (os_ReadFile (Clean p)) w = (r1, w1)" by (cases "run_state (os_ReadFile (Clean p)) w")
  obtain r2 w2 where r2: "run_state (os_ReadFile (Clean q)) w1 = (r2, w2)" by (cases "run_state (os_ReadFile (Clean q)) w1")
  from r1 obtain c where c: "read_opt (files w) p c" "files w1 = files w"
    "r1 = (case c of Some s \<Rightarrow> Inr s | None \<Rightarrow> Inl (PathError ''open'' (Clean p) ENOENT))"
  proof (cases rule: ReadFile_cases)
    case (1 s)
    then show ?thesis using that [of "Some s"] by (simp add: read_opt_def)
  next
    case 2
    then show ?thesis using that [of None] by (simp add: read_opt_def)
  next
    case (3 e)
    with assms r1 show ?thesis by simp
  qed
  from r2 obtain ca where ca: "read_opt (files w1) q ca" "files w2 = files w1"
    "r2 = (case ca of Some s \<Rightarrow> Inr s | None \<Rightarrow> Inl (PathError ''open'' (Clean q) ENOENT))"
  proof (cases rule: ReadFile_cases)
    case (1 s)
    then show ?thesis using that [of "Some s"] by (simp add: read_opt_def)
  next
    case 2
    then show ?thesis using that [of None] by (simp add: read_opt_def)
  next
    case (3 e)
    with assms r1 r2 c(3) show ?thesis by (cases c) (simp_all add: Let_def)
  qed
  have "t = cert_text c ca \<and> w' = w2"
    using assms r1 r2 c(3) ca(3) by (cases c; cases ca) (auto simp: Let_def)
  with c ca show ?thesis by auto
qed

declare load_cert_files.simps [simp del]

lemma updateCert_cases:
  assumes "run_state (updateCert lib cm t) w = ((r, cm'), w')"
  obtains err where "r = Inl err" "cm' = cm"
  | c ca key pair serial where "r = Inr ()" "read_opt (files w) (certDir cm @ ''/tls.crt'') c" "read_opt (files w) (certDir cm @ ''/ca.crt'') ca"
      "fs_read (files w) (Clean (certDir cm @ ''/tls.key'')) = Inr key" "X509KeyPair lib (cert_text c ca) key = Inr pair"
      "leaf_serial lib pair = Inr serial" "cm' = cm\<lparr>certSerial := serial, cert := Some pair\<rparr>"
proof -
  obtain l w1 where l: "run_state (load_cert_files [] [certDir cm @ ''/tls.crt'', certDir cm @ ''/ca.crt'']) w = (l, w1)"
    by (cases "run_state (load_cert_files [] [certDir cm @ ''/tls.crt'', certDir cm @ ''/ca.crt'']) w")
  show ?thesis
  proof (cases l)
    case (Inl err)
    with assms l show ?thesis using that(1) by (auto simp: updateCert_def Let_def)
  next
    case (Inr pem)
    with l obtain c ca where pem: "read_opt (files w) (certDir cm @ ''/tls.crt'') c" "read_opt (files w) (certDir cm @ ''/ca.crt'') ca"
        "pem = cert_text c ca" "files w1 = files w"
      using load_cert_files_run by blast
    obtain k w2 where k: "run_state (os_ReadFile (Clean (certDir cm @ ''/tls.key''))) w1 = (k, w2)"
      by (cases "run_state (os_ReadFile (Clean (certDir cm @ ''/tls.key''))) w1")
    show ?thesis
    proof (cases k)
      case (Inl err)
      with assms l k \<open>l = Inr pem\<close> show ?thesis using that(1) by (auto simp: updateCert_def Let_def)
    next
      case (Inr key)
      with k have key: "fs_read (files w1) (Clean (certDir cm @ ''/tls.key'')) = Inr key" by (cases rule: ReadFile_cases) auto
      have run: "run_state (case X509KeyPair lib pem key of
          Inl err \<Rightarrow> do { log_Error (''error loading key pair: '' @ error_text err); return (Inl err, cm) }
        | Inr newCertPair \<Rightarrow> install lib cm t newCertPair) w2 = ((r, cm'), w')"
        using assms l k \<open>l = Inr pem\<close> Inr by (simp add: updateCert_def Let_def)
      show ?thesis
      proof (cases "X509KeyPair lib pem key")
        case (Inl err)
        with run show ?thesis using that(1) by auto
      next
        case pair: (Inr pair)
        show ?thesis
        proof (cases "leaf_serial lib pair")
          case (Inl err)
          with run pair show ?thesis using that(1) by (auto simp: install_def)
        next
          case (Inr serial)
          with run pair have "r = Inr ()" "cm' = cm\<lparr>certSerial := serial, cert := Some pair\<rparr>"
            by (auto simp: install_def split: if_splits)
          then show ?thesis using that(2) [of c ca key pair serial] pem key pair Inr by simp
        qed
      qed
    qed
  qed
qed

text \<open>
  Reloading certificates: where it fails, for any reason, the certificate in use stays; where it succeeds, the certificate in
  use is the pair made of the files on disk, with the certificate authority's certificate appended to the server's.  The
  line break meant to separate the two is put behind the second one: a file \<open>tls.crt\<close> that does not end with one is
  joined to the file \<open>ca.crt\<close> on the same line.
\<close>

theorem updateCert_keeps_or_replaces:
  fixes lib :: "'c key_lib"
  defines "run cm t w \<equiv> result (updateCert lib cm t) w"
  shows "(\<exists>err. run cm t w = (Inl err, cm)) \<or>
    (\<exists>c ca key pair serial. run cm t w = (Inr (), cm\<lparr>certSerial := serial, cert := Some pair\<rparr>)
      \<and> read_opt (files w) (certDir cm @ ''/tls.crt'') c \<and> read_opt (files w) (certDir cm @ ''/ca.crt'') ca
      \<and> fs_read (files w) (Clean (certDir cm @ ''/tls.key'')) = Inr key
      \<and> X509KeyPair lib (cert_text c ca) key = Inr pair \<and> leaf_serial lib pair = Inr serial)"
proof -
  obtain r cm' w' where run: "run_state (updateCert lib cm t) w = ((r, cm'), w')" by (metis prod.exhaust)
  then have "run cm t w = (r, cm')" by (simp add: run_def)
  with run show ?thesis by (cases rule: updateCert_cases) blast+
qed

lemma updateCert_keeps_some:
  assumes "cert cm \<noteq> None"
  shows "cert (snd (result (updateCert lib cm t) w)) \<noteq> None"
proof -
  obtain r cm' w' where run: "run_state (updateCert lib cm t) w = ((r, cm'), w')" by (metis prod.exhaust)
  then have "cert cm' \<noteq> None" using assms by (cases rule: updateCert_cases) auto
  with run show ?thesis by simp
qed

lemma load_has_certificate:
  assumes "run_state (loadAndWatchCertificates lib d) w = (Inr cm, w')"
  shows "cert cm \<noteq> None"
proof -
  obtain r cm1 w1 where run: "run_state (updateCert lib (newCertificateMonitor d) ''startup'') w = ((r, cm1), w1)"
    by (metis prod.exhaust)
  with assms have "r = Inr ()" "cm1 = cm"
    by (auto simp: loadAndWatchCertificates_def split: sum.splits prod.splits)
  with run show ?thesis by (cases rule: updateCert_cases) auto
qed

text \<open>
  C23: Once the certificates have been loaded, every TLS handshake finds a certificate, whatever happens to the files afterwards and
  however often they are reloaded.
\<close>

theorem certificate_always_available:
  assumes "run_state (loadAndWatchCertificates lib d) w = (Inr cm, w')"
  shows "\<exists>c. GetCertificate (foldl (\<lambda>cm (t, v). snd (result (updateCert lib cm t) v)) cm updates) = Inr c"
proof -
  have "cert (foldl (\<lambda>cm (t, v). snd (result (updateCert lib cm t) v)) cm updates) \<noteq> None" if "cert cm \<noteq> None"
    for cm
    using that
  proof (induction updates arbitrary: cm)
    case (Cons u updates)
    obtain t v where "u = (t, v)" by (cases u)
    then show ?case using Cons.IH [OF updateCert_keeps_some [OF Cons.prems]] by simp
  qed simp
  from this [OF load_has_certificate [OF assms]] show ?thesis
    by (auto simp: GetCertificate_def latestCert_def)
qed

definition string_keys :: "string key_lib" where
  "string_keys = \<lparr>X509KeyPair = (\<lambda>c k. if k = [] then Inl (Errorf ''tls: failed to find any PEM data in key input'') else Inr (c @ k)),
     leaf_serial = (\<lambda>c. Inr c), NewWatcher = None, Watcher_Add = (\<lambda>_. None)\<rparr>"

definition key_world :: world where
  "key_world = base_world\<lparr>files := [(''/k'', DirNode), (''/k/tls.crt'', FileNode ''C''), (''/k/tls.key'', FileNode ''K'')]\<rparr>"

theorem certificate_always_available_witness:
  "\<exists>c. GetCertificate (foldl (\<lambda>cm (t, v). snd (result (updateCert string_keys cm t) v))
    (projr (result (loadAndWatchCertificates string_keys ''/k'') key_world)) [(''poll'', base_world)]) = Inr c"
proof (rule certificate_always_available)
  have "isl (result (loadAndWatchCertificates string_keys ''/k'') key_world) = False" by code_simp
  then show "run_state (loadAndWatchCertificates string_keys ''/k'') key_world =
      (Inr (projr (result (loadAndWatchCertificates string_keys ''/k'') key_world)), final (loadAndWatchCertificates string_keys ''/k'') key_world)"
    by (metis prod.collapse sum.collapse(2))
qed

section \<open>Plain HTTP\<close>

fun not_server :: "event \<Rightarrow> bool" where
  "not_server (Spawned s) \<longleftrightarrow> s \<noteq> ''metricsServer.ListenAndServe'' \<and> s \<noteq> ''metricsServer.ListenAndServeTLS''"
| "not_server _ \<longleftrightarrow> True"

lemma Init_not_server: "state_io_rel (emits not_server) (Init r)"
proof -
  have "state_io_rel (emits not_server) (Init_loop r is)" for "is"
    by (induction "is") (auto simp: open_create_def close_handle_def intro!: emits_intro)
  then show ?thesis by (simp add: Init_def)
qed

lemma load_cert_not_server: "state_io_rel (emits not_server) (load_cert_files pem ps)"
  by (induction ps arbitrary: pem) (auto simp: load_cert_files.simps Let_def intro!: emits_intro)

lemma log_not_server: "state_io_rel (emits not_server) (log_Error s)" "state_io_rel (emits not_server) (log_Printf s)"
  by (simp_all add: log_Error_def log_Printf_def emit_emits)

lemma certificates_not_server: "state_io_rel (emits not_server) (loadAndWatchCertificates lib d)"
  unfolding loadAndWatchCertificates_def updateCert_def install_def watch_def Let_def
  by (intro emits_intro load_cert_not_server log_not_server) simp_all

lemma audit_not_server: "state_io_rel (emits not_server) set_up_audit"
  unfolding set_up_audit_def by (intro emits_intro Init_not_server)

abbreviation plain_server :: event where "plain_server \<equiv> Spawned ''metricsServer.ListenAndServe''"

lemma not_server_not_plain: "state_io_rel (emits not_server) m \<Longrightarrow> state_io_rel (emits (\<lambda>e. e \<noteq> plain_server)) m"
  by (erule emits_mono) auto

lemma https_not_plain: "state_io_rel (emits (\<lambda>e. e \<noteq> plain_server)) (register_and_serve lib reg True)"
  unfolding register_and_serve_def serve_def
  by (cases reg) (auto intro!: emits_intro not_server_not_plain [OF certificates_not_server] not_server_not_plain [OF log_not_server(1)])

lemma isHTTPS_run:
  assumes "fault_of w ''open'' d = None" "fs_readdir (files w) d = Inr names" "names \<noteq> []"
    "run_state (isHTTPSMetricsEnabled d) w = (r, w')"
  shows "\<exists>es. trace w' = trace w @ es \<and> list_all not_server es"
    and "r = (if {''tls.crt'', ''tls.key''} \<subseteq> set names then Inr True else Inl (Errorf ''Missing files required for HTTPS''))"
proof -
  have "state_io_rel (emits not_server) (isHTTPSMetricsEnabled d)"
    unfolding isHTTPSMetricsEnabled_def Let_def by (intro emits_intro log_not_server)
  with assms(4) show "\<exists>es. trace w' = trace w @ es \<and> list_all not_server es" by (auto elim: emitsD)
  show "r = (if {''tls.crt'', ''tls.key''} \<subseteq> set names then Inr True else Inl (Errorf ''Missing files required for HTTPS''))"
    using assms by (auto simp: isHTTPSMetricsEnabled_def Let_def os_ReadDir_def query_run case_prod_beta split: if_splits)
qed

text \<open>
  C19: Where there are key files for the metrics, they are never served over plain HTTP; and where the files are there but incomplete, no
  server is started at all and the start fails.
\<close>

theorem metrics_not_plain_with_keys:
  assumes "fault_of w ''open'' keyDirMetrics = None" "fs_readdir (files w) keyDirMetrics = Inr names" "names \<noteq> []"
    "run_state (startMetricsGathering lib reg qmName) w = (r, w')"
  shows "\<exists>es. trace w' = trace w @ es \<and> plain_server \<notin> set es
    \<and> (\<not> {''tls.crt'', ''tls.key''} \<subseteq> set names \<longrightarrow> list_all not_server es \<and> (\<exists>err. r = Inl err))"
proof -
  obtain h w1 where h: "run_state (isHTTPSMetricsEnabled keyDirMetrics) w = (h, w1)"
    by (cases "run_state (isHTTPSMetricsEnabled keyDirMetrics) w")
  from isHTTPS_run(1) [OF assms(1-3) h] obtain es where es: "trace w1 = trace w @ es" "list_all not_server es" by blast
  then have plain: "plain_server \<notin> set es" by (auto simp: list_all_iff)
  note check = isHTTPS_run(2) [OF assms(1-3) h]
  show ?thesis
  proof (cases "{''tls.crt'', ''tls.key''} \<subseteq> set names")
    case True
    have "state_io_rel (emits (\<lambda>e. e \<noteq> plain_server)) (gather_and_serve lib reg True)"
      unfolding gather_and_serve_def
      by (intro emits_intro not_server_not_plain [OF audit_not_server] not_server_not_plain [OF log_not_server(2)] https_not_plain) simp_all
    moreover have "run_state (gather_and_serve lib reg True) w1 = (r, w')"
      using assms(4) h check True by (simp add: startMetricsGathering_def)
    ultimately obtain fs where "trace w' = trace w1 @ fs" "list_all (\<lambda>e. e \<noteq> plain_server) fs" by (rule emitsD)
    with es plain True show ?thesis by (auto simp: list_all_iff)
  next
    case False
    with assms(4) h check have "w' = w1" "\<exists>err. r = Inl err" by (auto simp: startMetricsGathering_def)
    with es plain show ?thesis by blast
  qed
qed

definition https_world :: world where
  "https_world = base_world\<lparr>files := [(keyDirMetrics, DirNode), (keyDirMetrics @ ''/tls.key'', FileNode ''K'')]\<rparr>"

theorem metrics_not_plain_with_keys_witness:
  "plain_server \<notin> set (trace (final (startMetricsGathering string_keys Registered ''QM1'') https_world))"
proof -
  have "fault_of https_world ''open'' keyDirMetrics = None" by (simp add: https_world_def base_world_def fault_of_def)
  moreover have "fs_readdir (files https_world) keyDirMetrics = Inr [''tls.key'']" by code_simp
  moreover have "[''tls.key''] \<noteq> []" by simp
  moreover have "run_state (startMetricsGathering string_keys Registered ''QM1'') https_world =
      (result (startMetricsGathering string_keys Registered ''QM1'') https_world,
       final (startMetricsGathering string_keys Registered ''QM1'') https_world)" by simp
  moreover have "trace https_world = []" by (simp add: https_world_def base_world_def)
  ultimately show ?thesis
    using metrics_not_plain_with_keys [of https_world "[''tls.key'']" string_keys Registered "''QM1''"] by fastforce
qed

section \<open>Audited requests\<close>

definition printable :: "string \<Rightarrow> bool" where
  "printable s \<longleftrightarrow> list_all (\<lambda>c. \<not> c < CHR 0x20) s"

lemma printable_append [simp]: "printable []" "printable (s @ t) \<longleftrightarrow> printable s \<and> printable t"
  by (simp_all add: printable_def)

lemma printable_json: "printable (json_string s)"
  by (auto simp: printable_def list_all_iff dest: json_string_printable)

lemma printable_Itoa: "printable (Itoa n)"
proof -
  have "printable (nat_digits k)" for k
    using nat_digits_correct [of k] by (auto simp: printable_def list_all_iff is_digit_def less_char_def less_eq_char_def)
  then show ?thesis by (auto simp: Itoa_def printable_def less_char_def)
qed

lemma printable_field: "printable v \<Longrightarrow> printable (json_field k v)"
  by (simp add: json_field_def printable_json) (simp add: printable_def less_char_def)

lemma printable_Join: "list_all printable xs \<Longrightarrow> printable sep \<Longrightarrow> printable (Join xs sep)"
  by (induction xs sep rule: Join.induct) auto

lemma marshal_event_printable: "printable (marshal_event ev)"
proof -
  have "printable (Join
    [json_field ''timestamp'' (json_string (Timestamp ev)), json_field ''event'' (json_string (Event ev)),
     json_field ''pod'' (json_string (Pod ev)), json_field ''remote_addr'' (json_string (audit_RemoteAddr ev)),
     json_field ''endpoint'' (json_string (Endpoint ev)), json_field ''result'' (json_string (Result ev)),
     json_field ''status_code'' (Itoa (StatusCode ev)), json_field ''queuemanager_name'' (json_string (QueuemanagerName ev))] '','')"
    by (intro printable_Join) (simp_all add: printable_field printable_json printable_Itoa, simp add: printable_def less_char_def)
  then show ?thesis unfolding marshal_event_def by (simp add: printable_def less_char_def)
qed

lemma captured_status_last:
  "captured_status s rs = last (s # [c. WriteHeader c \<leftarrow> rs])"
  by (induction s rs rule: captured_status.induct) auto

text \<open>
  C37: An audited request: the client gets the answer of the handler as it is, and exactly one message is appended to the audit log,
  after the handler has finished.  The message is one line, whatever the client put into the request, and it has the
  address and the path of the request and the last status that the handler set, or 0 where it set none.
\<close>

theorem audited_request:
  "\<exists>ev w1 rs w2.
     run_state (base req) w1 = (rs, w2) \<and> files w1 = files w \<and> env w1 = env w \<and> trace w1 = trace w
   \<and> run_state (newAuditingHandlerFuncWrapper lib qmName logger base req) w = (rs, final (Append logger (marshal_event ev) False) w2)
   \<and> Endpoint ev = RequestURI req \<and> audit_RemoteAddr ev = RemoteAddr req \<and> QueuemanagerName ev = qmName
   \<and> StatusCode ev = last (0 # [c. WriteHeader c \<leftarrow> rs]) \<and> Result ev = StatusText lib (StatusCode ev)
   \<and> printable (marshal_event ev)"
proof -
  obtain pod v where pod: "run_state os_Hostname w = (pod, v)" by (cases "run_state os_Hostname w")
  obtain now w1 where now: "run_state time_Now_Unix v = (now, w1)" by (cases "run_state time_Now_Unix v")
  obtain rs w2 where rs: "run_state (base req) w1 = (rs, w2)" by (cases "run_state (base req) w1")
  have w1: "files w1 = files w" "env w1 = env w" "trace w1 = trace w"
    using pod now by (auto simp: os_Hostname_def time_Now_Unix_def)
  let ?ev = "\<lparr>Timestamp = RFC3339 lib now, Event = ''metrics'', Pod = (case pod of Inl _ \<Rightarrow> [] | Inr h \<Rightarrow> h),
        audit_RemoteAddr = RemoteAddr req, Endpoint = RequestURI req, Result = StatusText lib (captured_status 0 rs),
        StatusCode = captured_status 0 rs, QueuemanagerName = qmName\<rparr>"
  have "run_state (newAuditingHandlerFuncWrapper lib qmName logger base req) w = (rs, final (Append logger (marshal_event ?ev) False) w2)"
    by (simp add: newAuditingHandlerFuncWrapper_def pod now rs Let_def case_prod_beta)
  with rs w1 show ?thesis
    by (intro exI [of _ ?ev] exI [of _ w1] exI [of _ rs] exI [of _ w2])
      (simp add: captured_status_last marshal_event_printable)
qed

section \<open>The watcher of certificates\<close>

text \<open>
  The goroutine that updates the certificate waits for a trigger, sleeps for the debounce time, and reads the files;
  \<open>Finishing\<close> is the rest of its round, after the reading.  A trigger is dropped unless the goroutine is waiting.  The
  contents of the directory have a version; \<open>dropped_late\<close> remembers that a trigger was dropped after the files had
  been read, since the last reading.
\<close>

datatype updater_pc = Waiting | Debouncing | Finishing

record watch_state =
  updater_at :: updater_pc
  disk_version :: nat
  read_version :: nat
  fs_events :: nat
  dropped_late :: bool

definition watch_start :: "nat \<Rightarrow> watch_state" where
  "watch_start n = \<lparr>updater_at = Waiting, disk_version = n, read_version = n, fs_events = 0, dropped_late = False\<rparr>"

definition triggerUpdate :: "watch_state \<Rightarrow> watch_state" where
  "triggerUpdate s = (case updater_at s of
     Waiting \<Rightarrow> s\<lparr>updater_at := Debouncing\<rparr>
   | Debouncing \<Rightarrow> s
   | Finishing \<Rightarrow> s\<lparr>dropped_late := True\<rparr>)"

inductive watch_step :: "watch_state \<Rightarrow> watch_state \<Rightarrow> bool" where
  change_files: "watch_step s (s\<lparr>disk_version := Suc (disk_version s), fs_events := Suc (fs_events s)\<rparr>)"
| event: "0 < fs_events s \<Longrightarrow> watch_step s (triggerUpdate (s\<lparr>fs_events := fs_events s - 1\<rparr>))"
| poll: "watch_step s (triggerUpdate s)"
| read_files: "updater_at s = Debouncing \<Longrightarrow>
    watch_step s (s\<lparr>updater_at := Finishing, read_version := disk_version s, dropped_late := False\<rparr>)"
| finish: "updater_at s = Finishing \<Longrightarrow> watch_step s (s\<lparr>updater_at := Waiting\<rparr>)"

inductive_cases watch_stepE: "watch_step s s'"

definition watch_fresh :: "watch_state \<Rightarrow> bool" where
  "watch_fresh s \<longleftrightarrow> read_version s = disk_version s \<or> 0 < fs_events s \<or> updater_at s = Debouncing \<or> dropped_late s"

lemma watch_fresh_step: "watch_step s s' \<Longrightarrow> watch_fresh s \<Longrightarrow> watch_fresh s'"
  by (erule watch_stepE; cases "updater_at s") (auto simp: watch_fresh_def triggerUpdate_def)

text \<open>
  A change of the certificate files is not missed: in every state that the goroutines of \<open>watch\<close> reach, the version last read
  is the one on disk, or an event of the file system is still to come, or an update is waiting for its debounce time,
  or an event arrived after the files had been read and before the round was finished.  Only in the last case may the
  certificate stay out of date until the next poll, and the next update after any trigger reads the files on disk.
\<close>

theorem certificate_changes_noticed:
  assumes "watch_step\<^sup>*\<^sup>* (watch_start n) s"
  shows "(updater_at s = Waiting \<and> fs_events s = 0 \<and> \<not> dropped_late s \<longrightarrow> read_version s = disk_version s)
    \<and> (updater_at s = Waiting \<longrightarrow> watch_step\<^sup>*\<^sup>* s (s\<lparr>updater_at := Finishing, read_version := disk_version s, dropped_late := False\<rparr>))"
proof (intro conjI impI)
  have "watch_fresh s"
    using assms
  proof (induction rule: rtranclp_induct)
    case base
    show ?case by (simp add: watch_fresh_def watch_start_def)
  qed (rule watch_fresh_step)
  then show "updater_at s = Waiting \<and> fs_events s = 0 \<and> \<not> dropped_late s \<Longrightarrow> read_version s = disk_version s"
    by (auto simp: watch_fresh_def)
  assume "updater_at s = Waiting"
  then have "watch_step s (s\<lparr>updater_at := Debouncing\<rparr>)" using poll [of s] by (simp add: triggerUpdate_def)
  moreover have "watch_step (s\<lparr>updater_at := Debouncing\<rparr>) (s\<lparr>updater_at := Finishing, read_version := disk_version s, dropped_late := False\<rparr>)"
    using read_files [of "s\<lparr>updater_at := Debouncing\<rparr>"] by simp
  ultimately show "watch_step\<^sup>*\<^sup>* s (s\<lparr>updater_at := Finishing, read_version := disk_version s, dropped_late := False\<rparr>)"
    by (meson converse_rtranclp_into_rtranclp rtranclp.rtrancl_refl)
qed

theorem certificate_changes_noticed_witness:
  "watch_step\<^sup>*\<^sup>* (watch_start 4) ((watch_start 4)\<lparr>updater_at := Finishing, read_version := disk_version (watch_start 4), dropped_late := False\<rparr>)"
proof -
  have "watch_step\<^sup>*\<^sup>* (watch_start 4) (watch_start 4)" by simp
  from certificate_changes_noticed [OF this] show ?thesis by (simp add: watch_start_def)
qed

end
