(* ===== verification/Metrics_Protocol.thy ===== *)
theory Metrics_Protocol
  imports Metrics_Server
begin

text \<open>
  The goroutines of the metrics and the channels between them: \<open>processMetrics\<close> (\<open>internal/metrics/update.go\<close>), the goroutine
  of \<open>GatherMetrics\<close> that starts everything, the one of the HTTP server, and the signal handler that stops them
  (\<open>internal/metrics/metrics.go\<close>); and the scrapes that run \<open>Collect\<close> of the exporter, any number of them at the same time.
  The channel \<open>stopChannel\<close> holds up to two values; the others are not buffered, so that sending and receiving are one step.
\<close>

section \<open>Connecting\<close>

text \<open>The errors of \<open>mqmetric.InitConnection\<close> and \<open>mqmetric.DiscoverAndSubscribe\<close> are arguments.\<close>

definition doConnect :: "(string \<Rightarrow> error option) \<Rightarrow> error option \<Rightarrow> string \<Rightarrow> error option" where
  "doConnect InitConnection DiscoverAndSubscribe qmName = (case InitConnection qmName of
     Some err \<Rightarrow> Some (Errorf (''Failed to connect to queue manager '' @ qmName @ '': '' @ error_text err))
   | None \<Rightarrow>
       (case DiscoverAndSubscribe of
          Some err \<Rightarrow> Some (Errorf (''Failed to discover and subscribe to metrics: '' @ error_text err))
        | None \<Rightarrow> None))"

section \<open>State\<close>

text \<open>
  \<open>processMetrics\<close>: not started, connecting, sending on \<open>startChannel\<close>, processing publications, in its \<open>select\<close>, updating the
  metrics or answering for a client, waiting after an error, and returned.
\<close>

datatype process_pc = Not_Spawned | Connecting | Sending_Start | Publications | Selecting
  | Updating nat | Responding nat | Retrying | Process_Returned

text \<open>A client of the exporter: \<open>Requesting b\<close> sends \<open>b\<close>, \<open>Awaiting\<close> waits for the answer, \<open>Reading\<close> iterates over it.\<close>

datatype client_pc = Idle | Requesting bool | Awaiting | Reading

text \<open>\<open>GatherMetrics\<close>: in the loop for an active queue manager, in the parts of \<open>startMetricsGathering\<close>, about to stop, and ended.\<close>

datatype gather_pc = Standby | Checking | Await_Start | Registering | Describing | Preparing_Server
  | Gather_Stopping | Gather_Failed | Gather_Ended

datatype server_pc = No_Server | Listening | Server_Stopping | Server_Failed | Server_Closed

datatype stopper_pc = Not_Signalled | Signal_Stopping | Signal_Sent | Signal_Ignored

record metrics_state =
  process_at :: process_pc
  gather_at :: gather_pc
  server_at :: server_pc
  stopper_at :: stopper_pc
  metricsEnabled :: bool
  firstConnect :: bool
  stopQueued :: nat
  client_at :: "nat \<Rightarrow> client_pc"

definition metrics_start :: metrics_state where
  "metrics_start = \<lparr>process_at = Not_Spawned, gather_at = Standby, server_at = No_Server, stopper_at = Not_Signalled,
     metricsEnabled = False, firstConnect = True, stopQueued = 0, client_at = (\<lambda>_. Idle)\<rparr>"

definition set_client :: "nat \<Rightarrow> client_pc \<Rightarrow> metrics_state \<Rightarrow> metrics_state" where
  "set_client i c s = s\<lparr>client_at := (client_at s)(i := c)\<rparr>"

definition queue_stop :: "metrics_state \<Rightarrow> metrics_state" where
  "queue_stop s = s\<lparr>stopQueued := Suc (stopQueued s)\<rparr>"

definition take_stop :: "metrics_state \<Rightarrow> metrics_state" where
  "take_stop s = s\<lparr>stopQueued := stopQueued s - 1, process_at := Process_Returned\<rparr>"

section \<open>Steps\<close>

text \<open>Client 0 is the registration of the exporter, which calls \<open>Describe\<close>; the other clients are scrapes.\<close>

inductive process_step :: "metrics_state \<Rightarrow> metrics_state \<Rightarrow> bool" where
  connected: "process_at s = Connecting \<Longrightarrow>
    process_step s (s\<lparr>process_at := if firstConnect s then Sending_Start else Publications\<rparr>)"
| not_connected: "process_at s = Connecting \<Longrightarrow> process_step s (s\<lparr>process_at := Retrying\<rparr>)"
| start_sent: "process_at s = Sending_Start \<Longrightarrow> gather_at s = Await_Start \<Longrightarrow>
    process_step s (s\<lparr>process_at := Publications, firstConnect := False, gather_at := Registering\<rparr>)"
| published: "process_at s = Publications \<Longrightarrow> process_step s (s\<lparr>process_at := Selecting\<rparr>)"
| publications_failed: "process_at s = Publications \<Longrightarrow> process_step s (s\<lparr>process_at := Retrying\<rparr>)"
| request: "process_at s = Selecting \<Longrightarrow> client_at s i = Requesting collect \<Longrightarrow>
    process_step s ((set_client i Awaiting s)\<lparr>process_at := if collect then Updating i else Responding i\<rparr>)"
| updated: "process_at s = Updating i \<Longrightarrow> process_step s (s\<lparr>process_at := Responding i\<rparr>)"
| response: "process_at s = Responding i \<Longrightarrow> client_at s j = Awaiting \<Longrightarrow>
    process_step s ((set_client j Reading s)\<lparr>process_at := Publications\<rparr>)"
| stopped: "process_at s = Selecting \<or> process_at s = Retrying \<Longrightarrow> 0 < stopQueued s \<Longrightarrow> process_step s (take_stop s)"
| no_requests: "process_at s = Selecting \<Longrightarrow> process_step s (s\<lparr>process_at := Publications\<rparr>)"
| retry: "process_at s = Retrying \<Longrightarrow> process_step s (s\<lparr>process_at := Connecting\<rparr>)"

inductive gather_step :: "metrics_state \<Rightarrow> metrics_state \<Rightarrow> bool" where
  active: "gather_at s = Standby \<Longrightarrow> gather_step s (s\<lparr>gather_at := Checking, metricsEnabled := True\<rparr>)"
| check_failed: "gather_at s = Checking \<Longrightarrow> gather_step s (s\<lparr>gather_at := Gather_Stopping\<rparr>)"
| spawn: "gather_at s = Checking \<Longrightarrow> gather_step s (s\<lparr>gather_at := Await_Start, process_at := Connecting\<rparr>)"
| describe: "gather_at s = Registering \<Longrightarrow> gather_step s ((set_client 0 (Requesting False) s)\<lparr>gather_at := Describing\<rparr>)"
| registered: "gather_at s = Describing \<Longrightarrow> client_at s 0 = Reading \<Longrightarrow>
    gather_step s ((set_client 0 Idle s)\<lparr>gather_at := Preparing_Server\<rparr>)"
| not_registered: "gather_at s = Describing \<Longrightarrow> client_at s 0 = Reading \<Longrightarrow>
    gather_step s ((set_client 0 Idle s)\<lparr>gather_at := Gather_Stopping\<rparr>)"
| tls_failed: "gather_at s = Preparing_Server \<Longrightarrow> gather_step s (s\<lparr>gather_at := Gather_Stopping\<rparr>)"
| serving: "gather_at s = Preparing_Server \<Longrightarrow> gather_step s (s\<lparr>gather_at := Gather_Ended, server_at := Listening\<rparr>)"
| gather_stop: "gather_at s = Gather_Stopping \<Longrightarrow> stopQueued s < 2 \<Longrightarrow> gather_step s ((queue_stop s)\<lparr>gather_at := Gather_Failed\<rparr>)"

inductive server_step :: "metrics_state \<Rightarrow> metrics_state \<Rightarrow> bool" where
  listen_failed: "server_at s = Listening \<Longrightarrow> server_step s (s\<lparr>server_at := Server_Stopping\<rparr>)"
| server_stop: "server_at s = Server_Stopping \<Longrightarrow> stopQueued s < 2 \<Longrightarrow> server_step s ((queue_stop s)\<lparr>server_at := Server_Failed\<rparr>)"
| closed: "server_at s = Listening \<Longrightarrow> server_step s (s\<lparr>server_at := Server_Closed\<rparr>)"
| signalled: "stopper_at s = Not_Signalled \<Longrightarrow>
    server_step s (s\<lparr>stopper_at := if metricsEnabled s then Signal_Stopping else Signal_Ignored\<rparr>)"
| signal_stop: "stopper_at s = Signal_Stopping \<Longrightarrow> stopQueued s < 2 \<Longrightarrow> server_step s ((queue_stop s)\<lparr>stopper_at := Signal_Sent\<rparr>)"
| scrape: "server_at s = Listening \<Longrightarrow> 0 < i \<Longrightarrow> client_at s i = Idle \<Longrightarrow> server_step s (set_client i (Requesting True) s)"
| scraped: "0 < i \<Longrightarrow> client_at s i = Reading \<Longrightarrow> server_step s (set_client i Idle s)"

inductive metrics_reach :: "metrics_state \<Rightarrow> bool" where
  start: "metrics_reach metrics_start"
| by_process: "metrics_reach s \<Longrightarrow> process_step s s' \<Longrightarrow> metrics_reach s'"
| by_gather: "metrics_reach s \<Longrightarrow> gather_step s s' \<Longrightarrow> metrics_reach s'"
| by_server: "metrics_reach s \<Longrightarrow> server_step s s' \<Longrightarrow> metrics_reach s'"

named_theorems protocol_defs \<open>updates of the state of the protocol\<close>

lemmas [protocol_defs] = set_client_def queue_stop_def take_stop_def

text \<open>What holds at the start and is kept by every step holds in every state that is reached.\<close>

locale metrics_invariant =
  fixes I :: "metrics_state \<Rightarrow> bool"
  assumes at_start: "I metrics_start"
    and process_keeps: "I s \<Longrightarrow> process_step s s' \<Longrightarrow> I s'"
    and gather_keeps: "I s \<Longrightarrow> gather_step s s' \<Longrightarrow> I s'"
    and server_keeps: "I s \<Longrightarrow> server_step s s' \<Longrightarrow> I s'"
begin

lemma reach: "metrics_reach s \<Longrightarrow> I s"
  by (induction rule: metrics_reach.induct) (auto intro: at_start process_keeps gather_keeps server_keeps)

end

section \<open>Stopping\<close>

definition one_if :: "bool \<Rightarrow> nat" where "one_if b = (if b then 1 else 0)"

definition stops_ok :: "metrics_state \<Rightarrow> bool" where
  "stops_ok s \<longleftrightarrow> (server_at s \<noteq> No_Server \<longrightarrow> gather_at s = Gather_Ended)
    \<and> stopQueued s \<le> one_if (gather_at s = Gather_Failed) + one_if (server_at s = Server_Failed) + one_if (stopper_at s = Signal_Sent)"

interpretation stops: metrics_invariant stops_ok
proof
  show "stops_ok metrics_start" by (simp add: stops_ok_def metrics_start_def)
  show "stops_ok s'" if "stops_ok s" "process_step s s'" for s s'
    using that(2,1) by (cases rule: process_step.cases) (auto simp: stops_ok_def protocol_defs one_if_def)
  show "stops_ok s'" if "stops_ok s" "gather_step s s'" for s s'
    using that(2,1) by (cases rule: gather_step.cases) (auto simp: stops_ok_def protocol_defs one_if_def)
  show "stops_ok s'" if "stops_ok s" "server_step s s'" for s s'
    using that(2,1) by (cases rule: server_step.cases) (auto simp: stops_ok_def protocol_defs one_if_def)
qed

text \<open>
  C20: The buffer of \<open>stopChannel\<close> is large enough: in every state that the goroutines of the metrics reach, whoever is about to stop the
  gathering of metrics (the signal handler, the goroutine that failed to start it, or the server that failed to
  listen) finds room in the channel, so that none of them blocks, whether \<open>processMetrics\<close> is running or not.
\<close>

theorem stop_never_blocks:
  assumes "metrics_reach s"
  shows "stopQueued s \<le> 2 \<and>
    (gather_at s = Gather_Stopping \<or> server_at s = Server_Stopping \<or> stopper_at s = Signal_Stopping \<longrightarrow> stopQueued s < 2)"
  using stops.reach [OF assms] by (auto simp: stops_ok_def one_if_def split: if_splits)

section \<open>Answers\<close>

text \<open>The client that \<open>processMetrics\<close> serves.\<close>

fun client_of :: "process_pc \<Rightarrow> nat option" where
  "client_of (Updating i) = Some i"
| "client_of (Responding i) = Some i"
| "client_of _ = None"

definition answered :: "metrics_state \<Rightarrow> bool" where
  "answered s \<longleftrightarrow> (\<forall>j. client_at s j = Awaiting \<longleftrightarrow> client_of (process_at s) = Some j)"

definition unregistered :: "metrics_state \<Rightarrow> bool" where
  "unregistered s \<longleftrightarrow> (gather_at s \<in> {Standby, Checking} \<longrightarrow> process_at s = Not_Spawned)
    \<and> (gather_at s \<in> {Standby, Checking, Await_Start, Registering} \<longrightarrow> client_at s 0 = Idle)"

definition served :: "metrics_state \<Rightarrow> bool" where
  "served s \<longleftrightarrow> answered s \<and> unregistered s"

lemma answered_other:
  assumes "answered s" "client_at s i \<noteq> Awaiting" "c \<noteq> Awaiting" "client_of (process_at s') = client_of (process_at s)"
    "client_at s' = (client_at s)(i := c)"
  shows "answered s'"
  using assms by (auto simp: answered_def)

lemma answered_same:
  "answered s \<Longrightarrow> client_of (process_at s') = client_of (process_at s) \<Longrightarrow> client_at s' = client_at s \<Longrightarrow> answered s'"
  by (simp add: answered_def)

lemma answered_process:
  assumes "answered s" "process_step s s'"
  shows "answered s'"
  using assms(2)
proof (cases rule: process_step.cases)
  case (request i collect)
  with assms(1) show ?thesis by (auto simp: answered_def set_client_def)
next
  case (response i j)
  with assms(1) show ?thesis by (auto simp: answered_def set_client_def)
next
  case stopped
  with assms(1) show ?thesis by (auto simp: answered_def take_stop_def)
qed (use assms(1) in \<open>auto elim!: answered_same\<close>)

lemma unregistered_process:
  assumes "unregistered s" "process_step s s'"
  shows "unregistered s'"
  using assms(2)
proof (cases rule: process_step.cases)
  case (response i j)
  with assms(1) have "j = 0 \<Longrightarrow> gather_at s \<notin> {Standby, Checking, Await_Start, Registering}"
    by (auto simp: unregistered_def)
  with response assms(1) show ?thesis by (auto simp: unregistered_def set_client_def)
next
  case (request i collect)
  with assms(1) have "i = 0 \<Longrightarrow> gather_at s \<notin> {Standby, Checking, Await_Start, Registering}"
    by (auto simp: unregistered_def)
  with request assms(1) show ?thesis by (auto simp: unregistered_def set_client_def)
qed (use assms(1) in \<open>auto simp: unregistered_def take_stop_def\<close>)

lemma served_gather:
  assumes "served s" "gather_step s s'"
  shows "served s'"
proof -
  from assms(1) have s: "answered s" "unregistered s" by (simp_all add: served_def)
  have "unregistered s'"
    using assms(2) s(2) by (cases rule: gather_step.cases) (auto simp: unregistered_def protocol_defs)
  moreover from assms(2) have "answered s'"
  proof (cases rule: gather_step.cases)
    case describe
    with s show ?thesis by (intro answered_other [OF s(1), of 0 "Requesting False"]) (auto simp: unregistered_def set_client_def)
  next
    case registered
    with s show ?thesis by (intro answered_other [OF s(1), of 0 Idle]) (auto simp: set_client_def)
  next
    case not_registered
    with s show ?thesis by (intro answered_other [OF s(1), of 0 Idle]) (auto simp: set_client_def)
  next
    case spawn
    with s show ?thesis by (intro answered_same [OF s(1)]) (auto simp: unregistered_def)
  qed (use s(1) in \<open>auto elim!: answered_same simp: queue_stop_def\<close>)
  ultimately show ?thesis by (simp add: served_def)
qed

lemma served_server:
  assumes "served s" "server_step s s'"
  shows "served s'"
proof -
  from assms(1) have s: "answered s" "unregistered s" by (simp_all add: served_def)
  have "unregistered s'"
    using assms(2) s(2) by (cases rule: server_step.cases) (auto simp: unregistered_def protocol_defs)
  moreover from assms(2) have "answered s'"
  proof (cases rule: server_step.cases)
    case (scrape i)
    with s show ?thesis by (intro answered_other [OF s(1), of i "Requesting True"]) (auto simp: set_client_def)
  next
    case (scraped i)
    with s show ?thesis by (intro answered_other [OF s(1), of i Idle]) (auto simp: set_client_def)
  qed (use s(1) in \<open>auto elim!: answered_same simp: queue_stop_def\<close>)
  ultimately show ?thesis by (simp add: served_def)
qed

interpretation answers: metrics_invariant served
proof
  show "served metrics_start" by (simp add: served_def answered_def unregistered_def metrics_start_def)
  show "served s'" if "served s" "process_step s s'" for s s'
    using that answered_process unregistered_process unfolding served_def by blast
  show "served s'" if "served s" "gather_step s s'" for s s' using that by (rule served_gather)
  show "served s'" if "served s" "server_step s s'" for s s' using that by (rule served_server)
qed

text \<open>
  C21: However many scrapes run at the same time, an answer of \<open>processMetrics\<close> goes to the one that made the request: while it answers
  a request, the client that made it waits for the answer, and no other client does.
\<close>

theorem answer_reaches_requester:
  assumes "metrics_reach s" "process_at s = Updating i \<or> process_at s = Responding i"
  shows "client_at s j = Awaiting \<longleftrightarrow> j = i"
proof -
  from answers.reach [OF assms(1)] have "client_at s j = Awaiting \<longleftrightarrow> client_of (process_at s) = Some j"
    unfolding served_def answered_def by (elim conjE) (rule spec)
  with assms(2) show ?thesis by auto
qed

section \<open>Scrapes at the same time\<close>

definition state_of :: "bool \<Rightarrow> process_pc \<Rightarrow> gather_pc \<Rightarrow> server_pc \<Rightarrow> (nat \<Rightarrow> client_pc) \<Rightarrow> metrics_state" where
  "state_of first p g v c = \<lparr>process_at = p, gather_at = g, server_at = v, stopper_at = Not_Signalled,
     metricsEnabled = True, firstConnect = first, stopQueued = 0, client_at = c\<rparr>"

definition both_scraping :: metrics_state where
  "both_scraping = state_of False (Updating 2) Gather_Ended Listening ((\<lambda>_. Idle)(1 := Reading, 2 := Awaiting))"

named_theorems at_state \<open>fields of example states\<close>

lemmas [at_state] = state_of_def set_client_def

lemma idle_again: "((\<lambda>_. Idle)(i := Idle)) = (\<lambda>_. Idle)"
  by auto

lemma reach_listening: "metrics_reach (state_of False Publications Gather_Ended Listening (\<lambda>_. Idle))"
proof -
  have "metrics_reach (state_of True Not_Spawned Checking No_Server (\<lambda>_. Idle))"
    using by_gather [OF start active] by (simp add: metrics_start_def at_state)
  from by_gather [OF this spawn] have "metrics_reach (state_of True Connecting Await_Start No_Server (\<lambda>_. Idle))"
    by (simp add: at_state)
  from by_process [OF this connected] have "metrics_reach (state_of True Sending_Start Await_Start No_Server (\<lambda>_. Idle))"
    by (simp add: at_state)
  from by_process [OF this start_sent] have "metrics_reach (state_of False Publications Registering No_Server (\<lambda>_. Idle))"
    by (simp add: at_state)
  from by_gather [OF this describe] have "metrics_reach (state_of False Publications Describing No_Server ((\<lambda>_. Idle)(0 := Requesting False)))"
    by (simp add: at_state)
  from by_process [OF this published] have "metrics_reach (state_of False Selecting Describing No_Server ((\<lambda>_. Idle)(0 := Requesting False)))"
    by (simp add: at_state)
  from by_process [OF this request [where i = 0 and collect = False]]
  have "metrics_reach (state_of False (Responding 0) Describing No_Server ((\<lambda>_. Idle)(0 := Awaiting)))"
    by (simp add: at_state)
  from by_process [OF this response [where i = 0 and j = 0]]
  have "metrics_reach (state_of False Publications Describing No_Server ((\<lambda>_. Idle)(0 := Reading)))"
    by (simp add: at_state)
  from by_gather [OF this registered] have "metrics_reach (state_of False Publications Preparing_Server No_Server (\<lambda>_. Idle))"
    by (simp add: at_state idle_again)
  from by_gather [OF this serving] show ?thesis by (simp add: at_state)
qed

lemma reach_both_scraping: "metrics_reach both_scraping"
proof -
  let ?s = "\<lambda>p. state_of False p Gather_Ended Listening"
  from by_server [OF reach_listening scrape [where i = 1]]
  have "metrics_reach (?s Publications ((\<lambda>_. Idle)(1 := Requesting True)))" by (simp add: at_state)
  from by_server [OF this scrape [where i = 2]]
  have "metrics_reach (?s Publications ((\<lambda>_. Idle)(1 := Requesting True, 2 := Requesting True)))" by (simp add: at_state)
  from by_process [OF this published]
  have "metrics_reach (?s Selecting ((\<lambda>_. Idle)(1 := Requesting True, 2 := Requesting True)))" by (simp add: at_state)
  from by_process [OF this request [where i = 1 and collect = True]]
  have "metrics_reach (?s (Updating 1) ((\<lambda>_. Idle)(1 := Awaiting, 2 := Requesting True)))"
    by (simp add: at_state fun_upd_twist)
  from by_process [OF this updated [where i = 1]]
  have "metrics_reach (?s (Responding 1) ((\<lambda>_. Idle)(1 := Awaiting, 2 := Requesting True)))" by (simp add: at_state)
  from by_process [OF this response [where i = 1 and j = 1]]
  have "metrics_reach (?s Publications ((\<lambda>_. Idle)(1 := Reading, 2 := Requesting True)))"
    by (simp add: at_state fun_upd_twist)
  from by_process [OF this published]
  have "metrics_reach (?s Selecting ((\<lambda>_. Idle)(1 := Reading, 2 := Requesting True)))" by (simp add: at_state)
  from by_process [OF this request [where i = 2 and collect = True]] show ?thesis
    by (simp add: at_state both_scraping_def)
qed

text \<open>
  C22: Two scrapes at the same time race: a state is reached in which \<open>processMetrics\<close> replaces the values of the metrics for one of them
  while the other one iterates over the same values.
\<close>

theorem concurrent_scrapes_race:
  "\<exists>s i j. metrics_reach s \<and> i \<noteq> j \<and> process_at s = Updating j \<and> client_at s i = Reading"
proof (intro exI conjI)
  show "metrics_reach both_scraping" by (rule reach_both_scraping)
  show "process_at both_scraping = Updating 2" "client_at both_scraping 1 = Reading" "(1::nat) \<noteq> 2"
    by (simp_all add: both_scraping_def at_state)
qed

theorem answer_reaches_requester_witness: "client_at both_scraping 1 = Awaiting \<longleftrightarrow> (1::nat) = 2"
  by (rule answer_reaches_requester [OF reach_both_scraping]) (simp add: both_scraping_def at_state)

theorem stop_never_blocks_witness: "stopQueued both_scraping \<le> 2"
  using stop_never_blocks [OF reach_both_scraping] by simp

end
