(* ===== verification/Spec2Isabelle.thy ===== *)
theory Spec2Isabelle
  imports MQSC_Redact Logger MQ_Version Queue_Manager_Config Ready Log_Rotation Startup_Checks Volumes Container_Runtime Queue_Manager Mirror Logging
    Sensitive_Memory Keystore TLS Native_HA Web_Server Signals Dev_Server Run_Server Metrics_Exporter Metrics_Protocol
begin

text \<open>
  \<^bold>\<open>Verification of the Go programs of the MQ container image\<close>

  The image runs \<open>runmqserver\<close> (or, in the developer image, \<open>runmqdevserver\<close>, which replaces itself by it) as its only
  process.  The program checks the container and the licence, prepares volumes and files, configures TLS, the web server
  and Native HA, creates and starts a queue manager with the commands of MQ, mirrors its logs to the console, serves its
  metrics, and waits for a signal to stop.  Three small programs (\<open>chkmqready\<close>, \<open>chkmqhealthy\<close>, \<open>chkmqstarted\<close>) are run by
  the container platform as probes and see the others only through files and through the commands of MQ.

  \<^bold>\<open>How programs are modelled.\<close>  A function with effects is a value of the state monad over \<open>world\<close> (\<open>Go_OS\<close>): environment,
  files with links, package-level variables, and a trace of commands, log messages, files written and removed, goroutines
  and channel operations.  Any system call may fail, and the programs run are a function in the world of which nothing is
  assumed.  Errors are \<open>error + 'a\<close>, and \<open>'a res\<close> (\<open>Go_Result\<close>) where a panic (\<open>None\<close>) is possible too.  Goroutines that
  share channels are step relations over a record.  Loops are structural recursion, \<open>function\<close> with a measure,
  \<open>partial_function\<close> where they may not end (\<open>reapZombies\<close>), or fuel.  The fuel is the length of the text for the loops that
  read one, which is shown to be enough where a theorem needs the result; 40 links for the resolution of a path, the
  limit of Linux; and an argument for the wait for an active queue manager, which may last for ever.

  \<^bold>\<open>The theories\<close> (file names are below \<open>src/\<close>)

  \<^item> \<open>Go_Strings\<close>, \<open>Go_UTF8\<close>, \<open>Go_Paths\<close>, \<open>Go_Scanner\<close>: the part of the Go library that is used, and \<open>internal/pathutils\<close>.
    \<open>Go_OS\<close>: the world, \<open>internal/command\<close>, and the locale \<open>kept\<close>, whose interpretations (\<open>emits\<close>, \<open>same_env\<close>, \<open>same_files\<close>,
    \<open>quiet\<close> and others) show what a program leaves alone, along its text.  \<open>Go_Result\<close> and \<open>Go_Traces\<close>: calculi for the
    value of a successful run (\<open>yields\<close>) and for result and events together (\<open>traces\<close>).
  \<^item> \<open>MQSC_Redact\<close> (\<open>internal/mqscredact\<close>): values of sensitive parameters have no influence on the redacted text, and only
    values are replaced.
  \<^item> \<open>Logger\<close> (\<open>pkg/logger\<close>, \<open>pkg/syncwriter\<close>): a JSON record is one line from which the message can be read; writers lose
    nothing and share locks as intended.
  \<^item> \<open>Log_Rotation\<close> (\<open>pkg/logrotation\<close>): \<open>Append\<close> implements a store that keeps the newest text within a bound.
  \<^item> \<open>MQ_Version\<close> (\<open>internal/mqversion\<close>), \<open>Queue_Manager_Config\<close> (\<open>pkg/name\<close>, \<open>pkg/mqini\<close>): round trips of versions and
    stanzas, the order of versions, separate data directories.
  \<^item> \<open>Ready\<close> (\<open>internal/ready\<close>, \<open>cmd/chkmq*\<close>): the readiness files and the exit codes of the probes.
  \<^item> \<open>Startup_Checks\<close> (\<open>license.go\<close>, \<open>process.go\<close>, \<open>version.go\<close>, \<open>internal/fips\<close>), \<open>Container_Runtime\<close>
    (\<open>internal/containerruntime\<close>, \<open>internal/user\<close>, \<open>pkg/containerruntimelogger\<close>), \<open>Volumes\<close> (\<open>crtmqvol.go\<close>, \<open>internal/copy\<close>,
    \<open>internal/filecheck\<close>, \<open>internal/mqtemplate\<close>): what is checked, cleaned and copied, and what is spared.
  \<^item> \<open>Queue_Manager\<close> (\<open>qmgr.go\<close>): the commands that create, start and stop a queue manager; data is not created twice.
  \<^item> \<open>Logging\<close> (\<open>logging.go\<close>) and \<open>Mirror\<close> (\<open>mirror.go\<close>): one record per mirrored line; the tailing goroutine beside a
    rotating log reads everything once, except in a race that is shown.
  \<^item> \<open>Sensitive_Memory\<close> (\<open>internal/sensitive\<close>), \<open>Keystore\<close> (\<open>internal/keystore\<close>, \<open>internal/securityutility\<close>), \<open>TLS\<close>
    (\<open>internal/tls\<close>), \<open>Web_Server\<close> (\<open>webserver.go\<close>, \<open>post_init.go\<close>, \<open>internal/simpleauth\<close>), \<open>Native_HA\<close> (\<open>internal/ha\<close>):
    secrets are zeroed, certificates are trusted once, the right files are written.
  \<^item> \<open>Signals\<close> (\<open>signals.go\<close>): the signal handler beside the main thread; order of the shutdown, and its end.
  \<^item> \<open>Metric_Names\<close>, \<open>Metrics\<close>, \<open>Metrics_Exporter\<close>, \<open>Metrics_Server\<close>, \<open>Metrics_Protocol\<close> (\<open>internal/metrics\<close>): names and
    values of metrics, counters and gauges of the exporter, certificates and audit log of the server, and the goroutines
    with their channels (locale \<open>metrics_invariant\<close>).
  \<^item> \<open>Dev_Server\<close> (\<open>cmd/runmqdevserver\<close>) and \<open>Run_Server\<close> (\<open>cmd/runmqserver/main.go\<close>): the programs, composed of the
    operations above; licence, order of the start-up, and that every error is reported.

  \<^bold>\<open>Parameters.\<close>  Third-party packages and generated values are arguments: cryptography (\<open>crypto_lib\<close>, \<open>key_lib\<close>), text
  templates, JSON decoding and the formatting of times and of values other than strings (\<open>golib\<close>), capabilities and
  system calls of the platform (\<open>platform\<close>), \<open>mqmetric\<close>, \<open>prometheus\<close> and the arithmetic of \<open>float64\<close> (\<open>prom\<close>), the order of
  Go's maps, the responses of \<open>fsnotify\<close> and of HTTP servers, and the stamps of the build.

  \<^bold>\<open>Not modelled.\<close>  File modes and owners; the times between steps; memory other than that of sensitive buffers; data races
  other than those shown.  \<open>internal/containerruntime/runtime_other.go\<close> is not built on Linux.  The C code of the
  authorisation service (\<open>authservice\<close>), vendored packages, tests, scripts and images are not part of the Go programs.
\<close>

end
